(* ===== verification/Prelude.thy ===== *)
theory Prelude
  imports Main "HOL-Library.Word"
begin

text \<open>
  What every component of the model shares: the widths of the C integers, the outcome of
  running a piece of C (it finishes with a value, or it stops the process), the sequencing of
  such pieces, and two reusable proof principles over it: \<open>every\<close> (a property of
  the state holds however the run ends) and \<open>post\<close> (the run finishes, with a result
  and a state that satisfy the property).
\<close>

unbundle bit_operations_syntax

named_theorems run_simps \<open>sequencing equations of the outcome type\<close>
named_theorems keeps \<open>operations that keep a property of the state, whatever the outcome\<close>

section \<open>C integers\<close>

type_synonym u8 = "8 word"
type_synonym u16 = "16 word"
type_synonym u32 = "32 word"

text \<open>
  A value of type \<open>int\<close> or \<open>key_t\<close> whose bits matter is a 32-bit word, read
  with \<open>sint\<close>; a return code is an \<open>int\<close>.
\<close>

definition EXIT_SUCCESS :: int where "EXIT_SUCCESS = 0"
definition EXIT_FAILURE :: int where "EXIT_FAILURE = 1"

lemma exit_codes [simp]: "EXIT_SUCCESS = 0" "EXIT_FAILURE = 1"
  by (simp_all add: EXIT_SUCCESS_def EXIT_FAILURE_def)

text \<open>Conversion to a narrower signed C type (two's complement, as gcc converts).\<close>

definition to_short :: "int \<Rightarrow> int" where
  "to_short n = sint (word_of_int n :: 16 word)"

definition to_int :: "int \<Rightarrow> int" where
  "to_int n = sint (word_of_int n :: 32 word)"

lemma to_int_id: "- (2 ^ 31) \<le> n \<Longrightarrow> n < 2 ^ 31 \<Longrightarrow> to_int n = n"
  by (simp add: to_int_def sint_sbintrunc' signed_take_bit_int_eq_self)

lemma to_short_id: "- (2 ^ 15) \<le> n \<Longrightarrow> n < 2 ^ 15 \<Longrightarrow> to_short n = n"
  by (simp add: to_short_def sint_sbintrunc' signed_take_bit_int_eq_self)

section \<open>Outcomes\<close>

text \<open>
  A piece of C that touches the system is a function of the state. It finishes with a
  value, or the process stops in it: an \<open>assert\<close> failed, the behaviour is undefined
  (a null, dangling or indeterminate pointer is used, or memory outside an object), it
  waits for ever, it called \<open>exit\<close>, or it replaced itself by another program.
\<close>

datatype why = Assert_failed | Undefined | Hangs | Exited int | Replaced

datatype ('s, 'a) run = Fin 'a 's | Stop why 's

definition retr :: "'a \<Rightarrow> 's \<Rightarrow> ('s, 'a) run" where
  "retr a s = Fin a s"

definition bindr :: "('s \<Rightarrow> ('s, 'a) run) \<Rightarrow> ('a \<Rightarrow> 's \<Rightarrow> ('s, 'b) run) \<Rightarrow> 's \<Rightarrow> ('s, 'b) run" where
  "bindr m f s = (case m s of Fin a t \<Rightarrow> f a t | Stop w t \<Rightarrow> Stop w t)"

definition gets :: "('s \<Rightarrow> 'a) \<Rightarrow> 's \<Rightarrow> ('s, 'a) run" where
  "gets f s = Fin (f s) s"

definition modify :: "('s \<Rightarrow> 's) \<Rightarrow> 's \<Rightarrow> ('s, unit) run" where
  "modify f s = Fin () (f s)"

definition stop :: "why \<Rightarrow> 's \<Rightarrow> ('s, 'a) run" where
  "stop w s = Stop w s"

definition assertr :: "bool \<Rightarrow> 's \<Rightarrow> ('s, unit) run" where
  "assertr b s = (if b then Fin () s else Stop Assert_failed s)"

lemma retr_run [run_simps]: "retr a s = Fin a s"
  by (simp add: retr_def)

lemma gets_run [run_simps]: "gets f s = Fin (f s) s"
  by (simp add: gets_def)

lemma modify_run [run_simps]: "modify f s = Fin () (f s)"
  by (simp add: modify_def)

lemma stop_run [run_simps]: "stop w s = Stop w s"
  by (simp add: stop_def)

lemma assertr_run [run_simps]:
  "assertr True s = Fin () s" "assertr False s = Stop Assert_failed s"
  by (simp_all add: assertr_def)

lemma bindr_run [run_simps]:
  "bindr m f s = (case m s of Fin a t \<Rightarrow> f a t | Stop w t \<Rightarrow> Stop w t)"
  by (simp add: bindr_def)

lemma if_run [run_simps]: "(if b then m else m') s = (if b then m s else m' s)"
  by simp

text \<open>One step of sequencing with the outcome of the first piece known.\<close>

lemma bindr_Fin: "m s = Fin a t \<Longrightarrow> bindr m f s = f a t"
  by (simp add: bindr_def)

lemma bindr_Stop: "m s = Stop w t \<Longrightarrow> bindr m f s = Stop w t"
  by (simp add: bindr_def)

lemma bindr_assoc: "bindr (bindr m f) g = bindr m (\<lambda>a. bindr (f a) g)"
  by (rule ext) (simp add: bindr_def split: run.split)

section \<open>Properties of an outcome\<close>

definition final :: "('s, 'a) run \<Rightarrow> 's" where
  "final r = (case r of Fin a t \<Rightarrow> t | Stop w t \<Rightarrow> t)"

definition every :: "('s, 'a) run \<Rightarrow> ('s \<Rightarrow> bool) \<Rightarrow> bool" where
  "every r I \<longleftrightarrow> I (final r)"

definition post :: "('s, 'a) run \<Rightarrow> ('a \<Rightarrow> 's \<Rightarrow> bool) \<Rightarrow> bool" where
  "post r Q \<longleftrightarrow> (case r of Fin a t \<Rightarrow> Q a t | Stop w t \<Rightarrow> False)"

lemma final_simps [simp]: "final (Fin a t) = t" "final (Stop w t) = t"
  by (simp_all add: final_def)

lemma every_simps [simp]: "every (Fin a t) I = I t" "every (Stop w t) I = I t"
  by (simp_all add: every_def)

lemma post_simps [simp]: "post (Fin a t) Q = Q a t" "post (Stop w t) Q = False"
  by (simp_all add: post_def)

lemma postE: "post r Q \<Longrightarrow> (\<And>a t. r = Fin a t \<Longrightarrow> Q a t \<Longrightarrow> P) \<Longrightarrow> P"
  by (cases r) auto

lemma post_mono: "post r Q \<Longrightarrow> (\<And>a t. Q a t \<Longrightarrow> R a t) \<Longrightarrow> post r R"
  by (cases r) auto

lemma post_bind: "post (m s) (\<lambda>a t. post (f a t) Q) \<Longrightarrow> post (bindr m f s) Q"
  by (cases "m s") (auto simp: bindr_def)

text \<open>
  \<open>keeps m I\<close>: running \<open>m\<close> from a state with \<open>I\<close> leaves a state with
  \<open>I\<close>, also when the process stops on the way.
\<close>

definition keeps :: "('s \<Rightarrow> ('s, 'a) run) \<Rightarrow> ('s \<Rightarrow> bool) \<Rightarrow> bool" where
  "keeps m I \<longleftrightarrow> (\<forall>s. I s \<longrightarrow> every (m s) I)"

lemma keepsI: "(\<And>s. I s \<Longrightarrow> every (m s) I) \<Longrightarrow> keeps m I"
  by (simp add: keeps_def)

lemma keepsD: "keeps m I \<Longrightarrow> I s \<Longrightarrow> every (m s) I"
  by (simp add: keeps_def)

lemma keeps_bind [keeps]:
  assumes "keeps m I" and "\<And>a. keeps (f a) I"
  shows "keeps (bindr m f) I"
proof (rule keepsI)
  fix s assume "I s"
  with assms(1) have "every (m s) I" by (rule keepsD)
  then show "every (bindr m f s) I"
    using assms(2) by (cases "m s") (auto simp: bindr_def dest: keepsD)
qed

lemma keeps_basic [keeps]:
  "keeps (retr a) I" "keeps (gets g) I" "keeps (stop w) I" "keeps (assertr b) I"
  by (simp_all add: keeps_def retr_def gets_def stop_def assertr_def)

lemma keeps_if [keeps]: "keeps m I \<Longrightarrow> keeps m' I \<Longrightarrow> keeps (if b then m else m') I"
  by simp

lemma keeps_option [keeps]:
  "keeps m I \<Longrightarrow> (\<And>x. keeps (f x) I) \<Longrightarrow> keeps (case p of None \<Rightarrow> m | Some x \<Rightarrow> f x) I"
  by (cases p) simp_all

lemma keeps_case_pair [keeps]: "(\<And>a b. keeps (f a b) I) \<Longrightarrow> keeps (case p of (a, b) \<Rightarrow> f a b) I"
  by (cases p) simp

lemma keeps_let [keeps]: "(\<And>x. keeps (f x) I) \<Longrightarrow> keeps (let x = e in f x) I"
  by simp

lemma keeps_modify: "(\<And>s. I s \<Longrightarrow> I (g s)) \<Longrightarrow> keeps (modify g) I"
  by (simp add: keeps_def modify_def)

section \<open>Lists\<close>

lemma list_update_sum_nat:
  fixes xs :: "nat list"
  assumes "i < length xs"
  shows "sum_list (xs[i := v]) + xs ! i = sum_list xs + v"
  using assms
proof (induction xs arbitrary: i)
  case Nil
  then show ?case by simp
next
  case (Cons x xs)
  then show ?case by (cases i) auto
qed

lemma list_all_update: "list_all P xs \<Longrightarrow> P v \<Longrightarrow> list_all P (xs[i := v])"
  by (auto simp: list_all_iff dest!: set_update_subset_insert [THEN subsetD])

end
