(* ===== verification/Xsi_Kernel.thy ===== *)
theory Xsi_Kernel
  imports Prelude
begin

text \<open>
  The XSI calls of the C library that the program uses (\<open>sys/sem.h\<close>,
  \<open>sys/shm.h\<close>, \<open>sys/mman.h\<close>), as POSIX documents them: the semaphore sets and
  shared segments that live in the kernel, and the view one process has of them.

  Everything the standard leaves to the system or to other processes is data of the state
  and arbitrary: the keys \<open>ftok\<close> returns, the limits, what an uninitialised object
  holds, which \<open>malloc\<close> fails, and the \<open>script\<close>. Each interaction of the process
  with the shared state first takes an entry of the script: an arbitrary change that other
  processes make to the shared state, and an optional error the call then fails with. A
  quantified script is every interleaving at the granularity of one call or memory access,
  and every error any call may report.
\<close>

section \<open>State\<close>

datatype errno =
  EOK | EPERM | ENOENT | EINTR | ESRCH | EAGAIN | ENOMEM | EACCES | EEXIST | EINVAL | ENFILE
| EMFILE | ENOSPC | EFBIG | ERANGE | EIDRM | ECHILD

text \<open>
  A semaphore set: its values, the time of its last change by \<open>semctl\<close>, and for each
  process the adjustment that is applied when the process ends.
\<close>

record semset =
  ss_key :: u32
  ss_vals :: "nat list"
  ss_ctime :: int
  ss_adj :: "nat \<Rightarrow> nat \<Rightarrow> int"

text \<open>A shared segment: its bytes, how often it is attached, and whether it was removed.\<close>

record segment =
  sg_key :: u32
  sg_data :: "u8 list"
  sg_nattch :: nat
  sg_dest :: bool

record ipc =
  sems :: "int \<Rightarrow> semset option"
  semkeys :: "u32 \<Rightarrow> int option"
  next_sem :: nat
  segs :: "int \<Rightarrow> segment option"
  shmkeys :: "u32 \<Rightarrow> int option"
  next_shm :: nat
  clock :: int
  semvmx :: nat
  semmsl :: nat
  shmmin :: nat
  shmmax :: nat

datatype device = Dev_zero | Dev_null

text \<open>
  What a pointer variable can hold: \<open>NULL\<close>, the address of an object, or an
  indeterminate value. The addresses of attached segments are numbered.
\<close>

datatype 'a pointer = Null | Obj 'a | Wild

datatype address = Addr_null | Addr_failed | Addr nat | Addr_wild

type_synonym move = "ipc \<Rightarrow> ipc"

record os =
  ker :: ipc
  script :: "(move \<times> errno option) list"
  err :: errno
  pid_self :: nat
  attached :: "nat \<Rightarrow> int option"
  next_addr :: nat
  ftok_of :: "device \<Rightarrow> u8 \<Rightarrow> u32"
  junk :: nat
  mallocs :: "bool list"
  out :: "(string \<times> int list) list"

definition IPC_PRIVATE :: u32 where "IPC_PRIVATE = 0"

text \<open>What \<open>ftok\<close> promises: different project ids give different usable keys.\<close>

definition ftok_ok :: "'z os_scheme \<Rightarrow> bool" where
  "ftok_ok s \<longleftrightarrow> (\<forall>d. inj (ftok_of s d) \<and> - 1 \<notin> range (ftok_of s d) \<and> IPC_PRIVATE \<notin> range (ftok_of s d))"

section \<open>Interaction with the shared state\<close>

definition interact :: "'z os_scheme \<Rightarrow> errno option \<times> 'z os_scheme" where
  "interact s = (case script s of [] \<Rightarrow> (None, s)
     | (mv, f) # evs \<Rightarrow> (f, s\<lparr>ker := mv (ker s), script := evs\<rparr>))"

definition fails :: "errno \<Rightarrow> 'a \<Rightarrow> 'z os_scheme \<Rightarrow> ('z os_scheme, 'a) run" where
  "fails e bad s = Fin bad (s\<lparr>err := e\<rparr>)"

definition syscall :: "'a \<Rightarrow> ('z os_scheme \<Rightarrow> ('z os_scheme, 'a) run) \<Rightarrow>
    'z os_scheme \<Rightarrow> ('z os_scheme, 'a) run" where
  "syscall bad body s = (case interact s of (None, t) \<Rightarrow> body t | (Some e, t) \<Rightarrow> fails e bad t)"

text \<open>\<open>malloc\<close> succeeds unless the state says that this call does not.\<close>

definition malloc :: "'z os_scheme \<Rightarrow> ('z os_scheme, bool) run" where
  "malloc s = (case mallocs s of [] \<Rightarrow> Fin True s | b # bs \<Rightarrow> Fin b (s\<lparr>mallocs := bs\<rparr>))"

definition printf :: "string \<Rightarrow> int list \<Rightarrow> 'z os_scheme \<Rightarrow> ('z os_scheme, unit) run" where
  "printf fmt args = modify (\<lambda>s. s\<lparr>out := out s @ [(fmt, args)]\<rparr>)"

definition time_now :: "'z os_scheme \<Rightarrow> ('z os_scheme, int) run" where
  "time_now s = Fin (clock (ker s)) s"

definition sleep :: "nat \<Rightarrow> 'z os_scheme \<Rightarrow> ('z os_scheme, unit) run" where
  "sleep n s = (case interact s of (_, t) \<Rightarrow>
     Fin () (t\<lparr>ker := (ker t)\<lparr>clock := clock (ker t) + int n\<rparr>\<rparr>))"

lemma sleep_returns: "\<exists>t. sleep n s = Fin () t"
  by (cases "interact s") (simp add: sleep_def)

section \<open>Semaphore sets\<close>

text \<open>Entering a new set in the tables under its key, and taking one out.\<close>

definition new_set :: "semset \<Rightarrow> ipc \<Rightarrow> ipc" where
  "new_set ss k = (let i = int (next_sem k); q = ss_key ss in k
     \<lparr>sems := (sems k)(i \<mapsto> ss),
      semkeys := (if q = IPC_PRIVATE then semkeys k else (semkeys k)(q \<mapsto> i)),
      next_sem := Suc (next_sem k)\<rparr>)"

definition rm_set :: "int \<Rightarrow> ipc \<Rightarrow> ipc" where
  "rm_set i k = k
     \<lparr>sems := (sems k)(i := None),
      semkeys := (\<lambda>q. if semkeys k q = Some i then None else semkeys k q)\<rparr>"

text \<open>
  \<open>semget\<close> with \<open>IPC_CREAT|IPC_EXCL\<close> (the flag is true) or without
  \<open>IPC_CREAT\<close> (false). New semaphores are zero, as on Linux.
\<close>

definition semget :: "u32 \<Rightarrow> nat \<Rightarrow> bool \<Rightarrow> 'z os_scheme \<Rightarrow> ('z os_scheme, int) run" where
  "semget k nsems creat = syscall (- 1) (\<lambda>s.
     case (if k = IPC_PRIVATE then None else semkeys (ker s) k) of
       Some i \<Rightarrow>
         (if creat then fails EEXIST (- 1) s
          else case sems (ker s) i of
              None \<Rightarrow> fails ENOENT (- 1) s
            | Some ss \<Rightarrow> if nsems > length (ss_vals ss) then fails EINVAL (- 1) s else Fin i s)
     | None \<Rightarrow>
         (if \<not> creat then fails ENOENT (- 1) s
          else if nsems = 0 \<or> nsems > semmsl (ker s) then fails EINVAL (- 1) s
          else Fin (int (next_sem (ker s)))
                 (s\<lparr>ker := new_set \<lparr>ss_key = k, ss_vals = replicate nsems 0,
                      ss_ctime = clock (ker s), ss_adj = (\<lambda>_ _. 0)\<rparr> (ker s)\<rparr>)))"

definition semctl_rmid :: "int \<Rightarrow> 'z os_scheme \<Rightarrow> ('z os_scheme, int) run" where
  "semctl_rmid i = syscall (- 1) (\<lambda>s.
     case sems (ker s) i of
       None \<Rightarrow> fails EINVAL (- 1) s
     | Some ss \<Rightarrow> Fin 0 (s\<lparr>ker := rm_set i (ker s)\<rparr>))"

text \<open>\<open>SETALL\<close> reads one value for each semaphore of the set from the caller's array.\<close>

definition semctl_setall :: "int \<Rightarrow> u16 list \<Rightarrow> 'z os_scheme \<Rightarrow> ('z os_scheme, int) run" where
  "semctl_setall i vs = syscall (- 1) (\<lambda>s.
     case sems (ker s) i of
       None \<Rightarrow> fails EINVAL (- 1) s
     | Some ss \<Rightarrow>
         (let us = take (length (ss_vals ss)) vs in
          if length vs < length (ss_vals ss) then Stop Undefined s
          else if \<exists>v \<in> set us. unat v > semvmx (ker s) then fails ERANGE (- 1) s
          else Fin 0 (s\<lparr>ker := (ker s)\<lparr>sems := (sems (ker s))(i \<mapsto>
                 ss\<lparr>ss_vals := map unat us, ss_ctime := clock (ker s), ss_adj := (\<lambda>_ _. 0)\<rparr>)\<rparr>\<rparr>)))"

definition semctl_getval :: "int \<Rightarrow> nat \<Rightarrow> 'z os_scheme \<Rightarrow> ('z os_scheme, int) run" where
  "semctl_getval i n = syscall (- 1) (\<lambda>s.
     case sems (ker s) i of
       None \<Rightarrow> fails EINVAL (- 1) s
     | Some ss \<Rightarrow> if n \<ge> length (ss_vals ss) then fails EINVAL (- 1) s
                  else Fin (int (ss_vals ss ! n)) s)"

text \<open>\<open>IPC_STAT\<close> fills the caller's buffer; when it fails the buffer is not written.\<close>

definition semctl_stat :: "int \<Rightarrow> 'z os_scheme \<Rightarrow> ('z os_scheme, semset option) run" where
  "semctl_stat i = syscall None (\<lambda>s.
     case sems (ker s) i of None \<Rightarrow> fails EINVAL None s | Some ss \<Rightarrow> Fin (Some ss) s)"

record sembuf =
  sem_num :: nat
  sem_op :: int
  sem_undo :: bool
  sem_nowait :: bool

datatype attempt = Done ipc | Failed errno | Would_block

text \<open>
  Adding \<open>d\<close> to semaphore \<open>n\<close> of set \<open>i\<close>; with \<open>SEM_UNDO\<close> the kernel
  also records the opposite adjustment for process \<open>p\<close>.
\<close>

definition sem_add :: "nat \<Rightarrow> bool \<Rightarrow> int \<Rightarrow> nat \<Rightarrow> int \<Rightarrow> ipc \<Rightarrow> ipc" where
  "sem_add p undo i n d k = (case sems k i of
      None \<Rightarrow> k
    | Some ss \<Rightarrow> k\<lparr>sems := (sems k)(i \<mapsto>
        ss\<lparr>ss_vals := (ss_vals ss)[n := nat (int (ss_vals ss ! n) + d)],
          ss_adj := (if undo then (ss_adj ss)(p := (ss_adj ss p)(n := ss_adj ss p n - d))
                     else ss_adj ss)\<rparr>)\<rparr>)"

text \<open>One attempt at a single operation; \<open>sem_op = 0\<close> is not used by the program.\<close>

definition sem_attempt :: "nat \<Rightarrow> int \<Rightarrow> sembuf \<Rightarrow> ipc \<Rightarrow> attempt" where
  "sem_attempt p i b k = (case sems k i of
      None \<Rightarrow> Failed EINVAL
    | Some ss \<Rightarrow>
        (if sem_num b \<ge> length (ss_vals ss) then Failed EFBIG
         else let v = int (ss_vals ss ! sem_num b) + sem_op b in
           if v < 0 then (if sem_nowait b then Failed EAGAIN else Would_block)
           else if v > int (semvmx k) then Failed ERANGE
           else Done (sem_add p (sem_undo b) i (sem_num b) (sem_op b) k)))"

text \<open>
  A blocked caller waits for the next entry of the script and tries again; a removed set ends
  the wait with \<open>EIDRM\<close>; with nothing more to happen it waits for ever.
\<close>

primrec semop_wait :: "int \<Rightarrow> sembuf \<Rightarrow> (move \<times> errno option) list \<Rightarrow>
    'z os_scheme \<Rightarrow> ('z os_scheme, int) run" where
  "semop_wait i b [] s = Stop Hangs s"
| "semop_wait i b (ev # evs) s =
     (let t = s\<lparr>ker := fst ev (ker s), script := evs\<rparr> in
      case snd ev of
        Some e \<Rightarrow> fails e (- 1) t
      | None \<Rightarrow>
          (if sems (ker t) i = None then fails EIDRM (- 1) t
           else case sem_attempt (pid_self t) i b (ker t) of
               Done k \<Rightarrow> Fin 0 (t\<lparr>ker := k\<rparr>)
             | Failed e \<Rightarrow> fails e (- 1) t
             | Would_block \<Rightarrow> semop_wait i b evs t))"

definition semop :: "int \<Rightarrow> sembuf \<Rightarrow> 'z os_scheme \<Rightarrow> ('z os_scheme, int) run" where
  "semop i b = syscall (- 1) (\<lambda>s.
     case sem_attempt (pid_self s) i b (ker s) of
       Done k \<Rightarrow> Fin 0 (s\<lparr>ker := k\<rparr>)
     | Failed e \<Rightarrow> fails e (- 1) s
     | Would_block \<Rightarrow> semop_wait i b (script s) s)"

text \<open>
  The end of a process applies its adjustments to every set (a value never leaves the range
  from zero to \<open>SEMVMX\<close>) and forgets them.
\<close>

definition undo_set :: "nat \<Rightarrow> nat \<Rightarrow> semset \<Rightarrow> semset" where
  "undo_set vmx p ss = ss
     \<lparr>ss_vals := map (\<lambda>n. min vmx (nat (int (ss_vals ss ! n) + ss_adj ss p n))) [0..<length (ss_vals ss)],
      ss_adj := (ss_adj ss)(p := (\<lambda>_. 0))\<rparr>"

definition undo_all :: "nat \<Rightarrow> ipc \<Rightarrow> ipc" where
  "undo_all p k = k\<lparr>sems := (\<lambda>i. map_option (undo_set (semvmx k) p) (sems k i))\<rparr>"

section \<open>Shared segments\<close>

definition new_seg :: "segment \<Rightarrow> ipc \<Rightarrow> ipc" where
  "new_seg sg k = (let i = int (next_shm k); q = sg_key sg in k
     \<lparr>segs := (segs k)(i \<mapsto> sg),
      shmkeys := (if q = IPC_PRIVATE then shmkeys k else (shmkeys k)(q \<mapsto> i)),
      next_shm := Suc (next_shm k)\<rparr>)"

definition rm_seg :: "int \<Rightarrow> segment option \<Rightarrow> ipc \<Rightarrow> ipc" where
  "rm_seg i left k = k
     \<lparr>segs := (segs k)(i := left),
      shmkeys := (\<lambda>q. if shmkeys k q = Some i then None else shmkeys k q)\<rparr>"

definition shmget :: "u32 \<Rightarrow> nat \<Rightarrow> bool \<Rightarrow> 'z os_scheme \<Rightarrow> ('z os_scheme, int) run" where
  "shmget k n creat = syscall (- 1) (\<lambda>s.
     case (if k = IPC_PRIVATE then None else shmkeys (ker s) k) of
       Some i \<Rightarrow>
         (if creat then fails EEXIST (- 1) s
          else case segs (ker s) i of
              None \<Rightarrow> fails ENOENT (- 1) s
            | Some sg \<Rightarrow> if n > length (sg_data sg) then fails EINVAL (- 1) s else Fin i s)
     | None \<Rightarrow>
         (if \<not> creat then fails ENOENT (- 1) s
          else if n < shmmin (ker s) \<or> n > shmmax (ker s) then fails EINVAL (- 1) s
          else Fin (int (next_shm (ker s)))
                 (s\<lparr>ker := new_seg \<lparr>sg_key = k, sg_data = replicate n 0, sg_nattch = 0,
                      sg_dest = False\<rparr> (ker s)\<rparr>)))"

definition shmat :: "int \<Rightarrow> 'z os_scheme \<Rightarrow> ('z os_scheme, address) run" where
  "shmat i = syscall Addr_failed (\<lambda>s.
     case segs (ker s) i of
       None \<Rightarrow> fails EINVAL Addr_failed s
     | Some sg \<Rightarrow> Fin (Addr (next_addr s)) (s
          \<lparr>ker := (ker s)\<lparr>segs := (segs (ker s))(i \<mapsto> sg\<lparr>sg_nattch := Suc (sg_nattch sg)\<rparr>)\<rparr>,
           attached := (attached s)(next_addr s \<mapsto> i),
           next_addr := Suc (next_addr s)\<rparr>))"

text \<open>Detaching; a removed segment disappears with its last attachment.\<close>

definition detach_seg :: "int \<Rightarrow> ipc \<Rightarrow> ipc" where
  "detach_seg i k = (case segs k i of
     None \<Rightarrow> k
   | Some sg \<Rightarrow> k\<lparr>segs := (segs k)(i :=
        (if sg_dest sg \<and> sg_nattch sg \<le> 1 then None
         else Some (sg\<lparr>sg_nattch := sg_nattch sg - 1\<rparr>)))\<rparr>)"

definition shmdt :: "address \<Rightarrow> 'z os_scheme \<Rightarrow> ('z os_scheme, int) run" where
  "shmdt a = syscall (- 1) (\<lambda>s.
     case a of
       Addr n \<Rightarrow>
         (case attached s n of
            None \<Rightarrow> fails EINVAL (- 1) s
          | Some i \<Rightarrow> Fin 0 (s\<lparr>ker := detach_seg i (ker s), attached := (attached s)(n := None)\<rparr>))
     | _ \<Rightarrow> fails EINVAL (- 1) s)"

text \<open>
  The end of a process: its adjustments are applied and its segments detached. A new process
  has attached nothing and taken no semaphore.
\<close>

primrec detach_upto :: "nat \<Rightarrow> (nat \<Rightarrow> int option) \<Rightarrow> ipc \<Rightarrow> ipc" where
  "detach_upto 0 att k = k"
| "detach_upto (Suc n) att k =
     detach_upto n att (case att n of None \<Rightarrow> k | Some i \<Rightarrow> detach_seg i k)"

definition exit_process :: "'z os_scheme \<Rightarrow> 'z os_scheme" where
  "exit_process s = s\<lparr>ker := detach_upto (next_addr s) (attached s) (undo_all (pid_self s) (ker s)),
     attached := (\<lambda>_. None), next_addr := 0\<rparr>"

definition shmctl_rmid :: "int \<Rightarrow> 'z os_scheme \<Rightarrow> ('z os_scheme, int) run" where
  "shmctl_rmid i = syscall (- 1) (\<lambda>s.
     case segs (ker s) i of
       None \<Rightarrow> fails EINVAL (- 1) s
     | Some sg \<Rightarrow> Fin 0 (s\<lparr>ker :=
          rm_seg i (if sg_nattch sg = 0 then None else Some (sg\<lparr>sg_dest := True\<rparr>)) (ker s)\<rparr>))"

text \<open>
  \<open>mlockall\<close>, \<open>mlock\<close> and \<open>munlockall\<close> have no effect the program can
  observe but their result.
\<close>

definition mem_lock_call :: "'z os_scheme \<Rightarrow> ('z os_scheme, int) run" where
  "mem_lock_call = syscall (- 1) (Fin 0)"

section \<open>Memory accesses\<close>

text \<open>
  Accesses through an attached address; anything outside the segment is undefined behaviour.
  Other processes may act between two accesses, so each access takes an entry of the script
  (whose error part has no meaning here).
\<close>

definition seg_at :: "address \<Rightarrow> 'z os_scheme \<Rightarrow> (int \<times> segment) option" where
  "seg_at a s = (case a of
     Addr n \<Rightarrow> (case attached s n of None \<Rightarrow> None
        | Some i \<Rightarrow> (case segs (ker s) i of None \<Rightarrow> None | Some sg \<Rightarrow> Some (i, sg)))
   | _ \<Rightarrow> None)"

definition mem_read :: "address \<Rightarrow> nat \<Rightarrow> nat \<Rightarrow> 'z os_scheme \<Rightarrow> ('z os_scheme, u8 list) run" where
  "mem_read a off n s = (case interact s of (_, t) \<Rightarrow>
     (case seg_at a t of
        None \<Rightarrow> Stop Undefined t
      | Some (i, sg) \<Rightarrow>
          if off + n \<le> length (sg_data sg) then Fin (take n (drop off (sg_data sg))) t
          else Stop Undefined t))"

definition overwrite :: "nat \<Rightarrow> 'a list \<Rightarrow> 'a list \<Rightarrow> 'a list" where
  "overwrite off bs xs = take off xs @ bs @ drop (off + length bs) xs"

definition mem_write :: "address \<Rightarrow> nat \<Rightarrow> u8 list \<Rightarrow> 'z os_scheme \<Rightarrow> ('z os_scheme, unit) run" where
  "mem_write a off bs s = (case interact s of (_, t) \<Rightarrow>
     (case seg_at a t of
        None \<Rightarrow> Stop Undefined t
      | Some (i, sg) \<Rightarrow>
          if off + length bs \<le> length (sg_data sg)
          then Fin () (t\<lparr>ker := (ker t)\<lparr>segs := (segs (ker t))(i \<mapsto>
                 sg\<lparr>sg_data := overwrite off bs (sg_data sg)\<rparr>)\<rparr>\<rparr>)
          else Stop Undefined t))"

text \<open>The four bytes of an \<open>unsigned int\<close>, least significant first.\<close>

definition word_bytes :: "u32 \<Rightarrow> u8 list" where
  "word_bytes w = map (\<lambda>j. ucast (drop_bit (8 * j) w)) [0..<4]"

definition bytes_word :: "u8 list \<Rightarrow> u32" where
  "bytes_word bs = foldr (\<lambda>b w. ucast b OR push_bit 8 w) bs 0"

definition load_u32 :: "address \<Rightarrow> nat \<Rightarrow> 'z os_scheme \<Rightarrow> ('z os_scheme, u32) run" where
  "load_u32 a j = bindr (mem_read a (4 * j) 4) (\<lambda>bs. retr (bytes_word bs))"

definition store_u32 :: "address \<Rightarrow> nat \<Rightarrow> u32 \<Rightarrow> 'z os_scheme \<Rightarrow> ('z os_scheme, unit) run" where
  "store_u32 a j w = mem_write a (4 * j) (word_bytes w)"

section \<open>Calls in a quiet system\<close>

text \<open>
  A quiet system has an empty script: no other process acts during the run and no call fails
  for a reason of its own. The functional properties of the operations are stated there; the
  invariants below are stated for every script.
\<close>

definition quiet :: "'z os_scheme \<Rightarrow> bool" where
  "quiet s \<longleftrightarrow> script s = [] \<and> mallocs s = []"

lemma quiet_interact [run_simps]: "script s = [] \<Longrightarrow> interact s = (None, s)"
  by (simp add: interact_def)

lemma quiet_syscall [run_simps]: "script s = [] \<Longrightarrow> syscall bad body s = body s"
  by (simp add: syscall_def run_simps)

lemma quiet_malloc [run_simps]: "mallocs s = [] \<Longrightarrow> malloc s = Fin True s"
  by (simp add: malloc_def)

lemma fails_run [run_simps]: "fails e bad s = Fin bad (s\<lparr>err := e\<rparr>)"
  by (simp add: fails_def)

lemma semop_quiet:
  assumes "script s = []"
  shows "semop i b s = (case sem_attempt (pid_self s) i b (ker s) of
     Done k \<Rightarrow> Fin 0 (s\<lparr>ker := k\<rparr>) | Failed e \<Rightarrow> Fin (- 1) (s\<lparr>err := e\<rparr>)
   | Would_block \<Rightarrow> Stop Hangs s)"
  using assms by (simp add: semop_def run_simps split: attempt.split)

text \<open>An interaction that takes an entry of the script.\<close>

lemma interact_Cons: "script s = (mv, f) # evs \<Longrightarrow>
    interact s = (f, s\<lparr>ker := mv (ker s), script := evs\<rparr>)"
  by (simp add: interact_def)

lemma syscall_Cons: "script s = (mv, None) # evs \<Longrightarrow>
    syscall bad body s = body (s\<lparr>ker := mv (ker s), script := evs\<rparr>)"
  by (simp add: syscall_def interact_Cons)

definition idle :: "move \<times> errno option" where "idle = (\<lambda>k. k, None)"

text \<open>The value of one semaphore of a set, and what \<open>sem_add\<close> does to it.\<close>

definition has_sem :: "ipc \<Rightarrow> int \<Rightarrow> nat \<Rightarrow> bool" where
  "has_sem k i n \<longleftrightarrow> (case sems k i of None \<Rightarrow> False | Some ss \<Rightarrow> n < length (ss_vals ss))"

definition sem_value :: "ipc \<Rightarrow> int \<Rightarrow> nat \<Rightarrow> nat" where
  "sem_value k i n = (case sems k i of None \<Rightarrow> 0 | Some ss \<Rightarrow> ss_vals ss ! n)"

lemma has_semE:
  assumes "has_sem k i n"
  obtains ss where "sems k i = Some ss" "n < length (ss_vals ss)" "sem_value k i n = ss_vals ss ! n"
  using assms by (auto simp: has_sem_def sem_value_def split: option.splits)

lemma has_sem_add [simp]: "has_sem (sem_add p u i n d k) j m = has_sem k j m"
  by (simp add: has_sem_def sem_add_def split: option.split)

lemma sem_frame [simp]:
  "has_sem (k\<lparr>clock := c\<rparr>) i n = has_sem k i n" "sem_value (k\<lparr>clock := c\<rparr>) i n = sem_value k i n"
  "has_sem (k\<lparr>segs := f\<rparr>) i n = has_sem k i n" "sem_value (k\<lparr>segs := f\<rparr>) i n = sem_value k i n"
  by (simp_all add: has_sem_def sem_value_def)

lemma sem_value_add:
  "has_sem k i n \<Longrightarrow> 0 \<le> int (sem_value k i n) + d \<Longrightarrow>
     int (sem_value (sem_add p u i n d k) i n) = int (sem_value k i n) + d"
  by (auto simp: sem_value_def sem_add_def elim!: has_semE)

lemma sem_value_inc [simp]:
  "has_sem k i n \<Longrightarrow> sem_value (sem_add p u i n 1 k) i n = Suc (sem_value k i n)"
  using sem_value_add [of k i n 1 p u] by simp

lemma sem_value_dec [simp]:
  "has_sem k i n \<Longrightarrow> 0 < sem_value k i n \<Longrightarrow>
     sem_value (sem_add p u i n (- 1) k) i n = sem_value k i n - 1"
  using sem_value_add [of k i n "- 1" p u] by simp

lemma sem_value_add_other:
  "(j, m) \<noteq> (i, n) \<Longrightarrow> sem_value (sem_add p u i n d k) j m = sem_value k j m"
  by (auto simp: sem_value_def sem_add_def split: option.split)

lemma sem_add_frame [simp]:
  "segs (sem_add p u i n d k) = segs k" "shmkeys (sem_add p u i n d k) = shmkeys k"
  "semkeys (sem_add p u i n d k) = semkeys k" "semvmx (sem_add p u i n d k) = semvmx k"
  "clock (sem_add p u i n d k) = clock k" "next_sem (sem_add p u i n d k) = next_sem k"
  "next_shm (sem_add p u i n d k) = next_shm k"
  by (simp_all add: sem_add_def split: option.split)

lemma detach_upto_frame [simp]:
  "sems (detach_upto n att k) = sems k" "semkeys (detach_upto n att k) = semkeys k"
  "shmkeys (detach_upto n att k) = shmkeys k" "next_sem (detach_upto n att k) = next_sem k"
  "next_shm (detach_upto n att k) = next_shm k" "clock (detach_upto n att k) = clock k"
  "semvmx (detach_upto n att k) = semvmx k" "semmsl (detach_upto n att k) = semmsl k"
  "shmmin (detach_upto n att k) = shmmin k" "shmmax (detach_upto n att k) = shmmax k"
  by (induction n arbitrary: k) (simp_all add: detach_seg_def split: option.split)

text \<open>Detaching changes no segment but its count, unless the segment was removed before.\<close>

lemma detach_seg_keeps:
  assumes "segs k i = Some sg" and "\<not> sg_dest sg"
  shows "\<exists>m. segs (detach_seg j k) i = Some (sg\<lparr>sg_nattch := m\<rparr>)"
proof (cases "i = j")
  case True
  with assms show ?thesis by (auto simp: detach_seg_def)
next
  case False
  then have "segs (detach_seg j k) i = Some (sg\<lparr>sg_nattch := sg_nattch sg\<rparr>)"
    using assms by (simp add: detach_seg_def split: option.split)
  then show ?thesis ..
qed

lemma detach_upto_keeps:
  "segs k i = Some sg \<Longrightarrow> \<not> sg_dest sg \<Longrightarrow>
    \<exists>m. segs (detach_upto n att k) i = Some (sg\<lparr>sg_nattch := m\<rparr>)"
proof (induction n arbitrary: k sg)
  case 0
  then show ?case by (intro exI [of _ "sg_nattch sg"]) simp
next
  case (Suc n)
  show ?case
  proof (cases "att n")
    case None
    with Suc.IH [OF Suc.prems] show ?thesis by simp
  next
    case (Some j)
    obtain m where "segs (detach_seg j k) i = Some (sg\<lparr>sg_nattch := m\<rparr>)"
      using detach_seg_keeps [OF Suc.prems] by blast
    from Suc.IH [OF this] Suc.prems(2) Some show ?thesis by simp
  qed
qed

lemma has_sem_undo [simp]: "has_sem (undo_all p k) i n = has_sem k i n"
  by (simp add: has_sem_def undo_all_def undo_set_def split: option.split)

lemma sem_value_undo:
  assumes "has_sem k i n"
  shows "sem_value (undo_all p k) i n =
    min (semvmx k) (nat (int (sem_value k i n) + (case sems k i of None \<Rightarrow> 0 | Some ss \<Rightarrow> ss_adj ss p n)))"
  using assms by (auto simp: sem_value_def undo_all_def undo_set_def elim!: has_semE)

text \<open>Giving back what was taken restores the tables, the recorded adjustment included.\<close>

lemma sem_add_back:
  assumes "has_sem k i n" and "0 \<le> int (sem_value k i n) + d"
  shows "sem_add p u i n (- d) (sem_add p u i n d k) = k"
proof -
  from assms(1) obtain ss where ss: "sems k i = Some ss" "n < length (ss_vals ss)"
      "sem_value k i n = ss_vals ss ! n"
    by (rule has_semE)
  have "(sems k)(i \<mapsto> ss) = sems k"
    using ss(1) by (simp add: fun_upd_idem)
  then show ?thesis
    using ss assms(2) by (simp add: sem_add_def)
qed

lemma sem_attempt_value:
  assumes "has_sem k i (sem_num b)"
  shows "sem_attempt p i b k = (let v = int (sem_value k i (sem_num b)) + sem_op b in
     if v < 0 then (if sem_nowait b then Failed EAGAIN else Would_block)
     else if v > int (semvmx k) then Failed ERANGE
     else Done (sem_add p (sem_undo b) i (sem_num b) (sem_op b) k))"
  using assms by (auto simp: sem_attempt_def Let_def elim!: has_semE)

lemma sem_attempt_Done:
  assumes "sem_attempt p i b k = Done k'"
  shows "has_sem k i (sem_num b)" and "0 \<le> int (sem_value k i (sem_num b)) + sem_op b"
    and "int (sem_value k i (sem_num b)) + sem_op b \<le> int (semvmx k)"
    and "k' = sem_add p (sem_undo b) i (sem_num b) (sem_op b) k"
  using assms
  by (auto simp: sem_attempt_def has_sem_def sem_value_def Let_def split: option.splits if_splits)

section \<open>Bytes\<close>

lemma length_word_bytes [simp]: "length (word_bytes w) = 4"
  by (simp add: word_bytes_def)

lemma word_bytes_list:
  "word_bytes w = [ucast w, ucast (drop_bit 8 w), ucast (drop_bit 16 w), ucast (drop_bit 24 w)]"
  by (simp add: word_bytes_def upt_rec)

lemma bytes_word_list:
  "bytes_word [a, b, c, d] =
     ucast a OR push_bit 8 (ucast b OR push_bit 8 (ucast c OR push_bit 8 (ucast d)))"
  by (simp add: bytes_word_def)

lemma bytes_word_bytes [simp]: "bytes_word (word_bytes w) = w"
  unfolding word_bytes_list bytes_word_list
proof (rule bit_word_eqI)
  fix n assume "n < LENGTH(32)"
  then show "bit (ucast (ucast w :: u8) OR push_bit 8 (ucast (ucast (drop_bit 8 w) :: u8) OR
      push_bit 8 (ucast (ucast (drop_bit 16 w) :: u8) OR
      push_bit 8 (ucast (ucast (drop_bit 24 w) :: u8) :: u32)))) n = bit w n"
    by (auto simp only: bit_simps len_num1 len_bit0) auto
qed

lemma length_overwrite [simp]:
  "off + length bs \<le> length xs \<Longrightarrow> length (overwrite off bs xs) = length xs"
  by (simp add: overwrite_def)

lemma overwrite_same:
  "off + length bs \<le> length xs \<Longrightarrow> take (length bs) (drop off (overwrite off bs xs)) = bs"
  by (simp add: overwrite_def)

lemma overwrite_other:
  assumes "off + length bs \<le> length xs" and "p + n \<le> off \<or> off + length bs \<le> p"
  shows "take n (drop p (overwrite off bs xs)) = take n (drop p xs)"
proof (cases "p + n \<le> off")
  case True
  then have "take n (drop p (overwrite off bs xs)) = drop p (take (n + p) (take off xs))"
    using assms(1) by (simp add: overwrite_def take_drop)
  with True show ?thesis by (simp add: take_drop min_def add.commute)
next
  case False
  with assms(2) have "off + length bs \<le> p" by simp
  then show ?thesis
    using assms(1) by (simp add: overwrite_def)
qed

text \<open>The segment read as an array of \<open>unsigned int\<close>.\<close>

definition cells :: "u8 list \<Rightarrow> u32 list" where
  "cells bs = map (\<lambda>j. bytes_word (take 4 (drop (4 * j) bs))) [0..<length bs div 4]"

lemma length_cells [simp]: "length (cells bs) = length bs div 4"
  by (simp add: cells_def)

lemma nth_cells: "j < length bs div 4 \<Longrightarrow> cells bs ! j = bytes_word (take 4 (drop (4 * j) bs))"
  by (simp add: cells_def)

lemma cells_overwrite:
  assumes "j < length bs div 4"
  shows "cells (overwrite (4 * j) (word_bytes w) bs) = (cells bs)[j := w]"
proof (rule nth_equalityI)
  have fits: "4 * j + length (word_bytes w) \<le> length bs"
    using assms by simp
  then show "length (cells (overwrite (4 * j) (word_bytes w) bs)) = length ((cells bs)[j := w])"
    by simp
  fix i assume "i < length (cells (overwrite (4 * j) (word_bytes w) bs))"
  with fits have i: "i < length bs div 4" by simp
  show "cells (overwrite (4 * j) (word_bytes w) bs) ! i = (cells bs)[j := w] ! i"
  proof (cases "i = j")
    case True
    then show ?thesis
      using overwrite_same [OF fits] i fits by (simp add: nth_cells)
  next
    case False
    then have "4 * i + 4 \<le> 4 * j \<or> 4 * j + length (word_bytes w) \<le> 4 * i" by auto
    then show ?thesis
      using overwrite_other [OF fits] i fits False by (simp add: nth_cells)
  qed
qed

section \<open>Well-formed shared state\<close>

text \<open>
  What the kernel keeps true of its tables: ids are allocated in order, a key names a live set
  (segment) that carries it, a set is not empty and no value exceeds \<open>SEMVMX\<close>.
\<close>

definition wf_set :: "nat \<Rightarrow> semset \<Rightarrow> bool" where
  "wf_set vmx ss \<longleftrightarrow> ss_vals ss \<noteq> [] \<and> list_all (\<lambda>v. v \<le> vmx) (ss_vals ss)"

lemma undo_none: "wf_set vmx ss \<Longrightarrow> ss_adj ss = (\<lambda>_ _. 0) \<Longrightarrow> undo_set vmx p ss = ss"
  by (cases ss) (auto simp: undo_set_def wf_set_def list_all_iff intro!: nth_equalityI)

text \<open>The end of a process leaves a set alone that has no adjustments.\<close>

lemma exit_process_set:
  assumes "sems (ker s) i = Some ss" and "wf_set (semvmx (ker s)) ss" and "ss_adj ss = (\<lambda>_ _. 0)"
  shows "sems (ker (exit_process s)) i = Some ss"
  using assms by (simp add: exit_process_def undo_all_def undo_none)

definition wf_table :: "('a \<Rightarrow> bool) \<Rightarrow> ('a \<Rightarrow> u32 \<Rightarrow> bool) \<Rightarrow> nat \<Rightarrow>
    (int \<Rightarrow> 'a option) \<Rightarrow> (u32 \<Rightarrow> int option) \<Rightarrow> bool" where
  "wf_table ok nm n tab keys \<longleftrightarrow>
     (\<forall>i x. tab i = Some x \<longrightarrow> 0 \<le> i \<and> i < int n \<and> ok x) \<and>
     (\<forall>q i. keys q = Some i \<longrightarrow> (\<exists>x. tab i = Some x \<and> nm x q))"

definition wf_ipc :: "ipc \<Rightarrow> bool" where
  "wf_ipc k \<longleftrightarrow>
     wf_table (wf_set (semvmx k)) (\<lambda>ss q. ss_key ss = q) (next_sem k) (sems k) (semkeys k) \<and>
     wf_table (\<lambda>_. True) (\<lambda>sg q. sg_key sg = q \<and> \<not> sg_dest sg) (next_shm k) (segs k) (shmkeys k)"

lemma wf_table_tab: "wf_table ok nm n tab keys \<Longrightarrow> tab i = Some x \<Longrightarrow> 0 \<le> i \<and> i < int n \<and> ok x"
  unfolding wf_table_def by blast

lemma wf_table_key:
  assumes "wf_table ok nm n tab keys" and "keys q = Some i"
  obtains x where "tab i = Some x" "nm x q"
  using assms unfolding wf_table_def by blast

lemma wf_table_fresh: "wf_table ok nm n tab keys \<Longrightarrow> tab (int n) = None"
  by (cases "tab (int n)") (auto dest: wf_table_tab)

lemma wf_table_update:
  assumes "wf_table ok nm n tab keys" and "tab i = Some x" and "ok x'" and "\<And>q. nm x q \<Longrightarrow> nm x' q"
  shows "wf_table ok nm n (tab(i \<mapsto> x')) keys"
  unfolding wf_table_def
proof (intro conjI allI impI)
  fix j y assume "(tab(i \<mapsto> x')) j = Some y"
  then show "0 \<le> j" and "j < int n" and "ok y"
    using wf_table_tab [OF assms(1)] assms(2,3) by (auto split: if_splits)
next
  fix q j assume "keys q = Some j"
  with assms(1) obtain y where "tab j = Some y" "nm y q" by (rule wf_table_key)
  then show "\<exists>y. (tab(i \<mapsto> x')) j = Some y \<and> nm y q"
    using assms(2,4) by (cases "j = i") auto
qed

lemma wf_table_add:
  assumes "wf_table ok nm n tab keys" and "ok x" and "nm x q"
  shows "wf_table ok nm (Suc n) (tab(int n \<mapsto> x)) (if b then keys else keys(q \<mapsto> int n))"
  unfolding wf_table_def
proof (intro conjI allI impI)
  fix j y assume "(tab(int n \<mapsto> x)) j = Some y"
  then consider "j = int n" "y = x" | "tab j = Some y" by (cases "j = int n") auto
  then have "0 \<le> j \<and> j < int (Suc n) \<and> ok y"
  proof cases
    case 1
    with assms(2) show ?thesis by simp
  next
    case 2
    with wf_table_tab [OF assms(1)] have "0 \<le> j \<and> j < int n \<and> ok y" .
    then show ?thesis by simp
  qed
  then show "0 \<le> j" and "j < int (Suc n)" and "ok y" by simp_all
next
  fix r j assume key: "(if b then keys else keys(q \<mapsto> int n)) r = Some j"
  show "\<exists>y. (tab(int n \<mapsto> x)) j = Some y \<and> nm y r"
  proof (cases "r = q \<and> \<not> b")
    case True
    with key assms(3) show ?thesis by simp
  next
    case False
    with key have "keys r = Some j" by (cases b) simp_all
    with assms(1) obtain y where y: "tab j = Some y" "nm y r" by (rule wf_table_key)
    with wf_table_fresh [OF assms(1)] have "j \<noteq> int n" by (cases "j = int n") simp_all
    with y show ?thesis by simp
  qed
qed

lemma wf_table_unkey:
  assumes "wf_table ok nm n tab keys" and "\<And>y. left = Some y \<Longrightarrow> ok y" and "left \<noteq> None \<Longrightarrow> tab i \<noteq> None"
  shows "wf_table ok nm n (tab(i := left)) (\<lambda>q. if keys q = Some i then None else keys q)"
  unfolding wf_table_def
proof (intro conjI allI impI)
  fix j y assume y: "(tab(i := left)) j = Some y"
  then obtain z where "tab j = Some z"
    using assms(3) by (cases "j = i") auto
  with wf_table_tab [OF assms(1)] show "0 \<le> j" and "j < int n" by auto
  show "ok y"
    using y wf_table_tab [OF assms(1)] assms(2) by (cases "j = i") auto
next
  fix q j assume "(if keys q = Some i then None else keys q) = Some j"
  then have "keys q = Some j" and "j \<noteq> i" by (auto split: if_splits)
  then show "\<exists>y. (tab(i := left)) j = Some y \<and> nm y q"
    using assms(1) by (auto elim: wf_table_key)
qed

text \<open>
  A state is well-formed when its tables are and when no move of another process in its
  script can break them.
\<close>

definition wf_os :: "'z os_scheme \<Rightarrow> bool" where
  "wf_os s \<longleftrightarrow> wf_ipc (ker s) \<and> (\<forall>ev \<in> set (script s). \<forall>k. wf_ipc k \<longrightarrow> wf_ipc (fst ev k))"

lemma wf_os_ker: "wf_os s \<Longrightarrow> wf_ipc (ker s)"
  by (simp add: wf_os_def)

lemma wf_os_step: "wf_os s \<Longrightarrow> wf_ipc k \<Longrightarrow> wf_os (s\<lparr>ker := k\<rparr>)"
  by (simp add: wf_os_def)

lemma wf_os_upd [simp]:
  "wf_os (s\<lparr>err := e\<rparr>) = wf_os s" "wf_os (s\<lparr>mallocs := b\<rparr>) = wf_os s"
  "wf_os (s\<lparr>attached := m\<rparr>) = wf_os s" "wf_os (s\<lparr>next_addr := n\<rparr>) = wf_os s"
  "wf_os (s\<lparr>out := p\<rparr>) = wf_os s"
  by (simp_all add: wf_os_def)

lemma wf_os_interact: "wf_os s \<Longrightarrow> wf_os (snd (interact s))"
  by (auto simp: wf_os_def interact_def split: list.split)

lemma keeps_syscall [keeps]:
  assumes "keeps body wf_os"
  shows "keeps (syscall bad body) wf_os"
proof (rule keepsI)
  fix s :: "'a os_scheme" assume "wf_os s"
  then have "wf_os (snd (interact s))" by (rule wf_os_interact)
  then show "every (syscall bad body s) wf_os"
    using assms by (auto simp: syscall_def fails_def split: prod.split option.split dest: keepsD)
qed

text \<open>The changes the calls make to the tables keep them well-formed.\<close>

lemma wf_ipc_set: "wf_ipc k \<Longrightarrow> sems k i = Some ss \<Longrightarrow> 0 \<le> i \<and> i < int (next_sem k) \<and> wf_set (semvmx k) ss"
  unfolding wf_ipc_def by (blast dest: wf_table_tab)

lemma wf_ipc_sem_update:
  assumes "wf_ipc k" and "sems k i = Some ss" and "wf_set (semvmx k) ss'" and "ss_key ss' = ss_key ss"
  shows "wf_ipc (k\<lparr>sems := (sems k)(i \<mapsto> ss')\<rparr>)"
  using assms by (simp add: wf_ipc_def) (rule wf_table_update, auto)

lemma wf_ipc_seg_update:
  assumes "wf_ipc k" and "segs k i = Some sg" and "sg_key sg' = sg_key sg" and "sg_dest sg' = sg_dest sg"
  shows "wf_ipc (k\<lparr>segs := (segs k)(i \<mapsto> sg')\<rparr>)"
  using assms by (simp add: wf_ipc_def) (rule wf_table_update, auto)

lemma wf_ipc_new_set:
  assumes "wf_ipc k" and "wf_set (semvmx k) ss"
  shows "wf_ipc (new_set ss k)"
  using assms
    wf_table_add [of "wf_set (semvmx k)" "\<lambda>ss q. ss_key ss = q" "next_sem k" "sems k" "semkeys k" ss
      "ss_key ss" "ss_key ss = IPC_PRIVATE"]
  by (simp add: wf_ipc_def new_set_def Let_def)

lemma wf_ipc_new_seg:
  assumes "wf_ipc k" and "\<not> sg_dest sg"
  shows "wf_ipc (new_seg sg k)"
  using assms
    wf_table_add [of "\<lambda>_. True" "\<lambda>sg q. sg_key sg = q \<and> \<not> sg_dest sg" "next_shm k" "segs k" "shmkeys k" sg
      "sg_key sg" "sg_key sg = IPC_PRIVATE"]
  by (simp add: wf_ipc_def new_seg_def Let_def)

lemma wf_ipc_rm_set: "wf_ipc k \<Longrightarrow> wf_ipc (rm_set i k)"
  using wf_table_unkey [of "wf_set (semvmx k)" "\<lambda>ss q. ss_key ss = q" "next_sem k" "sems k" "semkeys k" None i]
  by (simp add: wf_ipc_def rm_set_def)

lemma wf_ipc_rm_seg:
  assumes "wf_ipc k" and "left \<noteq> None \<Longrightarrow> segs k i \<noteq> None"
  shows "wf_ipc (rm_seg i left k)"
  using assms
    wf_table_unkey [of "\<lambda>_. True" "\<lambda>sg q. sg_key sg = q \<and> \<not> sg_dest sg" "next_shm k" "segs k" "shmkeys k" left i]
  by (simp add: wf_ipc_def rm_seg_def)

lemma wf_ipc_clock: "wf_ipc k \<Longrightarrow> wf_ipc (k\<lparr>clock := c\<rparr>)"
  by (simp add: wf_ipc_def)

lemma wf_ipc_sem_add:
  assumes wf: "wf_ipc k" and sem: "has_sem k i n" and le: "int (sem_value k i n) + d \<le> int (semvmx k)"
  shows "wf_ipc (sem_add p u i n d k)"
proof -
  from sem obtain ss where ss: "sems k i = Some ss" "n < length (ss_vals ss)"
      "sem_value k i n = ss_vals ss ! n"
    by (rule has_semE)
  with wf_ipc_set [OF wf] have "wf_set (semvmx k) ss" by blast
  then have "wf_set (semvmx k) (ss\<lparr>ss_vals := (ss_vals ss)[n := nat (int (ss_vals ss ! n) + d)],
      ss_adj := a\<rparr>)" for a
    using ss le by (auto simp: wf_set_def intro: list_all_update)
  from wf_ipc_sem_update [OF wf ss(1) this] show ?thesis
    using ss(1) by (simp add: sem_add_def)
qed

lemma sem_attempt_wf: "wf_ipc k \<Longrightarrow> sem_attempt p i b k = Done k' \<Longrightarrow> wf_ipc k'"
  using sem_attempt_Done [of p i b k k'] wf_ipc_sem_add by blast

lemma keeps_malloc [keeps]: "keeps malloc wf_os"
  by (rule keepsI) (simp add: malloc_def split: list.split)

lemma keeps_printf [keeps]: "keeps (printf f a) wf_os"
  unfolding printf_def by (rule keeps_modify) simp

lemma keeps_fails [keeps]: "keeps (fails e bad) wf_os"
  by (rule keepsI) (simp add: fails_def)

lemma keeps_time [keeps]: "keeps time_now wf_os"
  by (rule keepsI) (simp add: time_now_def)

lemma keeps_sleep [keeps]: "keeps (sleep n) wf_os"
proof (rule keepsI)
  fix s :: "'a os_scheme" assume "wf_os s"
  then have "wf_os (snd (interact s))" by (rule wf_os_interact)
  then show "every (sleep n s) wf_os"
    by (auto simp: sleep_def wf_os_def wf_ipc_clock split: prod.split)
qed


text \<open>Each call keeps the state well-formed, whatever the script holds.\<close>

lemma wf_set_new [simp]:
  "0 < n \<Longrightarrow> wf_set vmx \<lparr>ss_key = q, ss_vals = replicate n 0, ss_ctime = t, ss_adj = a\<rparr>"
  by (simp add: wf_set_def list_all_iff)

lemma keeps_semget [keeps]: "keeps (semget q n c) wf_os"
  unfolding semget_def
  by (intro keeps keepsI)
    (simp add: fails_def wf_os_step wf_ipc_new_set wf_os_ker split: option.split)

lemma keeps_semctl_rmid [keeps]: "keeps (semctl_rmid i) wf_os"
  unfolding semctl_rmid_def
  by (intro keeps keepsI)
    (simp add: fails_def wf_os_step wf_ipc_rm_set wf_os_ker split: option.split)

lemma keeps_semctl_setall [keeps]: "keeps (semctl_setall i vs) wf_os"
  unfolding semctl_setall_def
proof (intro keeps keepsI)
  fix s :: "'a os_scheme" assume wf: "wf_os s"
  show "every (case sems (ker s) i of None \<Rightarrow> fails EINVAL (- 1) s
     | Some ss \<Rightarrow> let us = take (length (ss_vals ss)) vs in
         if length vs < length (ss_vals ss) then Stop Undefined s
         else if \<exists>v\<in>set us. semvmx (ker s) < unat v then fails ERANGE (- 1) s
         else Fin 0 (s\<lparr>ker := (ker s)\<lparr>sems := (sems (ker s))(i \<mapsto>
                ss\<lparr>ss_vals := map unat us, ss_ctime := clock (ker s), ss_adj := \<lambda>_ _. 0\<rparr>)\<rparr>\<rparr>)) wf_os"
  proof (cases "sems (ker s) i")
    case None
    with wf show ?thesis by (simp add: fails_def)
  next
    case (Some ss)
    let ?us = "take (length (ss_vals ss)) vs"
    let ?ss' = "ss\<lparr>ss_vals := map unat ?us, ss_ctime := clock (ker s), ss_adj := \<lambda>_ _. 0\<rparr>"
    have "wf_set (semvmx (ker s)) ?ss'"
      if "\<not> length vs < length (ss_vals ss)" "\<not> (\<exists>v\<in>set ?us. semvmx (ker s) < unat v)"
      using that wf_ipc_set [OF wf_os_ker [OF wf] Some]
      by (auto simp: wf_set_def list_all_iff not_less)
    then show ?thesis
      using Some wf wf_os_step [OF wf wf_ipc_sem_update [OF wf_os_ker [OF wf] Some]]
      by (auto simp: Let_def fails_def)
  qed
qed

lemma keeps_semctl_getval [keeps]: "keeps (semctl_getval i n) wf_os"
  unfolding semctl_getval_def by (intro keeps keepsI) (simp add: fails_def split: option.split)

lemma keeps_semctl_stat [keeps]: "keeps (semctl_stat i) wf_os"
  unfolding semctl_stat_def by (intro keeps keepsI) (simp add: fails_def split: option.split)

lemma semop_wait_wf: "wf_os s \<Longrightarrow> set evs \<subseteq> set (script s) \<Longrightarrow> every (semop_wait i b evs s) wf_os"
proof (induction evs arbitrary: s)
  case Nil
  then show ?case by simp
next
  case (Cons ev evs)
  let ?t = "s\<lparr>ker := fst ev (ker s), script := evs\<rparr>"
  have t: "wf_os ?t" using Cons.prems by (auto simp: wf_os_def)
  then have "every (semop_wait i b evs ?t) wf_os" by (rule Cons.IH) simp
  moreover have "wf_os (s\<lparr>script := evs, ker := k\<rparr>)"
    if "sem_attempt (pid_self s) i b (fst ev (ker s)) = Done k" for k
    using t that by (auto simp: wf_os_def dest: sem_attempt_wf)
  ultimately show ?case
    using t by (auto simp: Let_def fails_def split: option.split attempt.split)
qed

lemma keeps_semop [keeps]: "keeps (semop i b) wf_os"
  unfolding semop_def
  by (intro keeps keepsI)
    (auto simp: fails_def split: attempt.split intro: semop_wait_wf wf_os_step sem_attempt_wf wf_os_ker)

lemma keeps_shmget [keeps]: "keeps (shmget q n c) wf_os"
  unfolding shmget_def
  by (intro keeps keepsI)
    (simp add: fails_def wf_os_step wf_ipc_new_seg wf_os_ker split: option.split)

lemma keeps_shmat [keeps]: "keeps (shmat i) wf_os"
  unfolding shmat_def
  by (intro keeps keepsI)
    (auto simp: fails_def wf_os_def split: option.split intro: wf_ipc_seg_update)

lemma wf_ipc_detach: "wf_ipc k \<Longrightarrow> wf_ipc (detach_seg i k)"
proof (cases "segs k i")
  case None
  then show "wf_ipc k \<Longrightarrow> ?thesis" by (simp add: detach_seg_def)
next
  case (Some sg)
  assume wf: "wf_ipc k"
  show ?thesis
  proof (cases "sg_dest sg \<and> sg_nattch sg \<le> 1")
    case True
    have "shmkeys k q \<noteq> Some i" for q
      using wf Some True by (auto simp: wf_ipc_def elim!: wf_table_key)
    then have "(\<lambda>q. if shmkeys k q = Some i then None else shmkeys k q) = shmkeys k" by auto
    with wf wf_table_unkey [of "\<lambda>_. True" _ "next_shm k" "segs k" "shmkeys k" None i]
    show ?thesis using Some True by (simp add: wf_ipc_def detach_seg_def)
  next
    case False
    then show ?thesis using wf Some
      by (auto simp: detach_seg_def intro: wf_ipc_seg_update)
  qed
qed

lemma keeps_shmdt [keeps]: "keeps (shmdt a) wf_os"
  unfolding shmdt_def
  by (intro keeps keepsI)
    (auto simp: fails_def wf_os_def wf_ipc_detach split: option.split address.split)

lemma keeps_shmctl_rmid [keeps]: "keeps (shmctl_rmid i) wf_os"
  unfolding shmctl_rmid_def
  by (intro keeps keepsI)
    (simp add: fails_def wf_os_step wf_ipc_rm_seg wf_os_ker split: option.split)

lemma keeps_mem_lock_call [keeps]: "keeps mem_lock_call wf_os"
  unfolding mem_lock_call_def by (intro keeps keepsI) simp

lemma keeps_mem_read [keeps]: "keeps (mem_read a off n) wf_os"
proof (rule keepsI)
  fix s :: "'a os_scheme" assume "wf_os s"
  then have "wf_os (snd (interact s))" by (rule wf_os_interact)
  then show "every (mem_read a off n s) wf_os"
    by (auto simp: mem_read_def split: prod.split option.split)
qed

lemma keeps_mem_write [keeps]: "keeps (mem_write a off bs) wf_os"
proof (rule keepsI)
  fix s :: "'a os_scheme" assume "wf_os s"
  then have "wf_os (snd (interact s))" by (rule wf_os_interact)
  then show "every (mem_write a off bs s) wf_os"
    by (auto simp: mem_write_def wf_os_def seg_at_def intro: wf_ipc_seg_update
        split: prod.split option.splits address.splits)
qed

lemma keeps_load_u32 [keeps]: "keeps (load_u32 a j) wf_os"
  unfolding load_u32_def by (intro keeps)

lemma keeps_store_u32 [keeps]: "keeps (store_u32 a j w) wf_os"
  unfolding store_u32_def by (intro keeps)

lemma wf_set_undo: "wf_set vmx ss \<Longrightarrow> wf_set vmx (undo_set vmx p ss)"
  by (auto simp: wf_set_def undo_set_def list_all_iff)

lemma wf_ipc_undo_all:
  assumes "wf_ipc k"
  shows "wf_ipc (undo_all p k)"
proof -
  have key: "ss_key (undo_set v p ss) = ss_key ss" for v ss by (simp add: undo_set_def)
  have "wf_table (wf_set (semvmx k)) (\<lambda>ss q. ss_key ss = q) (next_sem k)
      (\<lambda>i. map_option (undo_set (semvmx k) p) (sems k i)) (semkeys k)"
    using assms unfolding wf_ipc_def wf_table_def by (fastforce simp: key wf_set_undo)
  with assms show ?thesis by (simp add: wf_ipc_def undo_all_def)
qed


lemma wf_ipc_detach_upto: "wf_ipc k \<Longrightarrow> wf_ipc (detach_upto n att k)"
proof (induction n arbitrary: k)
  case (Suc n)
  then show ?case by (auto split: option.split intro: Suc.IH wf_ipc_detach)
qed simp

lemma wf_os_exit: "wf_os s \<Longrightarrow> wf_os (exit_process s)"
  by (simp add: wf_os_def exit_process_def wf_ipc_undo_all wf_ipc_detach_upto)

section \<open>What only other processes do\<close>

text \<open>
  \<open>only_env s t\<close>: between \<open>s\<close> and \<open>t\<close> the shared state was changed by nothing
  but moves of the script and the passing of time; every property that those keep is kept.
\<close>

definition env_closed :: "(ipc \<Rightarrow> bool) \<Rightarrow> (move \<times> errno option) list \<Rightarrow> bool" where
  "env_closed P evs \<longleftrightarrow> (\<forall>ev \<in> set evs. \<forall>k. P k \<longrightarrow> P (fst ev k)) \<and> (\<forall>k c. P k \<longrightarrow> P (k\<lparr>clock := c\<rparr>))"

definition only_env :: "'z os_scheme \<Rightarrow> 'z os_scheme \<Rightarrow> bool" where
  "only_env s t \<longleftrightarrow> set (script t) \<subseteq> set (script s) \<and> pid_self t = pid_self s \<and>
     (\<forall>P. env_closed P (script s) \<longrightarrow> P (ker s) \<longrightarrow> P (ker t))"

lemma only_env_refl [simp]: "only_env s s"
  by (simp add: only_env_def)

lemma only_env_err [simp]: "only_env s (t\<lparr>err := e\<rparr>) = only_env s t"
  by (simp add: only_env_def)

lemma env_closed_mono: "env_closed P evs \<Longrightarrow> set evs' \<subseteq> set evs \<Longrightarrow> env_closed P evs'"
  unfolding env_closed_def by (intro conjI ballI) (auto dest: subsetD)

lemma only_envD: "only_env s t \<Longrightarrow> env_closed P (script s) \<Longrightarrow> P (ker s) \<Longrightarrow> P (ker t)"
  unfolding only_env_def by (elim conjE) (drule spec [where x = P], drule mp, assumption, drule mp)

lemma only_env_frame: "only_env s t \<Longrightarrow> set (script t) \<subseteq> set (script s) \<and> pid_self t = pid_self s"
  by (simp add: only_env_def)

lemma only_env_trans:
  assumes "only_env s t" and "only_env t u"
  shows "only_env s u"
  unfolding only_env_def
proof (intro conjI allI impI)
  note f = only_env_frame [OF assms(1)] only_env_frame [OF assms(2)]
  from f show "set (script u) \<subseteq> set (script s)" by (blast intro: subset_trans)
  from f show "pid_self u = pid_self s" by simp
  fix P assume P: "env_closed P (script s)" "P (ker s)"
  have "env_closed P (script t)"
    by (rule env_closed_mono [OF P(1)]) (use f in simp)
  moreover have "P (ker t)" by (rule only_envD [OF assms(1) P])
  ultimately show "P (ker u)" by (rule only_envD [OF assms(2)])
qed

lemma only_env_interact: "only_env s (snd (interact s))"
  by (auto simp: only_env_def env_closed_def interact_def split: list.split)

lemma only_env_sleep: "sleep m s = Fin r t \<Longrightarrow> only_env s t"
proof -
  assume "sleep m s = Fin r t"
  then have "t = (snd (interact s))\<lparr>ker := (ker (snd (interact s)))
      \<lparr>clock := clock (ker (snd (interact s))) + int m\<rparr>\<rparr>"
    by (simp add: sleep_def split: prod.splits)
  then have "only_env (snd (interact s)) t"
    by (simp add: only_env_def env_closed_def)
  with only_env_interact show ?thesis by (rule only_env_trans)
qed

text \<open>
  How \<open>semop\<close> can end: after some moves of other processes the operation succeeds on the
  state they left, or it reports an error and has changed nothing.
\<close>

lemma semop_wait_outcome:
  assumes "semop_wait i b evs s = Fin r t" and "set evs \<subseteq> set (script s)"
  shows "(r = 0 \<and> (\<exists>u k. only_env s u \<and> sem_attempt (pid_self s) i b (ker u) = Done k \<and> t = u\<lparr>ker := k\<rparr>)) \<or>
    (r = - 1 \<and> only_env s t)"
  using assms
proof (induction evs arbitrary: s)
  case Nil
  then show ?case by simp
next
  case (Cons ev evs)
  let ?u = "s\<lparr>ker := fst ev (ker s), script := evs\<rparr>"
  have u: "only_env s ?u"
    using Cons.prems(2) by (auto simp: only_env_def env_closed_def)
  show ?case
  proof (cases "snd ev = None \<and> sems (ker ?u) i \<noteq> None \<and>
      sem_attempt (pid_self ?u) i b (ker ?u) = Would_block")
    case True
    then have "semop_wait i b evs ?u = Fin r t"
      using Cons.prems(1) by (auto simp: Let_def)
    from Cons.IH [OF this] u show ?thesis
      by (auto intro: only_env_trans)
  next
    case False
    then show ?thesis
      using Cons.prems(1) u
      by (fastforce simp: Let_def fails_def split: option.splits if_splits attempt.splits)
  qed
qed

lemma semop_outcome:
  assumes "semop i b s = Fin r t"
  shows "(r = 0 \<and> (\<exists>u k. only_env s u \<and> sem_attempt (pid_self s) i b (ker u) = Done k \<and> t = u\<lparr>ker := k\<rparr>)) \<or>
    (r = - 1 \<and> only_env s t)"
proof -
  obtain f u where iu: "interact s = (f, u)" by (cases "interact s")
  with only_env_interact [of s] have u: "only_env s u" by simp
  then have p: "pid_self u = pid_self s" by (simp add: only_env_def)
  show ?thesis
  proof (cases f)
    case (Some e)
    with assms iu have "r = - 1" and "t = u\<lparr>err := e\<rparr>"
      by (simp_all add: semop_def syscall_def fails_def)
    with u show ?thesis by simp
  next
    case None
    show ?thesis
    proof (cases "sem_attempt (pid_self u) i b (ker u)")
      case (Done k)
      with None assms iu u p show ?thesis
        by (simp add: semop_def syscall_def) metis
    next
      case (Failed e)
      with None assms iu have "r = - 1" and "t = u\<lparr>err := e\<rparr>"
        by (simp_all add: semop_def syscall_def fails_def)
      with u show ?thesis by simp
    next
      case Would_block
      with None assms iu have "semop_wait i b (script u) u = Fin r t"
        by (simp add: semop_def syscall_def)
      from semop_wait_outcome [OF this] u p show ?thesis
        by (metis only_env_trans subset_refl)
    qed
  qed
qed

text \<open>A call that may not wait always returns.\<close>

lemma semop_nowait_returns: "sem_nowait b \<Longrightarrow> \<exists>r t. semop i b s = Fin r t"
  by (auto simp: semop_def syscall_def fails_def sem_attempt_def Let_def
      split: prod.split option.split)

section \<open>A system after start-up\<close>

text \<open>
  An empty kernel with Linux's limits, and a process in it. Keys are formed from the device
  and the project id, one of the ways \<open>ftok\<close> can keep its promise.
\<close>

definition boot_ipc :: ipc where
  "boot_ipc = \<lparr>sems = (\<lambda>_. None), semkeys = (\<lambda>_. None), next_sem = 0,
     segs = (\<lambda>_. None), shmkeys = (\<lambda>_. None), next_shm = 0, clock = 1000,
     semvmx = 32767, semmsl = 250, shmmin = 1, shmmax = 33554432\<rparr>"

definition boot_os :: os where
  "boot_os = \<lparr>ker = boot_ipc, script = [], err = EOK, pid_self = 100, attached = (\<lambda>_. None),
     next_addr = 0, ftok_of = (\<lambda>d p. (case d of Dev_zero \<Rightarrow> 256 | Dev_null \<Rightarrow> 512) + ucast p),
     junk = 0, mallocs = [], out = []\<rparr>"

lemma wf_boot: "wf_os boot_os"
  by (simp add: wf_os_def boot_os_def boot_ipc_def wf_ipc_def wf_table_def)

text \<open>The kernel after boot with one semaphore set of the given value, created under key 513.\<close>

definition one_sem :: "nat \<Rightarrow> ipc" where
  "one_sem v = new_set \<lparr>ss_key = 513, ss_vals = [v], ss_ctime = 1000, ss_adj = (\<lambda>_ _. 0)\<rparr> boot_ipc"

lemma one_sem_simps [simp]:
  "sems (one_sem v) 0 = Some \<lparr>ss_key = 513, ss_vals = [v], ss_ctime = 1000, ss_adj = (\<lambda>_ _. 0)\<rparr>"
  "semvmx (one_sem v) = 32767" "clock (one_sem v) = 1000"
  by (simp_all add: one_sem_def new_set_def boot_ipc_def Let_def)

lemma one_sem_value [simp]: "sem_value (one_sem v) 0 0 = v" "has_sem (one_sem v) 0 0"
  by (simp_all add: sem_value_def has_sem_def)

end
