(* ===== verification/Critical_Section.thy ===== *)
theory Critical_Section
  imports Prelude
begin

text \<open>
  The interface between the shared memory class and the semaphore class: a region of code
  entered and left through a lock. The provider promises what entering and leaving do to the
  state when the lock is free; the client gets the effect of its guarded bodies.
\<close>

locale critical_section =
  fixes enter :: "'h \<Rightarrow> 's \<Rightarrow> ('s, int) run"
    and leave :: "'h \<Rightarrow> 's \<Rightarrow> ('s, int) run"
    and free :: "'h \<Rightarrow> 's \<Rightarrow> bool"
    and held :: "'h \<Rightarrow> 's \<Rightarrow> 's"
    and frame :: "('s \<Rightarrow> 's) \<Rightarrow> bool"
  assumes enter_free: "free h s \<Longrightarrow> enter h s = Fin 0 (held h s)"
    and leave_held: "free h s \<Longrightarrow> frame g \<Longrightarrow> leave h (g (held h s)) = Fin 0 (g s)"
    and free_frame: "free h s \<Longrightarrow> frame g \<Longrightarrow> free h (g s)"
    and frame_id: "frame (\<lambda>s. s)"
begin

text \<open>A body that only makes a change of the frame has just that effect, lock included.\<close>

lemma guarded:
  assumes "free h s" and "frame g" and "body (held h s) = Fin a (g (held h s))"
  shows "bindr (enter h) (\<lambda>e. bindr (assertr (e = 0)) (\<lambda>_. bindr body (\<lambda>b.
     bindr (leave h) (\<lambda>e. bindr (assertr (e = 0)) (\<lambda>_. retr b))))) s = Fin a (g s)"
  using assms by (simp add: run_simps enter_free leave_held)

text \<open>Entering and leaving at once changes nothing: what follows runs in the first state.\<close>

lemma passed:
  assumes "free h s"
  shows "bindr (enter h) (\<lambda>e. bindr (assertr (e = 0)) (\<lambda>_.
     bindr (leave h) (\<lambda>e. bindr (assertr (e = 0)) (\<lambda>_. body)))) s = body s"
  using leave_held [OF assms frame_id] by (simp add: run_simps enter_free [OF assms])

text \<open>A failed entry stops the process at the assertion.\<close>

lemma refused:
  assumes "enter h s = Fin r t" and "r \<noteq> 0"
  shows "bindr (enter h) (\<lambda>e. bindr (assertr (e = 0)) body) s = Stop Assert_failed t"
  using assms by (simp add: run_simps)

end

end
