(* ===== verification/Semaphore.thy ===== *)
theory Semaphore
  imports Xsi_Kernel Critical_Section
begin

text \<open>
  The class of \<open>src/src/Semaphore.h\<close> and \<open>src/src/Semaphore.c\<close>: an object on the heap that
  names a set of counting semaphores in the kernel. A method takes the object as a value and
  returns it when it changes it; \<open>Semaphore$new\<close> is \<open>Semaphore_new\<close>, and so on.
  Diagnostics (\<open>perror\<close>) are not modelled.
\<close>

section \<open>The object\<close>

record Semaphore =
  sem_key :: u32
  sem_id :: int
  sem_count :: u16
  sem_size :: u16

definition LOCK_NONBLOCK :: int where "LOCK_NONBLOCK = - 1"
definition LOCK_BLOCKING :: int where "LOCK_BLOCKING = 0"

text \<open>\<open>ftok\<close> reads the low eight bits of its second argument.\<close>

definition SEMKEY :: "u32 \<Rightarrow> 'z os_scheme \<Rightarrow> u32" where
  "SEMKEY key s = ftok_of s Dev_null (ucast key)"

section \<open>Construction and destruction\<close>

definition Semaphore_init :: "Semaphore \<Rightarrow> u16 \<Rightarrow> 'z os_scheme \<Rightarrow> ('z os_scheme, int) run" where
  "Semaphore_init this sz =
     bindr (semctl_setall (sem_id this) (map (\<lambda>_. sz) [0..<unat (sem_count this)])) (\<lambda>r.
     retr (if r \<noteq> 0 then EXIT_FAILURE else EXIT_SUCCESS))"

text \<open>The destructor frees the object in every case; the caller's variable becomes NULL.\<close>

definition Semaphore_delete :: "Semaphore \<Rightarrow> bool \<Rightarrow> 'z os_scheme \<Rightarrow> ('z os_scheme, unit) run" where
  "Semaphore_delete this remove_sem_too =
     (if remove_sem_too then bindr (semctl_rmid (sem_id this)) (\<lambda>_. retr ()) else retr ())"

definition Semaphore_new :: "u32 \<Rightarrow> u16 \<Rightarrow> u16 \<Rightarrow> bool \<Rightarrow>
    'z os_scheme \<Rightarrow> ('z os_scheme, Semaphore option) run" where
  "Semaphore_new key cnt sz attach =
     bindr malloc (\<lambda>ok.
     if \<not> ok then retr None else
     bindr (gets (SEMKEY key)) (\<lambda>k.
     bindr (assertr (k \<noteq> - 1)) (\<lambda>_.
     bindr (semget k (unat cnt) True) (\<lambda>i.
     bindr (if i \<noteq> - 1 then
              bindr (Semaphore_init \<lparr>sem_key = key, sem_id = i, sem_count = cnt, sem_size = sz\<rparr> sz)
                (\<lambda>success. retr (success, i))
            else if attach then
              bindr (gets err) (\<lambda>e.
              if e = EEXIST then
                bindr (semget k 0 False) (\<lambda>i'. retr (if i' \<noteq> - 1 then EXIT_SUCCESS else - 1, i'))
              else retr (- 1, i))
            else retr (- 1, i))
       (\<lambda>(success, i).
        let this = \<lparr>sem_key = key, sem_id = i, sem_count = cnt, sem_size = sz\<rparr> in
        if success \<noteq> EXIT_SUCCESS then bindr (Semaphore_delete this False) (\<lambda>_. retr None)
        else retr (Some this))))))"

definition Semaphore_exists :: "u32 \<Rightarrow> 'z os_scheme \<Rightarrow> ('z os_scheme, bool) run" where
  "Semaphore_exists key =
     bindr (gets (SEMKEY key)) (\<lambda>k.
     bindr (semget k 0 False) (\<lambda>i. retr (i \<noteq> - 1)))"

text \<open>
  The buffer of \<open>IPC_STAT\<close> is an uninitialised local: when the call fails, what is read
  from it is indeterminate.
\<close>

definition Semaphore_extract_count :: "Semaphore \<Rightarrow> 'z os_scheme \<Rightarrow> ('z os_scheme, int) run" where
  "Semaphore_extract_count this =
     bindr (assertr (sem_id this \<noteq> - 1)) (\<lambda>_.
     bindr (semctl_stat (sem_id this)) (\<lambda>r.
     case r of Some ss \<Rightarrow> retr (int (length (ss_vals ss))) | None \<Rightarrow> gets (\<lambda>s. int (junk s))))"

definition Semaphore_attach :: "u32 \<Rightarrow> 'z os_scheme \<Rightarrow> ('z os_scheme, Semaphore option) run" where
  "Semaphore_attach key =
     bindr (gets (SEMKEY key)) (\<lambda>k.
     bindr (semget k 0 False) (\<lambda>i.
     if i \<noteq> - 1 then
       bindr malloc (\<lambda>ok.
       if \<not> ok then stop Undefined else
       bindr (Semaphore_extract_count \<lparr>sem_key = key, sem_id = i, sem_count = 0, sem_size = 0\<rparr>) (\<lambda>n.
       retr (Some \<lparr>sem_key = key, sem_id = i, sem_count = word_of_int n, sem_size = 1\<rparr>)))
     else retr None))"

section \<open>Accessors\<close>

definition Semaphore_used :: "Semaphore \<Rightarrow> u16 \<Rightarrow> 'z os_scheme \<Rightarrow> ('z os_scheme, int) run" where
  "Semaphore_used this index =
     bindr (semctl_getval (sem_id this) (unat index)) (\<lambda>v. retr (uint (sem_size this) - v))"

definition Semaphore_ctime :: "Semaphore \<Rightarrow> 'z os_scheme \<Rightarrow> ('z os_scheme, int) run" where
  "Semaphore_ctime this =
     bindr (semctl_stat (sem_id this)) (\<lambda>r.
     case r of Some ss \<Rightarrow> retr (ss_ctime ss) | None \<Rightarrow> gets (\<lambda>s. int (junk s)))"

definition Semaphore_get_size :: "Semaphore \<Rightarrow> int" where
  "Semaphore_get_size this = uint (sem_size this)"

definition Semaphore_set_size :: "Semaphore \<Rightarrow> u16 \<Rightarrow> Semaphore" where
  "Semaphore_set_size this sz = this\<lparr>sem_size := sz\<rparr>"

definition Semaphore_get_count :: "Semaphore \<Rightarrow> int" where
  "Semaphore_get_count this = uint (sem_count this)"

definition Semaphore_desc :: "Semaphore \<Rightarrow> u16 \<Rightarrow> 'z os_scheme \<Rightarrow> ('z os_scheme, unit) run" where
  "Semaphore_desc this index =
     bindr (Semaphore_ctime this) (\<lambda>t.
     bindr (assertr (uint (sem_count this) = Semaphore_get_count this)) (\<lambda>_.
     bindr (Semaphore_used this index) (\<lambda>used.
     printf ''SFMT'' [sem_id this, sint (sem_key this), used, uint (sem_size this),
                      uint index + 1, uint (sem_count this), t])))"

section \<open>Locking\<close>

text \<open>
  The bounded wait as it is compiled (the macro \<open>Linux\<close> is not defined by the build):
  one attempt a second, \<open>n\<close> attempts left, \<open>e\<close> the value returned when they are used
  up. A removed set (\<open>EIDRM\<close>) goes on to the next attempt without sleeping.
\<close>

primrec lock_attempts :: "Semaphore \<Rightarrow> sembuf \<Rightarrow> nat \<Rightarrow> int \<Rightarrow>
    'z os_scheme \<Rightarrow> ('z os_scheme, int) run" where
  "lock_attempts this op 0 e = retr e"
| "lock_attempts this op (Suc n) e =
     bindr (semop (sem_id this) op) (\<lambda>r.
     if r \<noteq> 0 then
       bindr (gets err) (\<lambda>er.
       if er = EAGAIN then bindr (sleep 1) (\<lambda>_. lock_attempts this op n e)
       else if er \<noteq> EIDRM then retr (- 1)
       else lock_attempts this op n e)
     else retr 0)"

definition Semaphore_lock :: "Semaphore \<Rightarrow> u16 \<Rightarrow> bool \<Rightarrow> int \<Rightarrow>
    'z os_scheme \<Rightarrow> ('z os_scheme, int) run" where
  "Semaphore_lock this index persist timeout =
     (let op = \<lparr>sem_num = unat index, sem_op = - 1, sem_undo = \<not> persist, sem_nowait = False\<rparr> in
      if timeout = LOCK_BLOCKING then
        bindr (semop (sem_id this) op) (\<lambda>r.
        if r \<noteq> 0 then bindr (gets err) (\<lambda>er. retr (if er \<noteq> EIDRM then - 1 else 0))
        else retr 0)
      else if timeout = LOCK_NONBLOCK then
        bindr (semop (sem_id this) (op\<lparr>sem_nowait := True\<rparr>)) (\<lambda>r.
        if r \<noteq> 0 then
          bindr (gets err) (\<lambda>er. retr (if er = EAGAIN then 1 else if er \<noteq> EIDRM then - 1 else 0))
        else retr 0)
      else lock_attempts this (op\<lparr>sem_nowait := True\<rparr>) (nat timeout) 1)"

definition Semaphore_unlock :: "Semaphore \<Rightarrow> u16 \<Rightarrow> bool \<Rightarrow>
    'z os_scheme \<Rightarrow> ('z os_scheme, int) run" where
  "Semaphore_unlock this index persist =
     bindr (Semaphore_used this index) (\<lambda>used.
     if used > 0 then
       bindr (semop (sem_id this)
         \<lparr>sem_num = unat index, sem_op = 1, sem_undo = \<not> persist, sem_nowait = False\<rparr>) (\<lambda>r.
       retr (if r \<noteq> 0 then - 1 else 0))
     else retr (- 1))"

section \<open>Every method keeps the kernel state well-formed\<close>

lemma keeps_Semaphore_init [keeps]: "keeps (Semaphore_init this n) wf_os"
  unfolding Semaphore_init_def by (intro keeps)

lemma keeps_Semaphore_delete [keeps]: "keeps (Semaphore_delete this b) wf_os"
  unfolding Semaphore_delete_def by (intro keeps)

lemma keeps_Semaphore_new [keeps]: "keeps (Semaphore_new q c n a) wf_os"
  unfolding Semaphore_new_def Let_def split_def by (intro keeps)

lemma keeps_Semaphore_exists [keeps]: "keeps (Semaphore_exists q) wf_os"
  unfolding Semaphore_exists_def by (intro keeps)

lemma keeps_Semaphore_extract_count [keeps]: "keeps (Semaphore_extract_count this) wf_os"
  unfolding Semaphore_extract_count_def by (intro keeps)

lemma keeps_Semaphore_attach [keeps]: "keeps (Semaphore_attach q) wf_os"
  unfolding Semaphore_attach_def by (intro keeps)

lemma keeps_Semaphore_used [keeps]: "keeps (Semaphore_used this n) wf_os"
  unfolding Semaphore_used_def by (intro keeps)

lemma keeps_Semaphore_ctime [keeps]: "keeps (Semaphore_ctime this) wf_os"
  unfolding Semaphore_ctime_def by (intro keeps)

lemma keeps_Semaphore_desc [keeps]: "keeps (Semaphore_desc this n) wf_os"
  unfolding Semaphore_desc_def by (intro keeps)

lemma keeps_lock_attempts [keeps]: "keeps (lock_attempts this b n e) wf_os"
  by (induction n arbitrary: e) (simp_all, (intro keeps; assumption)+)

lemma keeps_Semaphore_lock [keeps]: "keeps (Semaphore_lock this n p t) wf_os"
  unfolding Semaphore_lock_def Let_def by (intro keeps)

lemma keeps_Semaphore_unlock [keeps]: "keeps (Semaphore_unlock this n p) wf_os"
  unfolding Semaphore_unlock_def by (intro keeps)


section \<open>Locking and unlocking in a quiet system\<close>

text \<open>The object names semaphore \<open>n\<close> of a live set, and its value is legal.\<close>

definition sem_ok :: "Semaphore \<Rightarrow> u16 \<Rightarrow> 'z os_scheme \<Rightarrow> bool" where
  "sem_ok this n s \<longleftrightarrow> script s = [] \<and> has_sem (ker s) (sem_id this) (unat n) \<and>
     sem_value (ker s) (sem_id this) (unat n) \<le> semvmx (ker s)"

abbreviation value_of :: "Semaphore \<Rightarrow> u16 \<Rightarrow> 'z os_scheme \<Rightarrow> nat" where
  "value_of this n s \<equiv> sem_value (ker s) (sem_id this) (unat n)"

definition add_to :: "Semaphore \<Rightarrow> u16 \<Rightarrow> bool \<Rightarrow> int \<Rightarrow> 'z os_scheme \<Rightarrow> 'z os_scheme" where
  "add_to this n undo d s = s\<lparr>ker := sem_add (pid_self s) undo (sem_id this) (unat n) d (ker s)\<rparr>"

definition op_of :: "u16 \<Rightarrow> int \<Rightarrow> bool \<Rightarrow> bool \<Rightarrow> sembuf" where
  "op_of n d undo nowait = \<lparr>sem_num = unat n, sem_op = d, sem_undo = undo, sem_nowait = nowait\<rparr>"

lemma op_of_sel [simp]:
  "sem_num (op_of n d u w) = unat n" "sem_op (op_of n d u w) = d" "sem_undo (op_of n d u w) = u"
  "sem_nowait (op_of n d u w) = w"
  by (simp_all add: op_of_def)

lemma semop_take:
  assumes "sem_ok this n s" and "0 < value_of this n s"
  shows "semop (sem_id this) (op_of n (- 1) u w) s = Fin 0 (add_to this n u (- 1) s)"
  using assms by (simp add: sem_ok_def semop_quiet sem_attempt_value Let_def add_to_def)

lemma semop_empty:
  assumes "sem_ok this n s" and "value_of this n s = 0"
  shows "semop (sem_id this) (op_of n (- 1) u w) s =
    (if w then Fin (- 1) (s\<lparr>err := EAGAIN\<rparr>) else Stop Hangs s)"
  using assms by (simp add: sem_ok_def semop_quiet sem_attempt_value Let_def)

lemma semop_give:
  assumes "sem_ok this n s" and "value_of this n s < semvmx (ker s)"
  shows "semop (sem_id this) (op_of n 1 u w) s = Fin 0 (add_to this n u 1 s)"
  using assms by (simp add: sem_ok_def semop_quiet sem_attempt_value Let_def add_to_def)

lemma sem_ok_upd [simp]:
  "sem_ok this n (s\<lparr>err := e\<rparr>) = sem_ok this n s"
  "sem_ok this n (s\<lparr>ker := (ker s)\<lparr>clock := c\<rparr>\<rparr>) = sem_ok this n s"
  by (simp_all add: sem_ok_def)

text \<open>All attempts of the bounded wait fail while the value is zero: one second each.\<close>

lemma lock_attempts_empty:
  assumes "sem_ok this n s" and "value_of this n s = 0"
  shows "lock_attempts this (op_of n (- 1) u True) m e s =
    Fin e (if m = 0 then s else s\<lparr>err := EAGAIN, ker := (ker s)\<lparr>clock := clock (ker s) + int m\<rparr>\<rparr>)"
  using assms
proof (induction m arbitrary: s)
  case 0
  then show ?case by (simp add: run_simps)
next
  case (Suc m)
  let ?t = "s\<lparr>err := EAGAIN, ker := (ker s)\<lparr>clock := clock (ker s) + 1\<rparr>\<rparr>"
  have "script s = []" using Suc.prems by (simp add: sem_ok_def)
  then have "lock_attempts this (op_of n (- 1) u True) (Suc m) e s =
      lock_attempts this (op_of n (- 1) u True) m e ?t"
    by (simp add: run_simps semop_empty [OF Suc.prems] sleep_def)
  also have "\<dots> = Fin e (if m = 0 then ?t
      else ?t\<lparr>err := EAGAIN, ker := (ker ?t)\<lparr>clock := clock (ker ?t) + int m\<rparr>\<rparr>)"
    using Suc.prems by (intro Suc.IH) (simp_all add: sem_ok_def has_sem_def)
  finally show ?case by (simp add: add.assoc)
qed

lemma Semaphore_lock_op:
  "Semaphore_lock this n persist timeout =
     (if timeout = 0 then
        bindr (semop (sem_id this) (op_of n (- 1) (\<not> persist) False)) (\<lambda>r.
        if r \<noteq> 0 then bindr (gets err) (\<lambda>er. retr (if er \<noteq> EIDRM then - 1 else 0)) else retr 0)
      else if timeout = - 1 then
        bindr (semop (sem_id this) (op_of n (- 1) (\<not> persist) True)) (\<lambda>r.
        if r \<noteq> 0 then
          bindr (gets err) (\<lambda>er. retr (if er = EAGAIN then 1 else if er \<noteq> EIDRM then - 1 else 0))
        else retr 0)
      else lock_attempts this (op_of n (- 1) (\<not> persist) True) (nat timeout) 1)"
  by (simp add: Semaphore_lock_def op_of_def Let_def LOCK_BLOCKING_def LOCK_NONBLOCK_def)

lemma Semaphore_unlock_op:
  "Semaphore_unlock this n persist =
     bindr (Semaphore_used this n) (\<lambda>used.
     if used > 0 then
       bindr (semop (sem_id this) (op_of n 1 (\<not> persist) False)) (\<lambda>r. retr (if r \<noteq> 0 then - 1 else 0))
     else retr (- 1))"
  unfolding Semaphore_unlock_def op_of_def ..

lemma Semaphore_lock_free:
  assumes "sem_ok this n s" and "0 < value_of this n s" and "- 1 \<le> timeout"
  shows "Semaphore_lock this n persist timeout s = Fin 0 (add_to this n (\<not> persist) (- 1) s)"
proof (cases "timeout = 0 \<or> timeout = - 1")
  case True
  then show ?thesis by (auto simp: Semaphore_lock_op run_simps semop_take [OF assms(1,2)])
next
  case False
  with assms(3) obtain m where "nat timeout = Suc m" by (cases "nat timeout") auto
  with False show ?thesis by (simp add: Semaphore_lock_op run_simps semop_take [OF assms(1,2)])
qed

lemma Semaphore_lock_taken:
  assumes "sem_ok this n s" and "value_of this n s = 0"
  shows "Semaphore_lock this n persist timeout s =
    (if timeout = 0 then Stop Hangs s
     else if timeout = - 1 then Fin 1 (s\<lparr>err := EAGAIN\<rparr>)
     else if timeout < - 1 then Fin 1 s
     else Fin 1 (s\<lparr>err := EAGAIN, ker := (ker s)\<lparr>clock := clock (ker s) + timeout\<rparr>\<rparr>))"
  by (simp add: Semaphore_lock_op run_simps semop_empty [OF assms] lock_attempts_empty [OF assms])

lemma Semaphore_used_ok:
  "sem_ok this n s \<Longrightarrow>
    Semaphore_used this n s = Fin (uint (sem_size this) - int (value_of this n s)) s"
  by (auto simp: Semaphore_used_def semctl_getval_def run_simps sem_ok_def elim!: has_semE)

lemma Semaphore_unlock_used:
  assumes "sem_ok this n s" and "value_of this n s < unat (sem_size this)"
    and "value_of this n s < semvmx (ker s)"
  shows "Semaphore_unlock this n persist s = Fin 0 (add_to this n (\<not> persist) 1 s)"
proof -
  have "0 < uint (sem_size this) - int (value_of this n s)"
    using assms(2) unfolding uint_nat by linarith
  then show ?thesis
    by (simp add: Semaphore_unlock_op run_simps Semaphore_used_ok assms(1) semop_give [OF assms(1,3)])
qed

lemma Semaphore_unlock_unused:
  assumes "sem_ok this n s" and "unat (sem_size this) \<le> value_of this n s"
  shows "Semaphore_unlock this n persist s = Fin (- 1) s"
proof -
  have "\<not> 0 < uint (sem_size this) - int (value_of this n s)"
    using assms(2) unfolding uint_nat by linarith
  then show ?thesis
    by (simp add: Semaphore_unlock_op run_simps Semaphore_used_ok assms(1))
qed

lemma sem_ok_add:
  assumes "sem_ok this n s" and "0 \<le> int (value_of this n s) + d"
    and "int (value_of this n s) + d \<le> int (semvmx (ker s))"
  shows "sem_ok this n (add_to this n u d s)"
    and "int (value_of this n (add_to this n u d s)) = int (value_of this n s) + d"
  using assms sem_value_add [of "ker s" "sem_id this" "unat n" d "pid_self s" u]
  by (auto simp: sem_ok_def add_to_def)

lemma add_to_back:
  assumes "sem_ok this n s" and "0 \<le> int (value_of this n s) + d"
  shows "add_to this n u (- d) (add_to this n u d s) = s"
  using assms sem_add_back [of "ker s" "sem_id this" "unat n" d "pid_self s" u]
  by (simp add: add_to_def sem_ok_def)


section \<open>Locking among other processes\<close>

text \<open>
  \<open>took_unit this n u s t\<close>: from \<open>s\<close>, after moves of other processes only, the
  semaphore was above zero and one unit was taken from it, which left \<open>t\<close>.
\<close>

definition took_unit :: "Semaphore \<Rightarrow> u16 \<Rightarrow> bool \<Rightarrow> 'z os_scheme \<Rightarrow> 'z os_scheme \<Rightarrow> bool" where
  "took_unit this n u s t \<longleftrightarrow> (\<exists>m. only_env s m \<and> has_sem (ker m) (sem_id this) (unat n) \<and>
     0 < value_of this n m \<and> t = add_to this n u (- 1) m)"

lemma semop_take_outcome:
  assumes "semop (sem_id this) (op_of n (- 1) u w) s = Fin r t"
  shows "(r = 0 \<and> took_unit this n u s t) \<or> (r = - 1 \<and> only_env s t)"
proof -
  from semop_outcome [OF assms] consider m k where "r = 0" "only_env s m"
      "sem_attempt (pid_self s) (sem_id this) (op_of n (- 1) u w) (ker m) = Done k" "t = m\<lparr>ker := k\<rparr>"
    | "r = - 1" "only_env s t"
    by blast
  then show ?thesis
  proof cases
    case 1
    note d = sem_attempt_Done [OF 1(3), simplified]
    have "pid_self m = pid_self s" using only_env_frame [OF 1(2)] by simp
    with 1 d have "t = add_to this n u (- 1) m" by (simp add: add_to_def)
    moreover from d have "0 < value_of this n m" by simp
    ultimately show ?thesis using 1(1,2) d(1) by (auto simp: took_unit_def)
  qed simp
qed

lemma took_unit_trans: "only_env s m \<Longrightarrow> took_unit this n u m t \<Longrightarrow> took_unit this n u s t"
  unfolding took_unit_def using only_env_trans by blast

lemma lock_attempts_outcome:
  assumes "lock_attempts this (op_of n (- 1) u True) m e s = Fin r t" and "e \<noteq> 0"
  shows "(r = 0 \<and> took_unit this n u s t) \<or> (r \<in> {- 1, e} \<and> only_env s t)"
  using assms(1)
proof (induction m arbitrary: s)
  case 0
  then show ?case by (simp add: run_simps)
next
  case (Suc m)
  let ?op = "op_of n (- 1) u True"
  obtain r1 s1 where op: "semop (sem_id this) ?op s = Fin r1 s1"
    using semop_nowait_returns [of ?op "sem_id this" s] by auto
  note o1 = semop_take_outcome [OF op]
  show ?case
  proof (cases "r1 = 0")
    case True
    with op Suc.prems o1 show ?thesis by (simp add: run_simps)
  next
    case False
    with o1 have env: "only_env s s1" by simp
    have retry: "(r = 0 \<and> took_unit this n u s t) \<or> (r \<in> {- 1, e} \<and> only_env s t)" if "lock_attempts this ?op m e s2 = Fin r t" "only_env s1 s2" for s2
      using Suc.IH [OF that(1)] only_env_trans [OF env that(2)]
        took_unit_trans only_env_trans by blast
    show ?thesis
    proof (cases "err s1 = EAGAIN")
      case True
      obtain s2 where sl: "sleep 1 s1 = Fin () s2" using sleep_returns [of 1 s1] by auto
      with True False op Suc.prems have "lock_attempts this ?op m e s2 = Fin r t"
        by (simp add: run_simps)
      then show ?thesis using only_env_sleep [OF sl] by (rule retry)
    next
      case False
      then show ?thesis
        using \<open>r1 \<noteq> 0\<close> op Suc.prems env retry [OF _ only_env_refl]
        by (auto simp: run_simps split: if_splits)
    qed
  qed
qed

lemma lock_attempts_returns:
  "\<exists>r t. lock_attempts this (op_of n (- 1) u True) m e s = Fin r t"
proof (induction m arbitrary: s)
  case 0
  then show ?case by (simp add: run_simps)
next
  case (Suc m)
  obtain r1 s1 where "semop (sem_id this) (op_of n (- 1) u True) s = Fin r1 s1"
    using semop_nowait_returns [of "op_of n (- 1) u True" "sem_id this" s] by auto
  then show ?case
    using Suc.IH by (auto simp: run_simps sleep_def split: prod.split)
qed

lemma Semaphore_lock_outcome:
  assumes "Semaphore_lock this n persist timeout s = Fin r t"
  shows "(r = 0 \<and> (took_unit this n (\<not> persist) s t \<or> err t = EIDRM \<and> only_env s t)) \<or>
    (r \<in> {- 1, 1} \<and> only_env s t)"
proof -
  consider "timeout = 0" | "timeout = - 1" | "timeout \<noteq> 0" "timeout \<noteq> - 1" by blast
  then show ?thesis
  proof cases
    case 1
    with assms obtain r1 s1 where
      "semop (sem_id this) (op_of n (- 1) (\<not> persist) False) s = Fin r1 s1"
      by (auto simp: Semaphore_lock_op run_simps split: run.splits)
    with semop_take_outcome [OF this] assms 1 show ?thesis
      by (auto simp: Semaphore_lock_op run_simps split: if_splits)
  next
    case 2
    with assms obtain r1 s1 where
      "semop (sem_id this) (op_of n (- 1) (\<not> persist) True) s = Fin r1 s1"
      by (auto simp: Semaphore_lock_op run_simps split: run.splits)
    with semop_take_outcome [OF this] assms 2 show ?thesis
      by (auto simp: Semaphore_lock_op run_simps split: if_splits)
  next
    case 3
    with assms have "lock_attempts this (op_of n (- 1) (\<not> persist) True) (nat timeout) 1 s = Fin r t"
      by (simp add: Semaphore_lock_op)
    from lock_attempts_outcome [OF this] show ?thesis by auto
  qed
qed

text \<open>
  The bounded wait gets the semaphore as soon as another process has made it free: \<open>j\<close>
  attempts fail, one second apart, and the next one succeeds.
\<close>

lemma lock_attempts_live:
  assumes "script s = replicate (2 * j) idle @ (mv, None) # evs" and "j < m"
    and "has_sem (ker s) (sem_id this) (unat n)" and "value_of this n s = 0"
    and "has_sem (mv ((ker s)\<lparr>clock := clock (ker s) + int j\<rparr>)) (sem_id this) (unat n)"
    and "sem_value (mv ((ker s)\<lparr>clock := clock (ker s) + int j\<rparr>)) (sem_id this) (unat n) \<in>
           {0 <.. semvmx (mv ((ker s)\<lparr>clock := clock (ker s) + int j\<rparr>))}"
  shows "\<exists>t. lock_attempts this (op_of n (- 1) u True) m e s = Fin 0 t \<and>
    ker t = sem_add (pid_self s) u (sem_id this) (unat n) (- 1) (mv ((ker s)\<lparr>clock := clock (ker s) + int j\<rparr>))"
  using assms
proof (induction j arbitrary: m s)
  case 0
  then obtain m' where "m = Suc m'" by (cases m) auto
  with 0 show ?case
    by (simp add: run_simps semop_def syscall_Cons sem_attempt_value Let_def)
next
  case (Suc j)
  then obtain m' where m: "m = Suc m'" by (cases m) auto
  let ?t = "s\<lparr>err := EAGAIN, script := replicate (2 * j) idle @ (mv, None) # evs,
    ker := (ker s)\<lparr>clock := clock (ker s) + 1\<rparr>\<rparr>"
  have scr: "script s = (\<lambda>k. k, None) # idle # replicate (2 * j) idle @ (mv, None) # evs"
    using Suc.prems(1) by (simp add: idle_def)
  have "lock_attempts this (op_of n (- 1) u True) m e s = lock_attempts this (op_of n (- 1) u True) m' e ?t"
    using Suc.prems(3,4)
    by (simp add: m run_simps semop_def syscall_Cons [OF scr] sem_attempt_value Let_def sleep_def
        interact_def idle_def)
  moreover have "clock (ker s) + 1 + int j = clock (ker s) + int (Suc j)" by simp
  then have "\<exists>t. lock_attempts this (op_of n (- 1) u True) m' e ?t = Fin 0 t \<and>
    ker t = sem_add (pid_self s) u (sem_id this) (unat n) (- 1) (mv ((ker s)\<lparr>clock := clock (ker s) + int (Suc j)\<rparr>))"
    using Suc.IH [of ?t m'] Suc.prems m by (simp add: add.assoc)
  ultimately show ?case by simp
qed

section \<open>The semaphore as a critical section\<close>

text \<open>
  \<open>SharedMemory.c\<close> uses the lock as a mutex: semaphore 0, blocking, with undo. It is free
  for a caller when it is above zero and within the size the object knows.
\<close>

definition mutex_free :: "Semaphore \<Rightarrow> 'z os_scheme \<Rightarrow> bool" where
  "mutex_free this s \<longleftrightarrow> sem_ok this 0 s \<and> 0 < value_of this 0 s \<and>
     value_of this 0 s \<le> unat (sem_size this)"

text \<open>Changes of the shared segments alone.\<close>

definition seg_frame :: "('z os_scheme \<Rightarrow> 'z os_scheme) \<Rightarrow> bool" where
  "seg_frame g \<longleftrightarrow> (\<exists>f. g = (\<lambda>s. s\<lparr>ker := (ker s)\<lparr>segs := f (segs (ker s))\<rparr>\<rparr>))"

lemma seg_frame_id: "seg_frame (\<lambda>s. s)"
  unfolding seg_frame_def by (rule exI [of _ "\<lambda>x. x"]) simp

lemma sem_add_segs: "sem_add p u i n d (k\<lparr>segs := f\<rparr>) = (sem_add p u i n d k)\<lparr>segs := f\<rparr>"
  by (simp add: sem_add_def split: option.split)

lemma mutex_free_segs [simp]:
  "mutex_free this (s\<lparr>ker := (ker s)\<lparr>segs := f\<rparr>\<rparr>) = mutex_free this s"
  by (simp add: mutex_free_def sem_ok_def)

lemma mutex_leave:
  assumes free: "mutex_free this s" and g: "seg_frame g"
  shows "Semaphore_unlock this 0 False (g (add_to this 0 True (- 1) s)) = Fin 0 (g s)"
proof -
  let ?h = "add_to this 0 True (- 1)"
  from g obtain f where gf: "g = (\<lambda>s. s\<lparr>ker := (ker s)\<lparr>segs := f (segs (ker s))\<rparr>\<rparr>)"
    unfolding seg_frame_def by blast
  have swap: "g (?h s) = ?h (g s)"
    by (simp add: gf add_to_def sem_add_segs)
  have free': "mutex_free this (g s)" using free by (simp add: gf)
  then have ok: "sem_ok this 0 (g s)" and pos: "0 < value_of this 0 (g s)"
    and le: "value_of this 0 (g s) \<le> unat (sem_size this)"
    by (simp_all add: mutex_free_def)
  have "int (value_of this 0 (g s)) \<le> int (semvmx (ker (g s)))"
    using ok by (simp add: sem_ok_def)
  with sem_ok_add [OF ok, of "- 1" True] pos
  have h: "sem_ok this 0 (?h (g s))" "int (value_of this 0 (?h (g s))) = int (value_of this 0 (g s)) - 1"
    by simp_all
  have "value_of this 0 (?h (g s)) < semvmx (ker (?h (g s)))"
    using pos ok by (auto simp: sem_ok_def add_to_def)
  with h le have "Semaphore_unlock this 0 False (?h (g s)) = Fin 0 (add_to this 0 True 1 (?h (g s)))"
    using Semaphore_unlock_used [of this 0 "?h (g s)" False] by simp
  with add_to_back [OF ok, of "- 1" True] pos show ?thesis
    by (simp add: swap)
qed

interpretation sem_cs: critical_section
  "\<lambda>this. Semaphore_lock this 0 False 0" "\<lambda>this. Semaphore_unlock this 0 False"
  mutex_free "\<lambda>this. add_to this 0 True (- 1)" seg_frame
proof unfold_locales
  fix this :: Semaphore and s :: "'a os_scheme"
  assume "mutex_free this s"
  then show "Semaphore_lock this 0 False 0 s = Fin 0 (add_to this 0 True (- 1) s)"
    using Semaphore_lock_free [of this 0 s 0 False] by (simp add: mutex_free_def)
next
  fix this :: Semaphore and s :: "'a os_scheme" and g :: "'a os_scheme \<Rightarrow> 'a os_scheme"
  assume "mutex_free this s" and "seg_frame g"
  then show "Semaphore_unlock this 0 False (g (add_to this 0 True (- 1) s)) = Fin 0 (g s)"
    by (rule mutex_leave)
next
  fix this :: Semaphore and s :: "'a os_scheme" and g :: "'a os_scheme \<Rightarrow> 'a os_scheme"
  assume "mutex_free this s" and "seg_frame g"
  then show "mutex_free this (g s)" by (auto simp: seg_frame_def)
next
  show "seg_frame (\<lambda>s :: 'a os_scheme. s)" by (rule seg_frame_id)
qed

section \<open>Creating and attaching\<close>

text \<open>The key of the object is usable, and names set \<open>i\<close> (or nothing yet).\<close>

definition key_ok :: "u32 \<Rightarrow> 'z os_scheme \<Rightarrow> bool" where
  "key_ok key s \<longleftrightarrow> SEMKEY key s \<noteq> - 1 \<and> SEMKEY key s \<noteq> IPC_PRIVATE"

lemma ftok_ok_key: "ftok_ok s \<Longrightarrow> key_ok key s"
  by (metis ftok_ok_def key_ok_def SEMKEY_def rangeI)

lemma key_ok_upd [simp]:
  "key_ok key (s\<lparr>ker := k\<rparr>) = key_ok key s" "SEMKEY key (s\<lparr>ker := k\<rparr>) = SEMKEY key s"
  "key_ok key (s\<lparr>err := e\<rparr>) = key_ok key s" "SEMKEY key (s\<lparr>err := e\<rparr>) = SEMKEY key s"
  by (simp_all add: key_ok_def SEMKEY_def)

lemma semget_new:
  assumes "script s = []" and "q \<noteq> IPC_PRIVATE" and "semkeys (ker s) q = None"
    and "0 < n" and "n \<le> semmsl (ker s)"
  shows "semget q n True s = Fin (int (next_sem (ker s)))
     (s\<lparr>ker := new_set \<lparr>ss_key = q, ss_vals = replicate n 0, ss_ctime = clock (ker s),
        ss_adj = (\<lambda>_ _. 0)\<rparr> (ker s)\<rparr>)"
  using assms by (simp add: semget_def run_simps)

lemma semget_old:
  assumes "script s = []" and "q \<noteq> IPC_PRIVATE" and "semkeys (ker s) q = Some i"
    and "sems (ker s) i = Some ss"
  shows "semget q 0 False s = Fin i s" and "semget q n True s = Fin (- 1) (s\<lparr>err := EEXIST\<rparr>)"
  using assms by (simp_all add: semget_def run_simps)

lemma semget_none:
  assumes "script s = []" and "q \<noteq> IPC_PRIVATE" and "semkeys (ker s) q = None"
  shows "semget q 0 False s = Fin (- 1) (s\<lparr>err := ENOENT\<rparr>)"
  using assms by (simp add: semget_def run_simps)

text \<open>A new set whose values are then all set: the two steps of \<open>Semaphore$new\<close>.\<close>

lemma setall_new:
  assumes "script s = []" and "length vs = length (ss_vals ss)"
  shows "semctl_setall (int (next_sem (ker s))) vs (s\<lparr>ker := new_set ss (ker s)\<rparr>) =
    (if \<exists>v \<in> set vs. unat v > semvmx (ker s)
     then Fin (- 1) (s\<lparr>ker := new_set ss (ker s), err := ERANGE\<rparr>)
     else Fin 0 (s\<lparr>ker := new_set (ss\<lparr>ss_vals := map unat vs, ss_ctime := clock (ker s),
       ss_adj := (\<lambda>_ _. 0)\<rparr>) (ker s)\<rparr>))"
  using assms by (simp add: semctl_setall_def run_simps new_set_def Let_def)

definition made_set :: "u32 \<Rightarrow> u16 \<Rightarrow> u16 \<Rightarrow> 'z os_scheme \<Rightarrow> semset" where
  "made_set key cnt sz s = \<lparr>ss_key = SEMKEY key s, ss_vals = replicate (unat cnt) (unat sz),
     ss_ctime = clock (ker s), ss_adj = (\<lambda>_ _. 0)\<rparr>"

definition can_make :: "u32 \<Rightarrow> u16 \<Rightarrow> 'z os_scheme \<Rightarrow> bool" where
  "can_make key cnt s \<longleftrightarrow> script s = [] \<and> mallocs s = [] \<and> key_ok key s \<and>
     semkeys (ker s) (SEMKEY key s) = None \<and> 0 < unat cnt \<and> unat cnt \<le> semmsl (ker s)"

lemma Semaphore_new_made:
  assumes "can_make key cnt s" and "unat sz \<le> semvmx (ker s)"
  shows "Semaphore_new key cnt sz att s = Fin
     (Some \<lparr>sem_key = key, sem_id = int (next_sem (ker s)), sem_count = cnt, sem_size = sz\<rparr>)
     (s\<lparr>ker := new_set (made_set key cnt sz s) (ker s)\<rparr>)"
proof -
  have "map (\<lambda>_. unat sz) [0..<unat cnt] = replicate (unat cnt) (unat sz)"
    by (simp add: map_replicate_const)
  with assms show ?thesis
    by (simp add: Semaphore_new_def Semaphore_init_def can_make_def key_ok_def run_simps
        semget_new setall_new made_set_def Let_def comp_def)
qed

text \<open>
  A size above \<open>SEMVMX\<close> makes the initialisation fail after the set was created; the object
  is freed, but the set stays in the kernel with all values zero.
\<close>

lemma Semaphore_new_unmade:
  assumes "can_make key cnt s" and "unat sz > semvmx (ker s)"
  shows "Semaphore_new key cnt sz att s = Fin None
     (s\<lparr>ker := new_set (made_set key cnt 0 s) (ker s), err := ERANGE\<rparr>)"
  using assms
  by (auto simp: Semaphore_new_def Semaphore_init_def Semaphore_delete_def can_make_def key_ok_def
      run_simps semget_new setall_new made_set_def Let_def)

text \<open>The object's key names the live set \<open>i\<close>.\<close>

definition names_set :: "u32 \<Rightarrow> int \<Rightarrow> semset \<Rightarrow> 'z os_scheme \<Rightarrow> bool" where
  "names_set key i ss s \<longleftrightarrow> script s = [] \<and> mallocs s = [] \<and> key_ok key s \<and>
     semkeys (ker s) (SEMKEY key s) = Some i \<and> sems (ker s) i = Some ss \<and> 0 \<le> i"

lemma Semaphore_new_exists:
  assumes "names_set key i ss s"
  shows "Semaphore_new key cnt sz att s = Fin
     (if att then Some \<lparr>sem_key = key, sem_id = i, sem_count = cnt, sem_size = sz\<rparr> else None)
     (s\<lparr>err := EEXIST\<rparr>)"
  using assms
  by (simp add: Semaphore_new_def Semaphore_delete_def names_set_def key_ok_def run_simps
      semget_old Let_def)

lemma Semaphore_attach_names:
  assumes "names_set key i ss s"
  shows "Semaphore_attach key s = Fin (Some \<lparr>sem_key = key, sem_id = i,
     sem_count = word_of_int (int (length (ss_vals ss))), sem_size = 1\<rparr>) s"
  using assms
  by (simp add: Semaphore_attach_def Semaphore_extract_count_def names_set_def key_ok_def run_simps
      semget_old semctl_stat_def)

lemma Semaphore_attach_none:
  assumes "script s = []" and "key_ok key s" and "semkeys (ker s) (SEMKEY key s) = None"
  shows "Semaphore_attach key s = Fin None (s\<lparr>err := ENOENT\<rparr>)"
  using assms by (simp add: Semaphore_attach_def key_ok_def run_simps semget_none)

lemma Semaphore_exists_names: "names_set key i ss s \<Longrightarrow> Semaphore_exists key s = Fin True s"
  by (simp add: Semaphore_exists_def names_set_def key_ok_def run_simps semget_old)

lemma Semaphore_exists_none:
  assumes "script s = []" and "key_ok key s" and "semkeys (ker s) (SEMKEY key s) = None"
  shows "Semaphore_exists key s = Fin False (s\<lparr>err := ENOENT\<rparr>)"
  using assms by (simp add: Semaphore_exists_def key_ok_def run_simps semget_none)

lemma names_made:
  assumes "can_make key cnt s"
  shows "names_set key (int (next_sem (ker s))) (made_set key cnt sz s)
    (s\<lparr>ker := new_set (made_set key cnt sz s) (ker s)\<rparr>)"
  using assms by (simp add: can_make_def names_set_def new_set_def made_set_def Let_def key_ok_def)

section \<open>Traces and their specification\<close>

text \<open>
  What a counting semaphore of capacity \<open>cap\<close> promises: a number of free units, which a
  successful lock lowers and a successful unlock raises, never above the capacity.
\<close>

datatype request = Try_lock | Unlock

fun spec_step :: "nat \<Rightarrow> nat \<Rightarrow> request \<Rightarrow> int \<times> nat" where
  "spec_step cap v Try_lock = (if 0 < v then (0, v - 1) else (1, v))"
| "spec_step cap v Unlock = (if v < cap then (0, v + 1) else (- 1, v))"

fun spec_trace :: "nat \<Rightarrow> nat \<Rightarrow> request list \<Rightarrow> int list \<times> nat" where
  "spec_trace cap v [] = ([], v)"
| "spec_trace cap v (q # qs) =
     (let (r, v1) = spec_step cap v q; (rs, v2) = spec_trace cap v1 qs in (r # rs, v2))"

fun run_request :: "Semaphore \<Rightarrow> u16 \<Rightarrow> request \<Rightarrow> 'z os_scheme \<Rightarrow> ('z os_scheme, int) run" where
  "run_request this n Try_lock = Semaphore_lock this n True (- 1)"
| "run_request this n Unlock = Semaphore_unlock this n True"

fun run_trace :: "Semaphore \<Rightarrow> u16 \<Rightarrow> request list \<Rightarrow> 'z os_scheme \<Rightarrow> ('z os_scheme, int list) run" where
  "run_trace this n [] = retr []"
| "run_trace this n (q # qs) =
     bindr (run_request this n q) (\<lambda>r. bindr (run_trace this n qs) (\<lambda>rs. retr (r # rs)))"

text \<open>Successful locks without a matching unlock, counted on the results.\<close>

fun outstanding :: "request list \<Rightarrow> int list \<Rightarrow> int" where
  "outstanding (Try_lock # qs) (r # rs) = (if r = 0 then 1 else 0) + outstanding qs rs"
| "outstanding (Unlock # qs) (r # rs) = (if r = 0 then - 1 else 0) + outstanding qs rs"
| "outstanding _ _ = 0"

lemma spec_trace_bound:
  "v \<le> cap \<Longrightarrow> snd (spec_trace cap v qs) \<le> cap \<and>
    outstanding qs (fst (spec_trace cap v qs)) = int v - int (snd (spec_trace cap v qs))"
proof (induction qs arbitrary: v)
  case Nil
  then show ?case by simp
next
  case (Cons q qs)
  obtain r v1 where st: "spec_step cap v q = (r, v1)" by (cases "spec_step cap v q")
  with Cons.prems have "v1 \<le> cap" by (cases q) (auto split: if_splits)
  from Cons.IH [OF this] st show ?case
    by (cases q) (auto simp: split_def Let_def split: if_splits)
qed

lemma run_request_refines:
  assumes ok: "sem_ok this n s" and le: "value_of this n s \<le> unat (sem_size this)"
    and vmx: "unat (sem_size this) \<le> semvmx (ker s)"
  shows "\<exists>r t. run_request this n q s = Fin r t \<and> sem_ok this n t \<and> semvmx (ker t) = semvmx (ker s) \<and>
    (r, value_of this n t) = spec_step (unat (sem_size this)) (value_of this n s) q"
proof (cases q)
  case Try_lock
  show ?thesis
  proof (cases "0 < value_of this n s")
    case True
    moreover have "int (value_of this n s) \<le> int (semvmx (ker s))" using ok by (simp add: sem_ok_def)
    ultimately have "sem_ok this n (add_to this n False (- 1) s)"
      "int (value_of this n (add_to this n False (- 1) s)) = int (value_of this n s) - 1"
      using sem_ok_add [OF ok, of "- 1" False] by simp_all
    then show ?thesis
      using True Try_lock Semaphore_lock_free [OF ok True, of "- 1" True]
      by (auto simp: add_to_def)
  next
    case False
    then show ?thesis using Try_lock Semaphore_lock_taken [OF ok, of True "- 1"] ok by simp
  qed
next
  case Unlock
  show ?thesis
  proof (cases "value_of this n s < unat (sem_size this)")
    case True
    then have v: "value_of this n s < semvmx (ker s)" using vmx by simp
    then have "sem_ok this n (add_to this n False 1 s)"
      "int (value_of this n (add_to this n False 1 s)) = int (value_of this n s) + 1"
      using sem_ok_add [OF ok, of 1 False] by simp_all
    then show ?thesis
      using True Unlock Semaphore_unlock_used [OF ok True v, of True] by (auto simp: add_to_def)
  next
    case False
    then show ?thesis using Unlock Semaphore_unlock_unused [OF ok, of True] ok by simp
  qed
qed

lemma run_trace_refines:
  assumes "sem_ok this n s" and "value_of this n s \<le> unat (sem_size this)"
    and "unat (sem_size this) \<le> semvmx (ker s)"
  shows "\<exists>rs t. run_trace this n qs s = Fin rs t \<and> sem_ok this n t \<and>
    (rs, value_of this n t) = spec_trace (unat (sem_size this)) (value_of this n s) qs"
  using assms
proof (induction qs arbitrary: s)
  case Nil
  then show ?case by (simp add: run_simps)
next
  case (Cons q qs)
  from run_request_refines [OF Cons.prems, of q] obtain r t where t:
    "run_request this n q s = Fin r t" "sem_ok this n t" "semvmx (ker t) = semvmx (ker s)"
    "(r, value_of this n t) = spec_step (unat (sem_size this)) (value_of this n s) q"
    by blast
  then have "value_of this n t \<le> unat (sem_size this)"
    using Cons.prems(2) by (cases q) (auto split: if_splits)
  then have "\<exists>rs u. run_trace this n qs t = Fin rs u \<and> sem_ok this n u \<and>
      (rs, value_of this n u) = spec_trace (unat (sem_size this)) (value_of this n t) qs"
    using Cons.IH [OF t(2)] Cons.prems(3) t(3) by simp
  then obtain rs u where u: "run_trace this n qs t = Fin rs u" "sem_ok this n u"
      "(rs, value_of this n u) = spec_trace (unat (sem_size this)) (value_of this n t) qs"
    by blast
  show ?case
    using u(2) by (simp add: run_simps t(1) u(1) t(4) [symmetric] u(3) [symmetric])
qed

section \<open>Properties\<close>

text \<open>
  C6: what \<open>Semaphore$lock\<close> does in a quiet system, for every value of the semaphore and
  every timeout: a free semaphore is taken at once; a taken one blocks (timeout 0), reports 1 at
  once (timeout -1), or reports 1 after exactly the timeout in seconds; a timeout below -1
  reports 1 without trying at all.
\<close>

theorem lock_quiet:
  assumes "sem_ok this n s"
  shows "Semaphore_lock this n persist timeout s =
    (if timeout < - 1 then Fin 1 s
     else if 0 < value_of this n s then Fin 0 (add_to this n (\<not> persist) (- 1) s)
     else if timeout = 0 then Stop Hangs s
     else if timeout = - 1 then Fin 1 (s\<lparr>err := EAGAIN\<rparr>)
     else Fin 1 (s\<lparr>err := EAGAIN, ker := (ker s)\<lparr>clock := clock (ker s) + timeout\<rparr>\<rparr>))"
proof (cases "timeout < - 1")
  case True
  then show ?thesis by (simp add: Semaphore_lock_op run_simps)
next
  case False
  then show ?thesis
    using Semaphore_lock_free [OF assms] Semaphore_lock_taken [OF assms] by simp
qed

definition sem_obj :: Semaphore where
  "sem_obj = \<lparr>sem_key = 1, sem_id = 0, sem_count = 1, sem_size = 2\<rparr>"

definition sem_state :: "nat \<Rightarrow> os" where
  "sem_state v = boot_os\<lparr>ker := one_sem v\<rparr>"

lemma sem_state_ok [simp]: "v \<le> 32767 \<Longrightarrow> sem_ok sem_obj 0 (sem_state v)"
  "value_of sem_obj 0 (sem_state v) = v" "script (sem_state v) = []"
  "ker (sem_state v) = one_sem v" "sem_id sem_obj = 0" "sem_size sem_obj = 2"
  by (simp_all add: sem_ok_def sem_state_def sem_obj_def boot_os_def)

lemma lock_quiet_witness:
  "Semaphore_lock sem_obj 0 True 3 (sem_state 0) =
     Fin 1 ((sem_state 0)\<lparr>err := EAGAIN, ker := (one_sem 0)\<lparr>clock := 1003\<rparr>\<rparr>)"
  by (subst lock_quiet) simp_all

text \<open>
  C9: among arbitrary other processes, and whatever errors the calls report, a lock that
  returns took exactly one unit of a semaphore that was above zero when it returned 0, unless
  the set was removed (\<open>EIDRM\<close>); with any other result the process changed nothing.
\<close>

theorem lock_sound:
  assumes "Semaphore_lock this n persist timeout s = Fin r t"
  shows "(r = 0 \<and> (took_unit this n (\<not> persist) s t \<or> err t = EIDRM \<and> only_env s t)) \<or>
    (r \<in> {- 1, 1} \<and> only_env s t)"
  using assms by (rule Semaphore_lock_outcome)

lemma lock_sound_witness:
  "took_unit sem_obj 0 False (sem_state 2) (add_to sem_obj 0 False (- 1) (sem_state 2))"
proof -
  have run: "Semaphore_lock sem_obj 0 True 0 (sem_state 2) = Fin 0 (add_to sem_obj 0 False (- 1) (sem_state 2))"
    by (subst Semaphore_lock_free) simp_all
  have "err (add_to sem_obj 0 False (- 1) (sem_state 2)) \<noteq> EIDRM"
    by (simp add: add_to_def sem_state_def boot_os_def)
  with lock_sound [OF run] show ?thesis by simp
qed

text \<open>
  C34: a lock that was given a bound (any timeout but 0) always returns, with 0, 1 or -1,
  whatever the other processes do.
\<close>

theorem lock_bounded_returns:
  assumes "timeout \<noteq> 0"
  shows "\<exists>r t. Semaphore_lock this n persist timeout s = Fin r t \<and> r \<in> {- 1, 0, 1}"
proof -
  obtain r1 s1 where "semop (sem_id this) (op_of n (- 1) (\<not> persist) True) s = Fin r1 s1"
    using semop_nowait_returns [of "op_of n (- 1) (\<not> persist) True" "sem_id this" s] by auto
  then have "\<exists>r t. Semaphore_lock this n persist timeout s = Fin r t"
    using assms lock_attempts_returns [of this n "\<not> persist" "nat timeout" 1 s]
    by (cases "timeout = - 1") (simp_all add: Semaphore_lock_op run_simps)
  then obtain r t where run: "Semaphore_lock this n persist timeout s = Fin r t" by blast
  from Semaphore_lock_outcome [OF this] run show ?thesis by auto
qed

lemma lock_bounded_returns_witness:
  "\<exists>r t. Semaphore_lock sem_obj 0 True 5 (sem_state 0) = Fin r t \<and> r \<in> {- 1, 0, 1}"
  by (rule lock_bounded_returns) simp


text \<open>
  C36: the bounded wait is not just bounded: as soon as another process makes the semaphore free
  (here before attempt \<open>j + 1\<close>, with \<open>j\<close> below the timeout and nobody else acting in
  between), the lock is obtained, \<open>j\<close> seconds after the call.
\<close>

theorem lock_live:
  assumes "script s = replicate (2 * j) idle @ (mv, None) # evs" and "int j < timeout"
    and "has_sem (ker s) (sem_id this) (unat n)" and "value_of this n s = 0"
    and "k = mv ((ker s)\<lparr>clock := clock (ker s) + int j\<rparr>)"
    and "has_sem k (sem_id this) (unat n)" and "sem_value k (sem_id this) (unat n) \<in> {0 <.. semvmx k}"
  shows "\<exists>t. Semaphore_lock this n persist timeout s = Fin 0 t \<and>
    ker t = sem_add (pid_self s) (\<not> persist) (sem_id this) (unat n) (- 1) k"
proof -
  have "j < nat timeout" "timeout \<noteq> 0" "timeout \<noteq> - 1" using assms(2) by simp_all
  with lock_attempts_live [OF assms(1), of "nat timeout" this n "\<not> persist" 1] assms(3-7)
  show ?thesis by (simp add: Semaphore_lock_op)
qed

lemma lock_live_witness:
  "\<exists>t. Semaphore_lock sem_obj 0 True 5
     ((sem_state 0)\<lparr>script := replicate 6 idle @ [(\<lambda>k. sem_add 200 False 0 0 1 k, None)]\<rparr>) = Fin 0 t \<and>
     clock (ker t) = 1003 \<and> sem_value (ker t) 0 0 = 0"
proof -
  let ?s = "(sem_state 0)\<lparr>script := replicate 6 idle @ [(\<lambda>k. sem_add 200 False 0 0 1 k, None)]\<rparr>"
  let ?k = "sem_add 200 False 0 0 1 ((one_sem 0)\<lparr>clock := 1003\<rparr>)"
  have v: "int (sem_value ?k 0 0) = 1"
    using sem_value_add [of "(one_sem 0)\<lparr>clock := 1003\<rparr>" 0 0 1 200 False] by simp
  then have v1: "sem_value ?k 0 0 = 1" by simp
  have "\<exists>t. Semaphore_lock sem_obj 0 True 5 ?s = Fin 0 t \<and>
      ker t = sem_add (pid_self ?s) False (sem_id sem_obj) (unat (0 :: u16)) (- 1) ?k"
    using lock_live [of ?s 3 "\<lambda>k. sem_add 200 False 0 0 1 k" "[]" 5 sem_obj 0 ?k True]
    by (simp add: v1)
  moreover have "int (sem_value (sem_add p u 0 0 (- 1) ?k) 0 0) = 0" for p u
    using sem_value_add [of ?k 0 0 "- 1" p u] v1 by simp
  ultimately show ?thesis by auto
qed

text \<open>
  C7: unlocking in a quiet system gives one unit back when one is in use and fails with -1 when
  none is; so the value never passes the size the object knows.
\<close>

theorem unlock_quiet:
  assumes "sem_ok this n s" and "unat (sem_size this) \<le> semvmx (ker s)"
  shows "Semaphore_unlock this n persist s =
    (if value_of this n s < unat (sem_size this) then Fin 0 (add_to this n (\<not> persist) 1 s)
     else Fin (- 1) s)"
  using assms Semaphore_unlock_used [of this n s persist] Semaphore_unlock_unused [of this n s persist]
  by (auto simp: not_less)

lemma unlock_quiet_witness:
  "Semaphore_unlock sem_obj 0 True (sem_state 1) = Fin 0 (add_to sem_obj 0 False 1 (sem_state 1))"
  by (subst unlock_quiet) simp_all

text \<open>
  locking a free semaphore and unlocking it again leaves the whole system as it was,
  the kernel's record of adjustments included, for every timeout that tries at all.
\<close>

theorem lock_unlock_identity:
  assumes "sem_ok this n s" and "0 < value_of this n s" and "value_of this n s \<le> unat (sem_size this)"
    and "- 1 \<le> timeout"
  shows "bindr (Semaphore_lock this n persist timeout) (\<lambda>_. Semaphore_unlock this n persist) s = Fin 0 s"
proof -
  let ?t = "add_to this n (\<not> persist) (- 1) s"
  have "int (value_of this n s) \<le> int (semvmx (ker s))" using assms(1) by (simp add: sem_ok_def)
  with assms sem_ok_add [OF assms(1), of "- 1" "\<not> persist"]
  have t: "sem_ok this n ?t" "int (value_of this n ?t) = int (value_of this n s) - 1" by simp_all
  moreover have "value_of this n ?t < semvmx (ker ?t)"
    using assms(1,2) by (auto simp: sem_ok_def add_to_def)
  ultimately have "Semaphore_unlock this n persist ?t = Fin 0 (add_to this n (\<not> persist) 1 ?t)"
    using Semaphore_unlock_used [of this n ?t persist] assms(3) by simp
  then show ?thesis
    using Semaphore_lock_free [OF assms(1,2,4), of persist] add_to_back [OF assms(1), of "- 1"] assms(2)
    by (simp add: run_simps)
qed

lemma lock_unlock_identity_witness:
  "bindr (Semaphore_lock sem_obj 0 False 7) (\<lambda>_. Semaphore_unlock sem_obj 0 False) (sem_state 2) =
     Fin 0 (sem_state 2)"
  by (rule lock_unlock_identity) simp_all

text \<open>
  C27: refinement. Any sequence of non-blocking locks and unlocks returns exactly what a counting
  semaphore of the object's size returns, and leaves the value that one has.
\<close>

theorem lock_trace_refines:
  assumes "sem_ok this n s" and "value_of this n s \<le> unat (sem_size this)"
    and "unat (sem_size this) \<le> semvmx (ker s)"
  shows "\<exists>t. run_trace this n qs s = Fin (fst (spec_trace (unat (sem_size this)) (value_of this n s) qs)) t \<and>
    value_of this n t = snd (spec_trace (unat (sem_size this)) (value_of this n s) qs)"
  using run_trace_refines [OF assms, of qs] by (metis fst_conv snd_conv)

lemma lock_trace_refines_witness:
  "\<exists>t. run_trace sem_obj 0 [Try_lock, Try_lock, Try_lock, Unlock] (sem_state 2) = Fin [0, 0, 1, 0] t \<and>
     value_of sem_obj 0 t = 1"
  using lock_trace_refines [of sem_obj 0 "sem_state 2" "[Try_lock, Try_lock, Try_lock, Unlock]"]
  by simp

text \<open>
  at most \<open>size\<close> holders. From a semaphore with all units free, after any sequence of
  locks and unlocks the successful locks not yet undone number exactly the units in use, between
  0 and the size; for a semaphore of size 1 that is mutual exclusion.
\<close>

theorem holders_bounded:
  assumes "sem_ok this n s" and "value_of this n s = unat (sem_size this)"
    and "unat (sem_size this) \<le> semvmx (ker s)"
    and "run_trace this n qs s = Fin rs t"
  shows "0 \<le> outstanding qs rs \<and> outstanding qs rs \<le> int (unat (sem_size this)) \<and>
    outstanding qs rs = int (unat (sem_size this)) - int (value_of this n t)"
proof -
  obtain rs' u where u: "run_trace this n qs s = Fin rs' u"
      "(rs', value_of this n u) = spec_trace (unat (sem_size this)) (value_of this n s) qs"
    using run_trace_refines [of this n s qs] assms(1-3) by auto
  have "snd (spec_trace (unat (sem_size this)) (value_of this n s) qs) \<le> unat (sem_size this)"
    "outstanding qs (fst (spec_trace (unat (sem_size this)) (value_of this n s) qs)) =
       int (value_of this n s) - int (snd (spec_trace (unat (sem_size this)) (value_of this n s) qs))"
    using spec_trace_bound [of "value_of this n s" "unat (sem_size this)" qs] assms(2) by simp_all
  with u(2) have "value_of this n u \<le> unat (sem_size this)"
    "outstanding qs rs' = int (value_of this n s) - int (value_of this n u)"
    by (metis fst_conv snd_conv)+
  with u(1) assms(4) have "value_of this n t \<le> unat (sem_size this)"
    "outstanding qs rs = int (value_of this n s) - int (value_of this n t)" by simp_all
  with assms(2) show ?thesis by (intro conjI) linarith+
qed

lemma holders_bounded_witness:
  "\<exists>rs t. run_trace sem_obj 0 [Try_lock, Unlock, Unlock] (sem_state 2) = Fin rs t \<and>
     0 \<le> outstanding [Try_lock, Unlock, Unlock] rs \<and> outstanding [Try_lock, Unlock, Unlock] rs \<le> 2"
proof -
  obtain rs t where run: "run_trace sem_obj 0 [Try_lock, Unlock, Unlock] (sem_state 2) = Fin rs t"
    using run_trace_refines [of sem_obj 0 "sem_state 2" "[Try_lock, Unlock, Unlock]"]
    by auto
  from holders_bounded [OF _ _ _ run] run show ?thesis by auto
qed


text \<open>
  unlocking is not atomic. It reads the value first and releases afterwards; when another
  process releases in between, both see the last unit in use and the value ends above the size.
\<close>

theorem unlock_races:
  assumes "script s = [idle, (sem_add p u (sem_id this) (unat n) 1, None)]"
    and "has_sem (ker s) (sem_id this) (unat n)"
    and "Suc (value_of this n s) = unat (sem_size this)" and "unat (sem_size this) < semvmx (ker s)"
  shows "\<exists>t. Semaphore_unlock this n persist s = Fin 0 t \<and>
    value_of this n t = Suc (unat (sem_size this))"
proof -
  let ?i = "sem_id this" and ?n = "unat n"
  let ?k = "sem_add p u ?i ?n 1 (ker s)"
  have lt: "sem_value ?k ?i ?n < semvmx (ker s)" using assms(2-4) by simp
  let ?s1 = "s\<lparr>script := [(sem_add p u ?i ?n 1, None)]\<rparr>"
  have "uint (sem_size this) - int (value_of this n s) = 1"
    using assms(3) unfolding uint_nat by linarith
  with assms(1,2) have "Semaphore_used this n s = Fin 1 ?s1"
    by (auto simp: Semaphore_used_def semctl_getval_def run_simps syscall_Cons idle_def elim!: has_semE)
  moreover have "semop ?i (op_of n 1 w False) ?s1 =
      Fin 0 (s\<lparr>script := [], ker := sem_add (pid_self s) w ?i ?n 1 ?k\<rparr>)" for w
    using assms(2) lt by (simp add: semop_def syscall_Cons sem_attempt_value Let_def)
  ultimately have "Semaphore_unlock this n persist s =
      Fin 0 (s\<lparr>script := [], ker := sem_add (pid_self s) (\<not> persist) ?i ?n 1 ?k\<rparr>)"
    by (simp add: Semaphore_unlock_op run_simps)
  moreover have "sem_value (sem_add q w ?i ?n 1 ?k) ?i ?n = Suc (unat (sem_size this))" for q w
    using assms(2,3) by simp
  ultimately show ?thesis by simp
qed

lemma unlock_races_witness:
  "\<exists>t. Semaphore_unlock sem_obj 0 True
     ((sem_state 1)\<lparr>script := [idle, (sem_add 200 False 0 0 1, None)]\<rparr>) = Fin 0 t \<and>
     value_of sem_obj 0 t = 3"
  using unlock_races [of "(sem_state 1)\<lparr>script := [idle, (sem_add 200 False 0 0 1, None)]\<rparr>" 200 False sem_obj 0 True]
  by simp

text \<open>
  the undo option. When the process that locked a semaphore ends, the unit it took comes
  back if it locked without \<open>persist\<close>, and stays taken if it locked with it.
\<close>

theorem lock_then_exit:
  assumes "sem_ok this n s" and "0 < value_of this n s"
    and "\<And>ss. sems (ker s) (sem_id this) = Some ss \<Longrightarrow> ss_adj ss (pid_self s) (unat n) = 0"
    and "Semaphore_lock this n persist 0 s = Fin 0 t"
  shows "value_of this n (exit_process t) = (if persist then value_of this n s - 1 else value_of this n s)"
proof -
  let ?v = "value_of this n s"
  have t: "t = add_to this n (\<not> persist) (- 1) s"
    using Semaphore_lock_free [OF assms(1,2), of 0 persist] assms(4) by simp
  from assms(1) obtain ss where ss: "sems (ker s) (sem_id this) = Some ss" "unat n < length (ss_vals ss)"
      "?v = ss_vals ss ! unat n" and le: "?v \<le> semvmx (ker s)"
    by (auto simp: sem_ok_def elim: has_semE)
  have adj: "ss_adj ss (pid_self s) (unat n) = 0" by (rule assms(3)) (rule ss(1))
  show ?thesis
    using ss le adj assms(2)
    by (auto simp: t exit_process_def add_to_def undo_all_def undo_set_def sem_add_def sem_value_def)
qed

lemma lock_then_exit_witness:
  "value_of sem_obj 0 (exit_process (add_to sem_obj 0 True (- 1) (sem_state 2))) = 2"
proof -
  have "Semaphore_lock sem_obj 0 False 0 (sem_state 2) = Fin 0 (add_to sem_obj 0 True (- 1) (sem_state 2))"
    by (subst Semaphore_lock_free) simp_all
  from lock_then_exit [OF _ _ _ this] show ?thesis by simp
qed

text \<open>
  C37: creating and attaching. A new semaphore under an unused key gets a set of the wanted
  count with every value at the wanted size; another process that attaches to the key finds the
  same set and count, but a size of 1 whatever the size is.
\<close>

theorem new_then_attach:
  assumes "can_make key cnt s" and "unat sz \<le> semvmx (ker s)"
  shows "\<exists>this t. Semaphore_new key cnt sz att s = Fin (Some this) t \<and>
    sem_count this = cnt \<and> sem_size this = sz \<and>
    (\<forall>n. unat n < unat cnt \<longrightarrow> sem_ok this n t \<and> value_of this n t = unat sz) \<and>
    Semaphore_attach key t = Fin (Some (this\<lparr>sem_size := 1\<rparr>)) t"
proof -
  let ?t = "s\<lparr>ker := new_set (made_set key cnt sz s) (ker s)\<rparr>"
  let ?obj = "\<lparr>sem_key = key, sem_id = int (next_sem (ker s)), sem_count = cnt, sem_size = sz\<rparr>"
  have val: "sem_ok ?obj n ?t \<and> value_of ?obj n ?t = unat sz" if "unat n < unat cnt" for n
    using that assms
    by (simp add: can_make_def sem_ok_def has_sem_def sem_value_def new_set_def made_set_def Let_def)
  have "word_of_int (int (length (ss_vals (made_set key cnt sz s)))) = cnt"
    by (simp add: made_set_def)
  with Semaphore_attach_names [OF names_made [OF assms(1)], of sz]
  have "Semaphore_attach key ?t = Fin (Some (?obj\<lparr>sem_size := 1\<rparr>)) ?t" by simp
  with Semaphore_new_made [OF assms, of att] val show ?thesis by (intro exI [of _ ?obj] exI [of _ ?t]) simp
qed

lemma can_make_boot: "can_make 5 1 boot_os"
  by (simp add: can_make_def key_ok_def SEMKEY_def boot_os_def boot_ipc_def IPC_PRIVATE_def)

lemma new_then_attach_witness:
  "\<exists>this t. Semaphore_new 5 1 3 False boot_os = Fin (Some this) t \<and> sem_size this = 3 \<and>
     value_of this 0 t = 3 \<and> Semaphore_attach 5 t = Fin (Some (this\<lparr>sem_size := 1\<rparr>)) t"
proof -
  have "unat (3 :: u16) \<le> semvmx (ker boot_os)" by (simp add: boot_os_def boot_ipc_def)
  from new_then_attach [OF can_make_boot this, of False] obtain obj t where
    "Semaphore_new 5 1 3 False boot_os = Fin (Some obj) t" "sem_size obj = 3"
    "\<forall>n. unat n < unat (1 :: u16) \<longrightarrow> sem_ok obj n t \<and> value_of obj n t = unat (3 :: u16)"
    "Semaphore_attach 5 t = Fin (Some (obj\<lparr>sem_size := 1\<rparr>)) t"
    by blast
  then show ?thesis by (intro exI [of _ obj] exI [of _ t]) (auto dest: spec [of _ 0])
qed

text \<open>
  a failed initialisation is not undone. With a size above the system's limit
  \<open>Semaphore$new\<close> returns NULL, yet the set it created stays: the key now exists, and a
  second attempt with a legal size fails because of it.
\<close>

theorem failed_new_leaves_set:
  assumes "can_make key cnt s" and "unat sz > semvmx (ker s)"
  shows "\<exists>t. Semaphore_new key cnt sz False s = Fin None t \<and>
    Semaphore_exists key t = Fin True t \<and>
    Semaphore_new key cnt sz' False t = Fin None (t\<lparr>err := EEXIST\<rparr>)"
proof -
  let ?t = "s\<lparr>ker := new_set (made_set key cnt 0 s) (ker s), err := ERANGE\<rparr>"
  have names: "names_set key (int (next_sem (ker s))) (made_set key cnt 0 s) ?t"
    using names_made [OF assms(1), of 0] by (simp add: names_set_def)
  show ?thesis
  proof (intro exI conjI)
    show "Semaphore_new key cnt sz False s = Fin None ?t" by (rule Semaphore_new_unmade [OF assms])
    show "Semaphore_exists key ?t = Fin True ?t" by (rule Semaphore_exists_names [OF names])
    show "Semaphore_new key cnt sz' False ?t = Fin None (?t\<lparr>err := EEXIST\<rparr>)"
      using Semaphore_new_exists [OF names, of cnt sz' False] by simp
  qed
qed

lemma failed_new_leaves_set_witness:
  "\<exists>t. Semaphore_new 5 1 40000 False boot_os = Fin None t \<and> Semaphore_exists 5 t = Fin True t"
proof -
  have "unat (40000 :: u16) > semvmx (ker boot_os)" by (simp add: boot_os_def boot_ipc_def)
  from failed_new_leaves_set [OF can_make_boot this, of 1] show ?thesis by blast
qed

text \<open>
  a blocking lock on a set that is removed while it waits returns 0, the result that its
  contract reserves for a lock that was made, although nothing was locked.
\<close>

theorem lock_removed_set:
  assumes "script s = [idle, (rm_set (sem_id this), None)]"
    and "has_sem (ker s) (sem_id this) (unat n)" and "value_of this n s = 0"
  shows "\<exists>t. Semaphore_lock this n persist 0 s = Fin 0 t \<and> err t = EIDRM \<and>
    \<not> has_sem (ker t) (sem_id this) (unat n)"
  using assms
  by (simp add: Semaphore_lock_op run_simps semop_def idle_def syscall_Cons sem_attempt_value Let_def
      rm_set_def has_sem_def)

lemma lock_removed_set_witness:
  "\<exists>t. Semaphore_lock sem_obj 0 True 0 ((sem_state 0)\<lparr>script := [idle, (rm_set 0, None)]\<rparr>) = Fin 0 t \<and>
     err t = EIDRM"
  using lock_removed_set [of "(sem_state 0)\<lparr>script := [idle, (rm_set 0, None)]\<rparr>" sem_obj 0 True] by auto

end
