(* ===== verification/Contention.thy ===== *)
theory Contention
  imports Semaphore
begin

text \<open>
  Many processes at one semaphore at the same time. The steps are the system calls that the methods
  of \<open>Semaphore.c\<close> make, in any order among the processes: a lock is one call, an unlock is two (it looks at
  the value, then gives its unit back), and a process may end anywhere. What follows from the
  steps is proved by rule induction over the reachable worlds.
\<close>

section \<open>The steps\<close>

text \<open>
  A process is away from the resource, inside, on its way out (with the number of used units it
  has seen), or ended (and it left its unit taken, or not). The world is the kernel and the processes.
\<close>

datatype phase = Away | Inside | Leaving int | Ended bool

type_synonym world = "ipc \<times> (nat \<Rightarrow> phase)"

text \<open>The view process \<open>p\<close> has of the kernel \<open>k\<close> while it makes a call.\<close>

definition view :: "'z os_scheme \<Rightarrow> nat \<Rightarrow> ipc \<Rightarrow> 'z os_scheme" where
  "view s p k = s\<lparr>ker := k, pid_self := p, script := []\<rparr>"

lemma view_sel [simp]:
  "ker (view s p k) = k" "pid_self (view s p k) = p" "script (view s p k) = []" "next_addr (view s p k) = next_addr s"
  "attached (view s p k) = attached s"
  by (simp_all add: view_def)

text \<open>\<open>Semaphore$unlock\<close> after its first call.\<close>

definition unlock_seen :: "Semaphore \<Rightarrow> u16 \<Rightarrow> bool \<Rightarrow> int \<Rightarrow> 'z os_scheme \<Rightarrow> ('z os_scheme, int) run" where
  "unlock_seen this n persist used =
     (if used > 0 then bindr (semop (sem_id this) (op_of n 1 (\<not> persist) False)) (\<lambda>r. retr (if r \<noteq> 0 then - 1 else 0))
      else retr (- 1))"

lemma unlock_in_two: "Semaphore_unlock this n persist = bindr (Semaphore_used this n) (unlock_seen this n persist)"
  unfolding Semaphore_unlock_op unlock_seen_def ..

text \<open>
  A lock that blocks makes its step when it gets the semaphore; one that gives up is repeated by the
  bounded wait. A process that ends keeps its unit when it locked with \<open>persist\<close>.
\<close>

inductive act :: "Semaphore \<Rightarrow> u16 \<Rightarrow> bool \<Rightarrow> 'z os_scheme \<Rightarrow> world \<Rightarrow> world \<Rightarrow> bool"
  for this n persist s where
  enter: "ph p = Away \<Longrightarrow> timeout = LOCK_BLOCKING \<or> timeout = LOCK_NONBLOCK \<Longrightarrow>
     Semaphore_lock this n persist timeout (view s p k) = Fin 0 t \<Longrightarrow>
     act this n persist s (k, ph) (ker t, ph(p := Inside))"
| miss: "ph p = Away \<Longrightarrow> Semaphore_lock this n persist LOCK_NONBLOCK (view s p k) = Fin r t \<Longrightarrow> r \<noteq> 0 \<Longrightarrow>
     act this n persist s (k, ph) (ker t, ph)"
| look: "ph p = Inside \<Longrightarrow> Semaphore_used this n (view s p k) = Fin u t \<Longrightarrow>
     act this n persist s (k, ph) (ker t, ph(p := Leaving u))"
| leave: "ph p = Leaving u \<Longrightarrow> unlock_seen this n persist u (view s p k) = Fin r t \<Longrightarrow>
     act this n persist s (k, ph) (ker t, ph(p := (if r = 0 then Away else Inside)))"
| quit: "ph p \<notin> {Ended True, Ended False} \<Longrightarrow>
     act this n persist s (k, ph) (ker (exit_process (view s p k)), ph(p := Ended (persist \<and> ph p \<noteq> Away)))"

abbreviation acts :: "Semaphore \<Rightarrow> u16 \<Rightarrow> bool \<Rightarrow> 'z os_scheme \<Rightarrow> world \<Rightarrow> world \<Rightarrow> bool" where
  "acts this n persist s \<equiv> (act this n persist s)\<^sup>*\<^sup>*"

section \<open>What each step does to the kernel\<close>

fun inside :: "phase \<Rightarrow> bool" where
  "inside Inside = True"
| "inside (Leaving _) = True"
| "inside _ = False"

fun holds :: "phase \<Rightarrow> bool" where
  "holds (Ended b) = b"
| "holds ph = inside ph"

definition holders :: "world \<Rightarrow> nat set" where
  "holders w = {p. holds (snd w p)}"

definition adj_of :: "ipc \<Rightarrow> int \<Rightarrow> nat \<Rightarrow> nat \<Rightarrow> int" where
  "adj_of k i p n = (case sems k i of None \<Rightarrow> 0 | Some ss \<Rightarrow> ss_adj ss p n)"

lemma adj_of_add [simp]:
  "has_sem k i n \<Longrightarrow> adj_of (sem_add p u i n d k) i q n = (if u \<and> q = p then adj_of k i q n - d else adj_of k i q n)"
  by (auto simp: adj_of_def sem_add_def elim!: has_semE)

lemma adj_of_undo [simp]: "adj_of (undo_all p k) i q n = (if q = p then 0 else adj_of k i q n)"
  by (simp add: adj_of_def undo_all_def undo_set_def split: option.split)

lemma semvmx_undo [simp]: "semvmx (undo_all p k) = semvmx k"
  by (simp add: undo_all_def)

lemma adj_of_detach [simp]: "adj_of (detach_upto m at k) i q n = adj_of k i q n"
  by (simp add: adj_of_def)

lemma sem_value_detach: "sem_value (detach_upto m at k) i n = sem_value k i n"
  by (simp add: sem_value_def)

lemma has_sem_detach: "has_sem (detach_upto m at k) i n = has_sem k i n"
  by (simp add: has_sem_def)

lemma sem_ok_view [simp]:
  "sem_ok this n (view s p k) \<longleftrightarrow> has_sem k (sem_id this) (unat n) \<and> sem_value k (sem_id this) (unat n) \<le> semvmx k"
  by (simp add: sem_ok_def)

text \<open>The invariant: free units and units in use make up the size, and the kernel knows who has to give one back.\<close>

definition balanced :: "Semaphore \<Rightarrow> u16 \<Rightarrow> bool \<Rightarrow> world \<Rightarrow> bool" where
  "balanced this n persist w \<longleftrightarrow>
     has_sem (fst w) (sem_id this) (unat n) \<and> unat (sem_size this) \<le> semvmx (fst w) \<and> finite (holders w) \<and>
     sem_value (fst w) (sem_id this) (unat n) + card (holders w) = unat (sem_size this) \<and>
     (\<forall>p. adj_of (fst w) (sem_id this) p (unat n) = (if \<not> persist \<and> inside (snd w p) then 1 else 0)) \<and>
     (\<forall>p u. snd w p = Leaving u \<longrightarrow> 0 < u) \<and> (\<forall>p. snd w p = Ended True \<longrightarrow> persist)"

lemma balancedI:
  assumes "has_sem k (sem_id this) (unat n)" and "unat (sem_size this) \<le> semvmx k"
    and "finite (holders (k, ph))" and "sem_value k (sem_id this) (unat n) + card (holders (k, ph)) = unat (sem_size this)"
    and "\<And>p. adj_of k (sem_id this) p (unat n) = (if \<not> persist \<and> inside (ph p) then 1 else 0)"
    and "\<And>p u. ph p = Leaving u \<Longrightarrow> 0 < u" and "\<And>p. ph p = Ended True \<Longrightarrow> persist"
  shows "balanced this n persist (k, ph)"
  using assms by (simp add: balanced_def)

lemma holders_upd: "holders (k, ph(p := x)) = (if holds x then insert p (holders (k', ph)) else holders (k', ph) - {p})"
  by (auto simp: holders_def)

lemma card_less_holder: "finite H \<Longrightarrow> p \<in> H \<Longrightarrow> Suc (v + (card H - Suc 0)) = v + card H"
  using card_gt_0_iff [of H] by auto

lemma lock_view:
  assumes "balanced this n persist (k, ph)" and "timeout = LOCK_BLOCKING \<or> timeout = LOCK_NONBLOCK"
    and "Semaphore_lock this n persist timeout (view s p k) = Fin r t"
  shows "if r = 0 then 0 < sem_value k (sem_id this) (unat n) \<and> ker t = sem_add p (\<not> persist) (sem_id this) (unat n) (- 1) k
         else ker t = k"
proof -
  have ok: "sem_ok this n (view s p k)" and to: "- 1 \<le> timeout"
    using assms(1,2) by (auto simp: balanced_def LOCK_BLOCKING_def LOCK_NONBLOCK_def)
  show ?thesis
  proof (cases "0 < sem_value k (sem_id this) (unat n)")
    case True
    with assms(3) Semaphore_lock_free [OF ok _ to, of persist] show ?thesis by (auto simp: add_to_def)
  next
    case False
    with assms(2,3) Semaphore_lock_taken [OF ok, of persist timeout] show ?thesis
      by (auto simp: LOCK_BLOCKING_def LOCK_NONBLOCK_def)
  qed
qed

lemma look_view:
  assumes "balanced this n persist (k, ph)" and "Semaphore_used this n (view s p k) = Fin u t" and "inside (ph p)"
  shows "ker t = k \<and> 0 < u"
proof -
  have ok: "sem_ok this n (view s p k)" using assms(1) by (auto simp: balanced_def)
  have "p \<in> holders (k, ph)" using assms(3) by (cases "ph p") (auto simp: holders_def)
  with assms(1) have "0 < card (holders (k, ph))" by (auto simp: balanced_def card_gt_0_iff)
  with assms(1) have "sem_value k (sem_id this) (unat n) < unat (sem_size this)" by (simp add: balanced_def)
  then have "int (sem_value k (sem_id this) (unat n)) < uint (sem_size this)" unfolding uint_nat by linarith
  with assms(2) Semaphore_used_ok [OF ok] show ?thesis by auto
qed

lemma leave_view:
  assumes "balanced this n persist (k, ph)" and "ph p = Leaving u"
  shows "unlock_seen this n persist u (view s p k) =
    Fin 0 (view s p (sem_add p (\<not> persist) (sem_id this) (unat n) 1 k))"
proof -
  have ok: "sem_ok this n (view s p k)" and u: "0 < u" using assms by (auto simp: balanced_def)
  have "p \<in> holders (k, ph)" using assms(2) by (simp add: holders_def)
  with assms(1) have "0 < card (holders (k, ph))" by (auto simp: balanced_def card_gt_0_iff)
  with assms(1) have "sem_value k (sem_id this) (unat n) < semvmx k" by (simp add: balanced_def)
  with semop_give [OF ok, of "\<not> persist" False] u show ?thesis
    by (simp add: unlock_seen_def run_simps add_to_def) (simp add: view_def)
qed

section \<open>The invariant\<close>

lemma act_balanced:
  assumes "act this n persist s w w'" and "balanced this n persist w"
  shows "balanced this n persist w'"
  using assms
proof (induction rule: act.induct)
  case (enter ph p timeout k t)
  have v: "0 < sem_value k (sem_id this) (unat n)" "ker t = sem_add p (\<not> persist) (sem_id this) (unat n) (- 1) k"
    using lock_view [OF enter.prems enter.hyps(2,3)] by simp_all
  have new: "p \<notin> holders (k, ph)" using enter.hyps(1) by (simp add: holders_def)
  from enter.prems v new enter.hyps(1) show ?case
    by (intro balancedI) (auto simp: balanced_def holders_upd [where k' = k] split: if_splits)
next
  case (miss ph p k r t)
  with lock_view [OF miss.prems _ miss.hyps(2)] show ?case by simp
next
  case (look ph p k u t)
  have "ker t = k" "0 < u" using look_view [OF look.prems look.hyps(2)] look.hyps(1) by simp_all
  moreover have "p \<in> holders (k, ph)" using look.hyps(1) by (simp add: holders_def)
  ultimately show ?case using look.prems look.hyps(1)
    by (intro balancedI) (auto simp: balanced_def holders_upd [where k' = k] insert_absorb split: if_splits)
next
  case (leave ph p u k r t)
  have r: "r = 0" and t: "ker t = sem_add p (\<not> persist) (sem_id this) (unat n) 1 k"
    using leave_view [OF leave.prems leave.hyps(1), where s = s] leave.hyps(2) by auto
  have "p \<in> holders (k, ph)" using leave.hyps(1) by (simp add: holders_def)
  with leave.prems leave.hyps(1) r t show ?case
    by (intro balancedI) (auto simp: balanced_def holders_upd [where k' = k] card_less_holder split: if_splits)
next
  case (quit ph p k)
  let ?k = "detach_upto (next_addr s) (attached s) (undo_all p k)"
  let ?b = "if \<not> persist \<and> inside (ph p) then 1 else 0 :: nat"
  have k: "ker (exit_process (view s p k)) = ?k" by (simp add: exit_process_def)
  have h: "p \<in> holders (k, ph) \<longleftrightarrow> inside (ph p)" using quit.hyps by (cases "ph p") (auto simp: holders_def)
  have "sem_value k (sem_id this) (unat n) + ?b \<le> semvmx k"
  proof (cases "?b = 0")
    case False
    with h quit.prems have "0 < card (holders (k, ph))" by (auto simp: balanced_def card_gt_0_iff split: if_splits)
    with quit.prems show ?thesis by (auto simp: balanced_def)
  qed (use quit.prems in \<open>auto simp: balanced_def\<close>)
  with quit.prems have v: "sem_value ?k (sem_id this) (unat n) = sem_value k (sem_id this) (unat n) + ?b"
    using sem_value_undo [of k "sem_id this" "unat n" p]
    by (auto simp: balanced_def adj_of_def sem_value_detach)
  have a: "adj_of ?k (sem_id this) q (unat n) =
      (if \<not> persist \<and> inside ((ph(p := Ended (persist \<and> ph p \<noteq> Away))) q) then 1 else 0)" for q
    using quit.prems by (simp add: balanced_def)
  have away: "ph p = Away \<longleftrightarrow> \<not> inside (ph p)" using quit.hyps by (cases "ph p") auto
  show ?case unfolding k
    using quit.prems h v a away quit.hyps
    by (intro balancedI) (auto simp: balanced_def holders_upd [where k' = k] insert_absorb card_less_holder
        has_sem_detach split: if_splits)
qed

lemma acts_balanced: "acts this n persist s w w' \<Longrightarrow> balanced this n persist w \<Longrightarrow> balanced this n persist w'"
  by (induction rule: rtranclp_induct) (auto intro: act_balanced)

text \<open>All units are free, nobody has to give one back, and every process is away.\<close>

definition fresh :: "Semaphore \<Rightarrow> u16 \<Rightarrow> world \<Rightarrow> bool" where
  "fresh this n w \<longleftrightarrow> has_sem (fst w) (sem_id this) (unat n) \<and>
     sem_value (fst w) (sem_id this) (unat n) = unat (sem_size this) \<and> unat (sem_size this) \<le> semvmx (fst w) \<and>
     (\<forall>p. adj_of (fst w) (sem_id this) p (unat n) = 0 \<and> snd w p = Away)"

lemma fresh_balanced: "fresh this n w \<Longrightarrow> balanced this n persist w"
  by (simp add: fresh_def balanced_def holders_def)

lemmas reached = acts_balanced [OF _ fresh_balanced]

section \<open>Progress\<close>

lemma can_enter:
  assumes "balanced this n persist (k, ph)" and "ph p = Away" and "0 < sem_value k (sem_id this) (unat n)"
  shows "\<exists>k'. act this n persist s (k, ph) (k', ph(p := Inside))"
proof -
  have "sem_ok this n (view s p k)" using assms(1) by (auto simp: balanced_def)
  from Semaphore_lock_free [OF this, of "- 1" persist] assms(3)
  have "Semaphore_lock this n persist LOCK_NONBLOCK (view s p k) =
      Fin 0 (add_to this n (\<not> persist) (- 1) (view s p k))"
    by (simp add: LOCK_NONBLOCK_def)
  with assms(2) show ?thesis by (blast intro: act.enter)
qed

lemma can_leave:
  assumes "balanced this n persist (k, ph)" and "inside (ph p)"
  shows "\<exists>k'. acts this n persist s (k, ph) (k', ph(p := Away)) \<and>
    sem_value k' (sem_id this) (unat n) = Suc (sem_value k (sem_id this) (unat n))"
proof -
  let ?k = "sem_add p (\<not> persist) (sem_id this) (unat n) 1 k"
  have has: "has_sem k (sem_id this) (unat n)" using assms(1) by (simp add: balanced_def)
  have give: "act this n persist s (k, qh) (?k, qh(p := Away))" if "balanced this n persist (k, qh)" "qh p = Leaving u" for qh u
    using act.leave [where ph = qh and p = p and k = k and s = s, OF that(2) leave_view [OF that]] by simp
  show ?thesis
  proof (cases "ph p")
    case Inside
    have ok: "sem_ok this n (view s p k)" using assms(1) by (auto simp: balanced_def)
    obtain u where "act this n persist s (k, ph) (k, ph(p := Leaving u))"
      using act.look [where ph = ph and p = p and k = k and s = s, OF Inside Semaphore_used_ok [OF ok]] by auto
    with give [OF act_balanced [OF this assms(1)]]
    have "acts this n persist s (k, ph) (?k, ph(p := Away))"
      by (auto intro: converse_rtranclp_into_rtranclp)
    with has show ?thesis by auto
  next
    case (Leaving u)
    with give [OF assms(1)] has show ?thesis by auto
  qed (use assms(2) in auto)
qed

section \<open>Properties\<close>

text \<open>
  C10: mutual exclusion under every interleaving. From a semaphore with all units free, whatever the order in which
  the processes' calls happen and wherever processes end, the units in use and the free ones make up the size, so that
  at most that many processes are inside, and never two of them for a size of 1.
\<close>

theorem contention_excludes:
  assumes "fresh this n w" and "acts this n persist s w (k, ph)"
  shows "finite (holders (k, ph)) \<and> card (holders (k, ph)) \<le> unat (sem_size this) \<and>
    sem_value k (sem_id this) (unat n) = unat (sem_size this) - card (holders (k, ph)) \<and>
    (sem_size this = 1 \<and> inside (ph p) \<and> inside (ph q) \<longrightarrow> p = q)"
proof -
  have b: "balanced this n persist (k, ph)" using reached [OF assms(2,1)] .
  then have fin: "finite (holders (k, ph))" "card (holders (k, ph)) \<le> unat (sem_size this)"
    "sem_value k (sem_id this) (unat n) = unat (sem_size this) - card (holders (k, ph))"
    by (auto simp: balanced_def)
  have "p = q" if "sem_size this = 1" "inside (ph p)" "inside (ph q)"
  proof -
    have "{p, q} \<subseteq> holders (k, ph)" using that by (cases "ph p"; cases "ph q") (auto simp: holders_def)
    from card_mono [OF fin(1) this] fin(2) that(1) show ?thesis by (cases "p = q") auto
  qed
  with fin show ?thesis by blast
qed

lemma fresh_start: "fresh sem_obj 0 (one_sem 2, \<lambda>_. Away)"
  by (simp add: fresh_def adj_of_def sem_obj_def)

text \<open>Two processes get in, so that the hypotheses of the properties hold of a world in which the semaphore is used up.\<close>

lemma two_inside:
  "\<exists>k. acts sem_obj 0 persist (sem_state 2) (one_sem 2, \<lambda>_. Away) (k, (\<lambda>_. Away)(1 := Inside, 2 := Inside))"
proof -
  let ?act = "act sem_obj 0 persist (sem_state 2)"
  let ?w = "(one_sem 2, \<lambda>_. Away)"
  have b: "balanced sem_obj 0 persist ?w" by (rule fresh_balanced [OF fresh_start])
  from can_enter [OF this, where p = 1 and s = "sem_state 2"] obtain k1 where
    k1: "?act ?w (k1, (\<lambda>_. Away)(1 := Inside))" by (auto simp: sem_obj_def)
  have b1: "balanced sem_obj 0 persist (k1, (\<lambda>_. Away)(1 := Inside))" by (rule act_balanced [OF k1 b])
  have "holders (k1, (\<lambda>_. Away)(1 := Inside)) = {1}" by (auto simp: holders_def)
  with b1 have "0 < sem_value k1 (sem_id sem_obj) (unat (0 :: u16))" by (simp add: balanced_def sem_obj_def)
  from can_enter [OF b1 _ this, where p = 2 and s = "sem_state 2"] obtain k2 where
    "?act (k1, (\<lambda>_. Away)(1 := Inside)) (k2, (\<lambda>_. Away)(1 := Inside, 2 := Inside))" by auto
  with k1 show ?thesis by (blast intro: rtranclp.rtrancl_into_rtrancl)
qed

lemma contention_excludes_witness:
  "\<exists>k. acts sem_obj 0 True (sem_state 2) (one_sem 2, \<lambda>_. Away) (k, (\<lambda>_. Away)(1 := Inside, 2 := Inside)) \<and>
     sem_value k 0 0 = 0"
proof -
  obtain k where k: "acts sem_obj 0 True (sem_state 2) (one_sem 2, \<lambda>_. Away) (k, (\<lambda>_. Away)(1 := Inside, 2 := Inside))"
    using two_inside by blast
  have "holders (k, (\<lambda>_. Away)(1 := Inside, 2 := Inside)) = {1, 2}" by (auto simp: holders_def)
  with contention_excludes [OF fresh_start k] k show ?thesis by (auto simp: sem_obj_def)
qed

text \<open>
  who locked can unlock. Although an unlock is two calls and others act in between, a process that is inside
  never finds the semaphore unused, and giving the unit back never fails.
\<close>

theorem contention_unlock_succeeds:
  assumes "fresh this n w" and "acts this n persist s w (k, ph)" and "inside (ph p)"
  shows "(\<exists>u. 0 < u \<and> Semaphore_used this n (view s p k) = Fin u (view s p k)) \<and>
    (\<forall>u. ph p = Leaving u \<longrightarrow> (\<exists>t. unlock_seen this n persist u (view s p k) = Fin 0 t))"
proof -
  have b: "balanced this n persist (k, ph)" using reached [OF assms(2,1)] .
  then have "sem_ok this n (view s p k)" by (auto simp: balanced_def)
  note used = Semaphore_used_ok [OF this]
  from look_view [OF b used assms(3)] used leave_view [OF b] show ?thesis by blast
qed

lemma contention_unlock_succeeds_witness:
  "\<exists>k u. acts sem_obj 0 True (sem_state 2) (one_sem 2, \<lambda>_. Away) (k, (\<lambda>_. Away)(1 := Inside, 2 := Inside)) \<and>
     0 < u \<and> Semaphore_used sem_obj 0 (view (sem_state 2) 2 k) = Fin u (view (sem_state 2) 2 k)"
proof -
  obtain k where k: "acts sem_obj 0 True (sem_state 2) (one_sem 2, \<lambda>_. Away) (k, (\<lambda>_. Away)(1 := Inside, 2 := Inside))"
    using two_inside by blast
  with contention_unlock_succeeds [OF fresh_start k, where p = 2] show ?thesis by auto
qed

text \<open>
  C28: no process is shut out for good. When the units of processes that end come back (locked without
  \<open>persist\<close>) and the size is not 0, from every reachable world the others can go on so that a process that is
  away gets in.
\<close>

theorem contention_never_shuts_out:
  assumes "fresh this n w" and "acts this n False s w (k, ph)" and "ph p = Away" and "sem_size this \<noteq> 0"
  shows "\<exists>k' ph'. acts this n False s (k, ph) (k', ph') \<and> ph' p = Inside"
proof (cases "0 < sem_value k (sem_id this) (unat n)")
  case True
  from can_enter [OF reached [OF assms(2,1)] assms(3) this, where s = s] obtain k' where
    "act this n False s (k, ph) (k', ph(p := Inside))" by blast
  then have "acts this n False s (k, ph) (k', ph(p := Inside)) \<and> (ph(p := Inside)) p = Inside" by simp
  then show ?thesis by blast
next
  case False
  have b: "balanced this n False (k, ph)" using reached [OF assms(2,1)] .
  with False assms(4) have "0 < card (holders (k, ph))" by (simp add: balanced_def unat_gt_0)
  then obtain q where "holds (ph q)" by (auto simp: card_gt_0_iff holders_def)
  with b have q: "inside (ph q)" by (cases "ph q") (auto simp: balanced_def)
  from can_leave [OF b q, where s = s] obtain k1 where
    k1: "acts this n False s (k, ph) (k1, ph(q := Away))" "0 < sem_value k1 (sem_id this) (unat n)" by auto
  have "(ph(q := Away)) p = Away" using assms(3) by simp
  from can_enter [OF acts_balanced [OF k1(1) b] this k1(2), where s = s] obtain k2 where
    "act this n False s (k1, ph(q := Away)) (k2, ph(q := Away, p := Inside))" by blast
  with k1(1) have "acts this n False s (k, ph) (k2, ph(q := Away, p := Inside)) \<and>
      (ph(q := Away, p := Inside)) p = Inside"
    by (auto intro: rtranclp.rtrancl_into_rtrancl)
  then show ?thesis by blast
qed

lemma contention_never_shuts_out_witness:
  "\<exists>k k' ph'. acts sem_obj 0 False (sem_state 2) (one_sem 2, \<lambda>_. Away) (k, (\<lambda>_. Away)(1 := Inside, 2 := Inside)) \<and>
     acts sem_obj 0 False (sem_state 2) (k, (\<lambda>_. Away)(1 := Inside, 2 := Inside)) (k', ph') \<and> ph' 3 = Inside"
proof -
  obtain k where k: "acts sem_obj 0 False (sem_state 2) (one_sem 2, \<lambda>_. Away) (k, (\<lambda>_. Away)(1 := Inside, 2 := Inside))"
    using two_inside by blast
  with contention_never_shuts_out [OF fresh_start k, where p = 3] show ?thesis by (auto simp: sem_obj_def)
qed

end
