(* ===== verification/Cell_Store.thy ===== *)
theory Cell_Store
  imports Prelude
begin

text \<open>
  The interface between the shared memory class and the commands that keep their records in it
  (\<open>lock\<close>, \<open>daemonize\<close>, the register file of \<open>ia32emu\<close>): an array of unsigned
  integers that is read and written one cell at a time through a handle. The provider promises
  reads and writes of single cells; the clients get the laws of sequences of them.
\<close>

locale cell_store =
  fixes rd :: "'h \<Rightarrow> u16 \<Rightarrow> 's \<Rightarrow> ('s, u32) run"
    and wr :: "'h \<Rightarrow> u16 \<Rightarrow> u32 \<Rightarrow> 's \<Rightarrow> ('s, unit) run"
    and ready :: "'h \<Rightarrow> 's \<Rightarrow> bool"
    and view :: "'h \<Rightarrow> 's \<Rightarrow> u32 list"
    and same :: "'h \<Rightarrow> 's \<Rightarrow> 's \<Rightarrow> bool"
  assumes rd_ready: "ready h s \<Longrightarrow> unat i < length (view h s) \<Longrightarrow> rd h i s = Fin (view h s ! unat i) s"
    and wr_ready: "ready h s \<Longrightarrow> unat i < length (view h s) \<Longrightarrow>
      \<exists>t. wr h i v s = Fin () t \<and> ready h t \<and> view h t = (view h s)[unat i := v] \<and> same h s t"
    and same_refl: "same h s s"
    and same_trans: "same h s t \<Longrightarrow> same h t u \<Longrightarrow> same h s u"
begin

text \<open>A write that is within the array, as an elimination for sequences of writes.\<close>

lemma wrE:
  assumes "ready h s" and "unat i < length (view h s)"
  obtains t where "wr h i v s = Fin () t" "ready h t" "view h t = (view h s)[unat i := v]" "same h s t"
  using wr_ready [OF assms] by blast

lemma read_after_write:
  assumes "ready h s" and "unat i < length (view h s)" and "unat j < length (view h s)"
  shows "\<exists>t. bindr (wr h i v) (\<lambda>_. rd h j) s = Fin (if i = j then v else view h s ! unat j) t \<and>
    ready h t \<and> view h t = (view h s)[unat i := v] \<and> same h s t"
proof -
  obtain t where t: "wr h i v s = Fin () t" "ready h t" "view h t = (view h s)[unat i := v]" "same h s t"
    using assms(1,2) by (rule wrE)
  with assms have "rd h j t = Fin ((view h s)[unat i := v] ! unat j) t"
    using rd_ready [of h t j] by simp
  with t assms(2) show ?thesis by (auto simp: run_simps nth_list_update word_unat_eq_iff)
qed

text \<open>Read, change, write back: an update in place when nobody interferes.\<close>

lemma modify_cell:
  assumes "ready h s" and "unat i < length (view h s)"
  shows "\<exists>t. bindr (rd h i) (\<lambda>v. wr h i (f v)) s = Fin () t \<and> ready h t \<and>
    view h t = (view h s)[unat i := f (view h s ! unat i)] \<and> same h s t"
  using wr_ready [OF assms] by (simp add: run_simps rd_ready [OF assms])

text \<open>Writing consecutive cells from cell 0 on.\<close>

fun wr_list :: "'h \<Rightarrow> u16 \<Rightarrow> u32 list \<Rightarrow> 's \<Rightarrow> ('s, unit) run" where
  "wr_list h i [] = retr ()"
| "wr_list h i (v # vs) = bindr (wr h i v) (\<lambda>_. wr_list h (i + 1) vs)"

lemma wr_list_ready:
  assumes "ready h s" and "unat i + length vs \<le> length (view h s)" and "length (view h s) \<le> 65535"
  shows "\<exists>t. wr_list h i vs s = Fin () t \<and> ready h t \<and> same h s t \<and>
    view h t = take (unat i) (view h s) @ vs @ drop (unat i + length vs) (view h s)"
  using assms
proof (induction vs arbitrary: i s)
  case Nil
  then show ?case using same_refl by (simp add: run_simps)
next
  case (Cons v vs)
  let ?n = "unat i"
  have i: "?n < length (view h s)" using Cons.prems(2) by simp
  obtain t where t: "wr h i v s = Fin () t" "ready h t" "view h t = (view h s)[?n := v]" "same h s t"
    using Cons.prems(1) i by (rule wrE)
  have n: "unat (i + 1) = Suc ?n"
    using i Cons.prems(3) by (simp add: unat_word_ariths)
  have "\<exists>u. wr_list h (i + 1) vs t = Fin () u \<and> ready h u \<and> same h t u \<and>
      view h u = take (unat (i + 1)) (view h t) @ vs @ drop (unat (i + 1) + length vs) (view h t)"
    using Cons.prems n t(3) by (intro Cons.IH [OF t(2)]) simp_all
  then obtain u where u: "wr_list h (i + 1) vs t = Fin () u" "ready h u" "same h t u"
      "view h u = take (Suc ?n) (view h t) @ vs @ drop (Suc ?n + length vs) (view h t)"
    by (auto simp: n)
  have "take (Suc ?n) ((view h s)[?n := v]) = take ?n (view h s) @ [v]"
    using i by (simp add: take_Suc_conv_app_nth)
  moreover have "drop (Suc ?n + length vs) ((view h s)[?n := v]) = drop (Suc ?n + length vs) (view h s)"
    by simp
  ultimately have "view h u = take ?n (view h s) @ (v # vs) @ drop (?n + length (v # vs)) (view h s)"
    using u(4) t(3) by simp
  with u same_trans [OF t(4) u(3)] show ?case by (auto simp: run_simps t(1))
qed

end

end
