(* ===== verification/SharedMemory.thy ===== *)
theory SharedMemory
  imports Semaphore Cell_Store
begin

text \<open>
  The class of \<open>src/src/SharedMemory.h\<close> and \<open>src/src/SharedMemory.c\<close>: a segment of shared
  memory with a mutex (a \<open>Semaphore\<close> under the key \<open>key + 128\<close>) that guards each access.
\<close>

section \<open>The object\<close>

record SharedMemory =
  shm_key :: u32
  shm_id :: int
  shm_size :: nat
  shm_addr :: address
  shm_sem :: "Semaphore pointer"

definition SHMKEY :: "u32 \<Rightarrow> 'z os_scheme \<Rightarrow> u32" where
  "SHMKEY key s = ftok_of s Dev_zero (ucast key)"

lemma SHMKEY_upd [simp]:
  "SHMKEY key (s\<lparr>ker := k\<rparr>) = SHMKEY key s" "SHMKEY key (s\<lparr>err := e\<rparr>) = SHMKEY key s"
  by (simp_all add: SHMKEY_def)

text \<open>The key of the guarding semaphore.\<close>

definition guard_key :: "u32 \<Rightarrow> u32" where
  "guard_key key = key + 128"

text \<open>A pointer to the guarding semaphore is followed: fine only when it points to one.\<close>

definition deref_sem :: "SharedMemory \<Rightarrow> (Semaphore \<Rightarrow> 'z os_scheme \<Rightarrow> ('z os_scheme, 'a) run) \<Rightarrow>
    'z os_scheme \<Rightarrow> ('z os_scheme, 'a) run" where
  "deref_sem this f = (case shm_sem this of Obj sm \<Rightarrow> f sm | _ \<Rightarrow> stop Undefined)"

definition pointer_of :: "'a option \<Rightarrow> 'a pointer" where
  "pointer_of p = (case p of None \<Rightarrow> Null | Some x \<Rightarrow> Obj x)"

section \<open>Construction and destruction\<close>

definition SharedMemory_delete :: "SharedMemory \<Rightarrow> bool \<Rightarrow> 'z os_scheme \<Rightarrow> ('z os_scheme, unit) run" where
  "SharedMemory_delete this remove_shm_too =
     (if remove_shm_too then
        bindr (if shm_sem this \<noteq> Null then deref_sem this (\<lambda>sm. Semaphore_delete sm True) else retr ()) (\<lambda>_.
        bindr (mem_write (shm_addr this) 0 (replicate (shm_size this) 0)) (\<lambda>_.
        bindr mem_lock_call (\<lambda>_.
        bindr (shmdt (shm_addr this)) (\<lambda>_.
        bindr (shmctl_rmid (shm_id this)) (\<lambda>_. retr ())))))
      else
        (if shm_sem this \<noteq> Null then deref_sem this (\<lambda>sm. Semaphore_delete sm False) else retr ()))"

text \<open>
  The segment is created, or attached when it exists and the caller allows it. The result is the
  id, the address and whether all went well (\<open>success == EXIT_SUCCESS\<close>).
\<close>

definition SharedMemory_segment :: "u32 \<Rightarrow> nat \<Rightarrow> bool \<Rightarrow>
    'z os_scheme \<Rightarrow> ('z os_scheme, int \<times> address \<times> bool) run" where
  "SharedMemory_segment k sz attach =
     bindr (shmget k sz True) (\<lambda>i.
     if i \<noteq> - 1 then
       bindr (shmat i) (\<lambda>a. retr (i, a, a \<noteq> Addr_failed))
     else
       bindr (gets err) (\<lambda>e.
       if e = EEXIST \<and> attach then
         bindr (shmget k 0 False) (\<lambda>i'.
         if i' \<noteq> - 1 then bindr (shmat i') (\<lambda>a. retr (i', a, a \<noteq> Addr_failed))
         else retr (i', Addr_null, False))
       else retr (i, Addr_null, False)))"

definition SharedMemory_new :: "u32 \<Rightarrow> nat \<Rightarrow> bool \<Rightarrow>
    'z os_scheme \<Rightarrow> ('z os_scheme, SharedMemory option) run" where
  "SharedMemory_new key sz attach =
     bindr malloc (\<lambda>ok.
     if \<not> ok then retr None else
     bindr (gets (SHMKEY key)) (\<lambda>k.
     bindr (SharedMemory_segment k sz attach) (\<lambda>(i, a, success).
     let this = \<lparr>shm_key = key, shm_id = i, shm_size = sz, shm_addr = a, shm_sem = Null\<rparr> in
     bindr (if success then
              bindr (Semaphore_new (guard_key key) 1 1 attach) (\<lambda>p.
              let this = this\<lparr>shm_sem := pointer_of p\<rparr> in
              if p \<noteq> None then
                bindr mem_lock_call (\<lambda>r.
                if r \<noteq> EXIT_SUCCESS then
                  bindr mem_lock_call (\<lambda>r'. retr (this, r' = EXIT_SUCCESS))
                else retr (this, True))
              else retr (this, False))
            else retr (this, False))
       (\<lambda>(this, success).
        if \<not> success then bindr (SharedMemory_delete this False) (\<lambda>_. retr None)
        else bindr (assertr (shm_sem this \<noteq> Null)) (\<lambda>_. retr (Some this))))))"

text \<open>
  Attaching does not set the object's \<open>size\<close>: the field holds what \<open>malloc\<close> found there.
  When \<open>shmat\<close> fails the pointer to the semaphore is not set either.
\<close>

definition SharedMemory_attach :: "u32 \<Rightarrow> 'z os_scheme \<Rightarrow> ('z os_scheme, SharedMemory option) run" where
  "SharedMemory_attach key =
     bindr (gets (SHMKEY key)) (\<lambda>k.
     bindr (shmget k 0 False) (\<lambda>i.
     if i \<noteq> - 1 then
       bindr malloc (\<lambda>ok.
       if \<not> ok then stop Undefined else
       bindr (gets junk) (\<lambda>j.
       bindr (shmat i) (\<lambda>a.
       if a \<noteq> Addr_failed then
         bindr (Semaphore_attach (guard_key key)) (\<lambda>p.
         retr (Some \<lparr>shm_key = key, shm_id = i, shm_size = j, shm_addr = a, shm_sem = pointer_of p\<rparr>))
       else
         retr (Some \<lparr>shm_key = key, shm_id = i, shm_size = j, shm_addr = a, shm_sem = Wild\<rparr>))))
     else retr None))"

definition SharedMemory_get_size :: "SharedMemory \<Rightarrow> nat" where
  "SharedMemory_get_size this = shm_size this"

text \<open>The addresses that are printed have no number in the model.\<close>

definition SharedMemory_dump :: "SharedMemory \<Rightarrow> 'z os_scheme \<Rightarrow> ('z os_scheme, unit) run" where
  "SharedMemory_dump this =
     bindr (printf ''key: %d'' [sint (shm_key this)]) (\<lambda>_.
     bindr (printf ''id: %d'' [shm_id this]) (\<lambda>_.
     bindr (printf ''size: %zu'' [int (shm_size this)]) (\<lambda>_.
     bindr (printf ''addr: %p'' []) (\<lambda>_. printf ''shsem: %p'' []))))"

section \<open>Access\<close>

text \<open>\<open>this->size - offset\<close> in \<open>size_t\<close>, which wraps below zero.\<close>

definition room :: "SharedMemory \<Rightarrow> u16 \<Rightarrow> nat" where
  "room this offset =
     (if unat offset \<le> shm_size this then shm_size this - unat offset
      else 2 ^ 64 + shm_size this - unat offset)"

text \<open>
  Strings: \<open>text\<close> is what the format and its arguments expand to, without the final null
  byte. \<open>vsnprintf\<close> writes at most \<open>n - 1\<close> bytes and a null byte; \<open>strncpy\<close> copies up
  to a null byte and fills up with null bytes to \<open>n\<close>.
\<close>

definition vsnprintf_bytes :: "nat \<Rightarrow> u8 list \<Rightarrow> u8 list" where
  "vsnprintf_bytes n text = (if n = 0 then [] else take (n - 1) text @ [0])"

definition strncpy_bytes :: "nat \<Rightarrow> u8 list \<Rightarrow> u8 list" where
  "strncpy_bytes n bs = (let p = takeWhile (\<lambda>b. b \<noteq> 0) (take n bs) in p @ replicate (n - length p) 0)"

definition mem_strncpy :: "address \<Rightarrow> nat \<Rightarrow> nat \<Rightarrow> 'z os_scheme \<Rightarrow> ('z os_scheme, u8 list) run" where
  "mem_strncpy a off n s = (case interact s of (_, t) \<Rightarrow>
     (case seg_at a t of
        None \<Rightarrow> Stop Undefined t
      | Some (i, sg) \<Rightarrow>
          (let bs = drop off (sg_data sg) in
           if 0 \<in> set (take n bs) \<or> n \<le> length bs then Fin (strncpy_bytes n bs) t
           else Stop Undefined t)))"

definition SharedMemory_write :: "SharedMemory \<Rightarrow> u16 \<Rightarrow> u8 list \<Rightarrow>
    'z os_scheme \<Rightarrow> ('z os_scheme, unit) run" where
  "SharedMemory_write this offset text =
     deref_sem this (\<lambda>sm.
     bindr (Semaphore_lock sm 0 False 0) (\<lambda>e.
     bindr (assertr (e = 0)) (\<lambda>_.
     bindr (mem_write (shm_addr this) (unat offset) (vsnprintf_bytes (room this offset) text)) (\<lambda>r.
     bindr (Semaphore_unlock sm 0 False) (\<lambda>e.
     bindr (assertr (e = 0)) (\<lambda>_. retr r))))))"

definition SharedMemory_read :: "SharedMemory \<Rightarrow> u16 \<Rightarrow> 'z os_scheme \<Rightarrow> ('z os_scheme, u8 list) run" where
  "SharedMemory_read this offset =
     deref_sem this (\<lambda>sm.
     bindr (Semaphore_lock sm 0 False 0) (\<lambda>e.
     bindr (assertr (e = 0)) (\<lambda>_.
     bindr (mem_strncpy (shm_addr this) (unat offset) (room this offset)) (\<lambda>r.
     bindr (Semaphore_unlock sm 0 False) (\<lambda>e.
     bindr (assertr (e = 0)) (\<lambda>_. retr r))))))"

definition SharedMemory_write_uint :: "SharedMemory \<Rightarrow> u16 \<Rightarrow> u32 \<Rightarrow>
    'z os_scheme \<Rightarrow> ('z os_scheme, unit) run" where
  "SharedMemory_write_uint this offset n =
     deref_sem this (\<lambda>sm.
     bindr (Semaphore_lock sm 0 False 0) (\<lambda>e.
     bindr (assertr (e = 0)) (\<lambda>_.
     bindr (store_u32 (shm_addr this) (unat offset) n) (\<lambda>r.
     bindr (Semaphore_unlock sm 0 False) (\<lambda>e.
     bindr (assertr (e = 0)) (\<lambda>_. retr r))))))"

text \<open>The value is read after the semaphore has been released.\<close>

definition SharedMemory_read_uint :: "SharedMemory \<Rightarrow> u16 \<Rightarrow> 'z os_scheme \<Rightarrow> ('z os_scheme, u32) run" where
  "SharedMemory_read_uint this offset =
     deref_sem this (\<lambda>sm.
     bindr (Semaphore_lock sm 0 False 0) (\<lambda>e.
     bindr (assertr (e = 0)) (\<lambda>_.
     bindr (Semaphore_unlock sm 0 False) (\<lambda>e.
     bindr (assertr (e = 0)) (\<lambda>_.
     load_u32 (shm_addr this) (unat offset))))))"

text \<open>The 32-bit variants have the same bodies, \<open>unsigned int\<close> being 32 bits wide.\<close>

definition SharedMemory_write_uint32 :: "SharedMemory \<Rightarrow> u16 \<Rightarrow> u32 \<Rightarrow>
    'z os_scheme \<Rightarrow> ('z os_scheme, unit) run" where
  "SharedMemory_write_uint32 this offset n =
     deref_sem this (\<lambda>sm.
     bindr (Semaphore_lock sm 0 False 0) (\<lambda>e.
     bindr (assertr (e = 0)) (\<lambda>_.
     bindr (store_u32 (shm_addr this) (unat offset) n) (\<lambda>r.
     bindr (Semaphore_unlock sm 0 False) (\<lambda>e.
     bindr (assertr (e = 0)) (\<lambda>_. retr r))))))"

definition SharedMemory_read_uint32 :: "SharedMemory \<Rightarrow> u16 \<Rightarrow> 'z os_scheme \<Rightarrow> ('z os_scheme, u32) run" where
  "SharedMemory_read_uint32 this offset =
     deref_sem this (\<lambda>sm.
     bindr (Semaphore_lock sm 0 False 0) (\<lambda>e.
     bindr (assertr (e = 0)) (\<lambda>_.
     bindr (Semaphore_unlock sm 0 False) (\<lambda>e.
     bindr (assertr (e = 0)) (\<lambda>_.
     load_u32 (shm_addr this) (unat offset))))))"

section \<open>Every method keeps the kernel state well-formed\<close>

lemma keeps_deref [keeps]: "(\<And>sm. keeps (f sm) I) \<Longrightarrow> keeps (deref_sem this f) I"
  unfolding deref_sem_def by (auto intro: keeps split: pointer.split)

lemma keeps_mem_strncpy [keeps]: "keeps (mem_strncpy a off n) wf_os"
proof (rule keepsI)
  fix s :: "'a os_scheme" assume "wf_os s"
  then have "wf_os (snd (interact s))" by (rule wf_os_interact)
  then show "every (mem_strncpy a off n s) wf_os"
    by (auto simp: mem_strncpy_def Let_def split: prod.split option.split)
qed

lemma keeps_SharedMemory_delete [keeps]: "keeps (SharedMemory_delete this b) wf_os"
  unfolding SharedMemory_delete_def by (intro keeps)

lemma keeps_SharedMemory_segment [keeps]: "keeps (SharedMemory_segment q n a) wf_os"
  unfolding SharedMemory_segment_def by (intro keeps)

lemma keeps_SharedMemory_new [keeps]: "keeps (SharedMemory_new q n a) wf_os"
  unfolding SharedMemory_new_def Let_def split_def by (intro keeps)

lemma keeps_SharedMemory_attach [keeps]: "keeps (SharedMemory_attach q) wf_os"
  unfolding SharedMemory_attach_def by (intro keeps)

lemma keeps_SharedMemory_write [keeps]: "keeps (SharedMemory_write this n v) wf_os"
  unfolding SharedMemory_write_def by (intro keeps)

lemma keeps_SharedMemory_read [keeps]: "keeps (SharedMemory_read this n) wf_os"
  unfolding SharedMemory_read_def by (intro keeps)

lemma keeps_SharedMemory_write_uint [keeps]: "keeps (SharedMemory_write_uint this n v) wf_os"
  unfolding SharedMemory_write_uint_def by (intro keeps)

lemma keeps_SharedMemory_read_uint [keeps]: "keeps (SharedMemory_read_uint this n) wf_os"
  unfolding SharedMemory_read_uint_def by (intro keeps)

lemma keeps_SharedMemory_write_uint32 [keeps]: "keeps (SharedMemory_write_uint32 this n v) wf_os"
  unfolding SharedMemory_write_uint32_def by (intro keeps)

lemma keeps_SharedMemory_read_uint32 [keeps]: "keeps (SharedMemory_read_uint32 this n) wf_os"
  unfolding SharedMemory_read_uint32_def by (intro keeps)


section \<open>The segment as an array of cells\<close>

text \<open>
  An object is ready when its mutex is free for the caller and its address is attached; its
  cells are the segment's bytes read as unsigned integers.
\<close>

definition shm_ready :: "SharedMemory \<Rightarrow> 'z os_scheme \<Rightarrow> bool" where
  "shm_ready this s \<longleftrightarrow> (\<exists>sm. shm_sem this = Obj sm \<and> mutex_free sm s) \<and> seg_at (shm_addr this) s \<noteq> None"

definition shm_cells :: "SharedMemory \<Rightarrow> 'z os_scheme \<Rightarrow> u32 list" where
  "shm_cells this s = (case seg_at (shm_addr this) s of None \<Rightarrow> [] | Some (i, sg) \<Rightarrow> cells (sg_data sg))"

text \<open>States that differ only in what the object's segment holds.\<close>

definition set_data :: "SharedMemory \<Rightarrow> u8 list \<Rightarrow> 'z os_scheme \<Rightarrow> 'z os_scheme" where
  "set_data this bs s = (case seg_at (shm_addr this) s of None \<Rightarrow> s
     | Some (i, sg) \<Rightarrow> s\<lparr>ker := (ker s)\<lparr>segs := (segs (ker s))(i \<mapsto> sg\<lparr>sg_data := bs\<rparr>)\<rparr>\<rparr>)"

definition same_but_data :: "SharedMemory \<Rightarrow> 'z os_scheme \<Rightarrow> 'z os_scheme \<Rightarrow> bool" where
  "same_but_data this s t \<longleftrightarrow> (\<exists>bs. t = set_data this bs s \<and>
     (\<forall>i sg. seg_at (shm_addr this) s = Some (i, sg) \<longrightarrow> length bs = length (sg_data sg)))"

lemma seg_at_segs: "seg_at a (s\<lparr>ker := (ker s)\<lparr>segs := (segs (ker s))(i \<mapsto> sg)\<rparr>\<rparr>) =
    (case seg_at a s of None \<Rightarrow> (case a of Addr n \<Rightarrow> if attached s n = Some i then Some (i, sg) else None | _ \<Rightarrow> None)
     | Some (j, sg') \<Rightarrow> Some (j, if j = i then sg else sg'))"
  by (auto simp: seg_at_def split: address.split option.split)

lemma seg_at_set_data:
  "seg_at (shm_addr this) s = Some (i, sg) \<Longrightarrow>
    seg_at (shm_addr this) (set_data this bs s) = Some (i, sg\<lparr>sg_data := bs\<rparr>)"
  by (simp add: set_data_def seg_at_segs)

lemma seg_at_add_to [simp]: "seg_at a (add_to sm n u d s) = seg_at a s"
proof -
  have "segs (ker (add_to sm n u d s)) = segs (ker s)" "attached (add_to sm n u d s) = attached s"
    by (simp_all add: add_to_def)
  then show ?thesis by (simp add: seg_at_def split: address.split option.split)
qed

lemma add_to_script [simp]: "script (add_to sm n u d s) = script s"
  by (simp add: add_to_def)

lemma seg_at_Some_segs: "seg_at a s = Some (i, sg) \<Longrightarrow> segs (ker s) i = Some sg"
  by (auto simp: seg_at_def split: address.splits option.splits)

lemma set_data_set_data [simp]: "set_data this bs (set_data this bs' s) = set_data this bs s"
  by (cases "seg_at (shm_addr this) s") (auto simp: set_data_def seg_at_segs)

lemma set_data_id: "seg_at (shm_addr this) s = Some (i, sg) \<Longrightarrow> set_data this (sg_data sg) s = s"
proof -
  assume a: "seg_at (shm_addr this) s = Some (i, sg)"
  then have "segs (ker s) i = Some sg" by (rule seg_at_Some_segs)
  then have "(segs (ker s))(i \<mapsto> sg) = segs (ker s)" by (rule fun_upd_idem)
  with a show ?thesis by (simp add: set_data_def)
qed

lemma mutex_free_set_data [simp]: "mutex_free sm (set_data this bs s) = mutex_free sm s"
  by (simp add: set_data_def split: option.split prod.split)

lemma shm_ready_set_data: "shm_ready this s \<Longrightarrow> shm_ready this (set_data this bs s)"
  by (auto simp: shm_ready_def seg_at_set_data)

lemma same_but_data_refl: "same_but_data this s s"
proof (cases "seg_at (shm_addr this) s")
  case None
  then show ?thesis by (simp add: same_but_data_def set_data_def)
next
  case (Some p)
  then obtain i sg where p: "seg_at (shm_addr this) s = Some (i, sg)" by (cases p) simp
  then show ?thesis
    unfolding same_but_data_def by (intro exI [of _ "sg_data sg"]) (simp add: set_data_id)
qed

lemma same_but_data_trans:
  assumes "same_but_data this s t" and "same_but_data this t u"
  shows "same_but_data this s u"
proof (cases "seg_at (shm_addr this) s")
  case None
  with assms show ?thesis by (auto simp: same_but_data_def set_data_def)
next
  case (Some p)
  then obtain i sg where p: "seg_at (shm_addr this) s = Some (i, sg)" by (cases p) simp
  from assms(1) obtain bs where bs: "t = set_data this bs s" "length bs = length (sg_data sg)"
    using p by (auto simp: same_but_data_def)
  from assms(2) obtain bs' where "u = set_data this bs' t" "length bs' = length bs"
    using seg_at_set_data [OF p, of bs] bs(1) by (auto simp: same_but_data_def)
  with p bs show ?thesis by (auto simp: same_but_data_def)
qed

text \<open>What a guarded access does to the bytes of a ready object.\<close>

lemma guarded_write:
  assumes sem: "shm_sem this = Obj sm" and free: "mutex_free sm s"
    and seg: "seg_at (shm_addr this) s = Some (i, sg)" and fits: "off + length bs \<le> length (sg_data sg)"
  shows "bindr (Semaphore_lock sm 0 False 0) (\<lambda>e. bindr (assertr (e = 0)) (\<lambda>_.
      bindr (mem_write (shm_addr this) off bs) (\<lambda>r. bindr (Semaphore_unlock sm 0 False) (\<lambda>e.
      bindr (assertr (e = 0)) (\<lambda>_. retr r))))) s =
    Fin () (set_data this (overwrite off bs (sg_data sg)) s)"
proof -
  let ?sg = "sg\<lparr>sg_data := overwrite off bs (sg_data sg)\<rparr>"
  let ?g = "\<lambda>s :: 'a os_scheme. s\<lparr>ker := (ker s)\<lparr>segs := (segs (ker s))(i \<mapsto> ?sg)\<rparr>\<rparr>"
  have frame: "seg_frame ?g"
    unfolding seg_frame_def by (rule exI [of _ "\<lambda>m. m(i \<mapsto> ?sg)"]) simp
  have "script s = []" using free by (simp add: mutex_free_def sem_ok_def)
  then have "mem_write (shm_addr this) off bs (add_to sm 0 True (- 1) s) = Fin () (?g (add_to sm 0 True (- 1) s))"
    using seg fits by (simp add: mem_write_def interact_def)
  with sem_cs.guarded [where g = ?g and body = "mem_write (shm_addr this) off bs", OF free frame] seg
  show ?thesis by (simp add: set_data_def)
qed

lemma SharedMemory_write_uint_ready:
  assumes "shm_ready this s" and "seg_at (shm_addr this) s = Some (i, sg)"
    and "unat n < length (sg_data sg) div 4"
  shows "SharedMemory_write_uint this n v s =
    Fin () (set_data this (overwrite (4 * unat n) (word_bytes v) (sg_data sg)) s)"
proof -
  from assms(1) obtain sm where sm: "shm_sem this = Obj sm" "mutex_free sm s"
    by (auto simp: shm_ready_def)
  have "4 * unat n + length (word_bytes v) \<le> length (sg_data sg)" using assms(3) by simp
  from guarded_write [OF sm assms(2) this] sm show ?thesis
    by (simp add: SharedMemory_write_uint_def deref_sem_def store_u32_def)
qed

lemma SharedMemory_read_uint_ready:
  assumes "shm_ready this s" and "unat n < length (shm_cells this s)"
  shows "SharedMemory_read_uint this n s = Fin (shm_cells this s ! unat n) s"
proof -
  from assms(1) obtain sm where sm: "shm_sem this = Obj sm" "mutex_free sm s"
    by (auto simp: shm_ready_def)
  from assms(1) obtain i sg where seg: "seg_at (shm_addr this) s = Some (i, sg)"
    by (auto simp: shm_ready_def)
  have "SharedMemory_read_uint this n s = load_u32 (shm_addr this) (unat n) s"
    using sem_cs.passed [OF sm(2)] sm(1) by (simp add: SharedMemory_read_uint_def deref_sem_def)
  moreover have "script s = []" using sm by (simp add: mutex_free_def sem_ok_def)
  ultimately show ?thesis
    using assms(2) seg
    by (simp add: shm_cells_def load_u32_def mem_read_def interact_def run_simps nth_cells)
qed

lemma SharedMemory_uint32: "SharedMemory_write_uint32 = SharedMemory_write_uint"
  "SharedMemory_read_uint32 = SharedMemory_read_uint"
  by (intro ext, simp add: SharedMemory_write_uint32_def SharedMemory_write_uint_def)
    (intro ext, simp add: SharedMemory_read_uint32_def SharedMemory_read_uint_def)

interpretation shm: cell_store SharedMemory_read_uint SharedMemory_write_uint shm_ready shm_cells same_but_data
proof unfold_locales
  fix this and s :: "'a os_scheme" and n :: u16
  assume "shm_ready this s" and "unat n < length (shm_cells this s)"
  then show "SharedMemory_read_uint this n s = Fin (shm_cells this s ! unat n) s"
    by (rule SharedMemory_read_uint_ready)
next
  fix this and s :: "'a os_scheme" and n :: u16 and v :: u32
  assume ready: "shm_ready this s" and n: "unat n < length (shm_cells this s)"
  from ready obtain i sg where seg: "seg_at (shm_addr this) s = Some (i, sg)"
    by (auto simp: shm_ready_def)
  with n have n': "unat n < length (sg_data sg) div 4" by (simp add: shm_cells_def)
  let ?bs = "overwrite (4 * unat n) (word_bytes v) (sg_data sg)"
  have "length ?bs = length (sg_data sg)" using n' by simp
  then have "same_but_data this s (set_data this ?bs s)"
    using seg unfolding same_but_data_def by (intro exI [of _ ?bs]) simp
  moreover have "shm_cells this (set_data this ?bs s) = (shm_cells this s)[unat n := v]"
    using seg n' by (simp add: shm_cells_def seg_at_set_data cells_overwrite)
  ultimately show "\<exists>t. SharedMemory_write_uint this n v s = Fin () t \<and> shm_ready this t \<and>
      shm_cells this t = (shm_cells this s)[unat n := v] \<and> same_but_data this s t"
    using SharedMemory_write_uint_ready [OF ready seg n'] shm_ready_set_data [OF ready] by simp
next
  fix this and s :: "'a os_scheme"
  show "same_but_data this s s" by (rule same_but_data_refl)
next
  fix this and s t u :: "'a os_scheme"
  assume "same_but_data this s t" and "same_but_data this t u"
  then show "same_but_data this s u" by (rule same_but_data_trans)
qed

section \<open>Creating, attaching and removing in a quiet system\<close>

text \<open>The key of the object names the live segment \<open>i\<close>.\<close>

definition names_seg :: "u32 \<Rightarrow> int \<Rightarrow> segment \<Rightarrow> 'z os_scheme \<Rightarrow> bool" where
  "names_seg key i sg s \<longleftrightarrow> script s = [] \<and> mallocs s = [] \<and> SHMKEY key s \<noteq> IPC_PRIVATE \<and>
     shmkeys (ker s) (SHMKEY key s) = Some i \<and> segs (ker s) i = Some sg \<and> 0 \<le> i"

definition attach_seg :: "int \<Rightarrow> segment \<Rightarrow> 'z os_scheme \<Rightarrow> 'z os_scheme" where
  "attach_seg i sg s = s
     \<lparr>ker := (ker s)\<lparr>segs := (segs (ker s))(i \<mapsto> sg\<lparr>sg_nattch := Suc (sg_nattch sg)\<rparr>)\<rparr>,
      attached := (attached s)(next_addr s \<mapsto> i), next_addr := Suc (next_addr s)\<rparr>"

lemma shmat_names: "script s = [] \<Longrightarrow> segs (ker s) i = Some sg \<Longrightarrow>
    shmat i s = Fin (Addr (next_addr s)) (attach_seg i sg s)"
  by (simp add: shmat_def attach_seg_def run_simps)

lemma attach_seg_frame [simp]:
  "script (attach_seg i sg s) = script s" "mallocs (attach_seg i sg s) = mallocs s"
  "junk (attach_seg i sg s) = junk s" "ftok_of (attach_seg i sg s) = ftok_of s"
  "pid_self (attach_seg i sg s) = pid_self s" "err (attach_seg i sg s) = err s"
  "sems (ker (attach_seg i sg s)) = sems (ker s)" "semkeys (ker (attach_seg i sg s)) = semkeys (ker s)"
  "shmkeys (ker (attach_seg i sg s)) = shmkeys (ker s)" "clock (ker (attach_seg i sg s)) = clock (ker s)"
  "semvmx (ker (attach_seg i sg s)) = semvmx (ker s)" "semmsl (ker (attach_seg i sg s)) = semmsl (ker s)"
  "shmmin (ker (attach_seg i sg s)) = shmmin (ker s)" "shmmax (ker (attach_seg i sg s)) = shmmax (ker s)"
  "next_sem (ker (attach_seg i sg s)) = next_sem (ker s)"
  "SEMKEY key (attach_seg i sg s) = SEMKEY key s" "SHMKEY key (attach_seg i sg s) = SHMKEY key s"
  by (simp_all add: attach_seg_def SEMKEY_def SHMKEY_def)

lemma seg_at_attach:
  "seg_at (Addr (next_addr s)) (attach_seg i sg s) = Some (i, sg\<lparr>sg_nattch := Suc (sg_nattch sg)\<rparr>)"
  by (simp add: seg_at_def attach_seg_def)

lemma names_set_attach [simp]: "names_set key j ss (attach_seg i sg s) = names_set key j ss s"
  by (simp add: names_set_def key_ok_def)

text \<open>The object an attaching process gets: its \<open>size\<close> is what \<open>malloc\<close> found.\<close>

definition attached_obj :: "u32 \<Rightarrow> int \<Rightarrow> int \<Rightarrow> 'z os_scheme \<Rightarrow> SharedMemory" where
  "attached_obj key i j s = \<lparr>shm_key = key, shm_id = i, shm_size = junk s, shm_addr = Addr (next_addr s),
     shm_sem = Obj \<lparr>sem_key = guard_key key, sem_id = j, sem_count = 1, sem_size = 1\<rparr>\<rparr>"

lemma SharedMemory_attach_names:
  assumes "names_seg key i sg s" and "names_set (guard_key key) j gs s" and "length (ss_vals gs) = 1"
  shows "SharedMemory_attach key s = Fin (Some (attached_obj key i j s)) (attach_seg i sg s)"
proof -
  have "shmget (SHMKEY key s) 0 False s = Fin i s" "i \<noteq> - 1" "mallocs s = []"
      "shmat i s = Fin (Addr (next_addr s)) (attach_seg i sg s)"
    using assms(1) by (simp_all add: names_seg_def shmget_def run_simps shmat_names)
  with Semaphore_attach_names [of "guard_key key" j gs "attach_seg i sg s"] assms(2,3) show ?thesis
    by (simp add: SharedMemory_attach_def run_simps attached_obj_def pointer_of_def)
qed

lemma SharedMemory_attach_none:
  assumes "script s = []" and "shmkeys (ker s) (SHMKEY key s) = None"
  shows "SharedMemory_attach key s = Fin None (s\<lparr>err := ENOENT\<rparr>)"
  using assms by (simp add: SharedMemory_attach_def shmget_def run_simps)

text \<open>Creation under an unused key: the segment, all zero, and then its mutex, free.\<close>

definition shm_can_make :: "u32 \<Rightarrow> nat \<Rightarrow> 'z os_scheme \<Rightarrow> bool" where
  "shm_can_make key sz s \<longleftrightarrow> can_make (guard_key key) 1 s \<and> SHMKEY key s \<noteq> IPC_PRIVATE \<and>
     shmkeys (ker s) (SHMKEY key s) = None \<and> shmmin (ker s) \<le> sz \<and> sz \<le> shmmax (ker s) \<and> 1 \<le> semvmx (ker s)"

definition made_seg :: "u32 \<Rightarrow> nat \<Rightarrow> 'z os_scheme \<Rightarrow> segment" where
  "made_seg key sz s = \<lparr>sg_key = SHMKEY key s, sg_data = replicate sz 0, sg_nattch = 0, sg_dest = False\<rparr>"

definition made_shm :: "u32 \<Rightarrow> nat \<Rightarrow> 'z os_scheme \<Rightarrow> 'z os_scheme" where
  "made_shm key sz s =
     (let t = attach_seg (int (next_shm (ker s))) (made_seg key sz s)
                (s\<lparr>ker := new_seg (made_seg key sz s) (ker s)\<rparr>)
      in t\<lparr>ker := new_set (made_set (guard_key key) 1 1 s) (ker t)\<rparr>)"

definition made_obj :: "u32 \<Rightarrow> nat \<Rightarrow> 'z os_scheme \<Rightarrow> SharedMemory" where
  "made_obj key sz s = \<lparr>shm_key = key, shm_id = int (next_shm (ker s)), shm_size = sz,
     shm_addr = Addr (next_addr s),
     shm_sem = Obj \<lparr>sem_key = guard_key key, sem_id = int (next_sem (ker s)), sem_count = 1, sem_size = 1\<rparr>\<rparr>"

lemma new_seg_frame [simp]:
  "sems (new_seg sg k) = sems k" "semkeys (new_seg sg k) = semkeys k" "next_sem (new_seg sg k) = next_sem k"
  "clock (new_seg sg k) = clock k" "semvmx (new_seg sg k) = semvmx k" "semmsl (new_seg sg k) = semmsl k"
  "shmmin (new_seg sg k) = shmmin k" "shmmax (new_seg sg k) = shmmax k"
  "segs (new_seg sg k) = (segs k)(int (next_shm k) \<mapsto> sg)"
  by (simp_all add: new_seg_def Let_def)

lemma new_set_frame [simp]:
  "segs (new_set ss k) = segs k" "shmkeys (new_set ss k) = shmkeys k" "next_shm (new_set ss k) = next_shm k"
  "clock (new_set ss k) = clock k" "semvmx (new_set ss k) = semvmx k" "semmsl (new_set ss k) = semmsl k"
  "shmmin (new_set ss k) = shmmin k" "shmmax (new_set ss k) = shmmax k"
  "sems (new_set ss k) = (sems k)(int (next_sem k) \<mapsto> ss)"
  by (simp_all add: new_set_def Let_def)

lemma SharedMemory_new_made:
  assumes "shm_can_make key sz s"
  shows "SharedMemory_new key sz att s = Fin (Some (made_obj key sz s)) (made_shm key sz s)"
proof -
  let ?made = "s\<lparr>ker := new_seg (made_seg key sz s) (ker s)\<rparr>"
  let ?t = "attach_seg (int (next_shm (ker s))) (made_seg key sz s) ?made"
  note a = assms [unfolded shm_can_make_def can_make_def]
  have "shmget (SHMKEY key s) sz True s = Fin (int (next_shm (ker s))) ?made"
    using a by (simp add: shmget_def run_simps made_seg_def)
  moreover have "shmat (int (next_shm (ker s))) ?made = Fin (Addr (next_addr s)) ?t"
    using a by (subst shmat_names [where sg = "made_seg key sz s"]) simp_all
  moreover have "can_make (guard_key key) 1 ?t"
    using a by (simp add: can_make_def key_ok_def)
  moreover have "made_set (guard_key key) 1 1 ?t = made_set (guard_key key) 1 1 s"
    by (simp add: made_set_def)
  ultimately show ?thesis
    using a Semaphore_new_made [of "guard_key key" 1 ?t 1 att]
    by (simp add: SharedMemory_new_def SharedMemory_segment_def run_simps made_shm_def made_obj_def
        pointer_of_def mem_lock_call_def Let_def)
qed


lemma made_shm_ready:
  assumes "shm_can_make key sz s"
  shows "shm_ready (made_obj key sz s) (made_shm key sz s)"
    and "seg_at (shm_addr (made_obj key sz s)) (made_shm key sz s) =
      Some (int (next_shm (ker s)), (made_seg key sz s)\<lparr>sg_nattch := 1\<rparr>)"
proof -
  note a = assms [unfolded shm_can_make_def can_make_def]
  show seg: "seg_at (shm_addr (made_obj key sz s)) (made_shm key sz s) =
      Some (int (next_shm (ker s)), (made_seg key sz s)\<lparr>sg_nattch := 1\<rparr>)"
    by (simp add: seg_at_def made_obj_def made_shm_def attach_seg_def made_seg_def Let_def)
  show "shm_ready (made_obj key sz s) (made_shm key sz s)"
    using a seg by (simp add: shm_ready_def mutex_free_def made_obj_def sem_ok_def has_sem_def sem_value_def
        made_shm_def made_set_def Let_def)
qed

lemma new_keys:
  "semkeys (new_set ss k) q = (if ss_key ss \<noteq> IPC_PRIVATE \<and> q = ss_key ss then Some (int (next_sem k)) else semkeys k q)"
  "shmkeys (new_seg sg k) q = (if sg_key sg \<noteq> IPC_PRIVATE \<and> q = sg_key sg then Some (int (next_shm k)) else shmkeys k q)"
  by (simp_all add: new_set_def new_seg_def Let_def)

lemma made_shm_names:
  assumes "shm_can_make key sz s"
  shows "names_seg key (int (next_shm (ker s))) ((made_seg key sz s)\<lparr>sg_nattch := 1\<rparr>) (made_shm key sz s)"
    and "names_set (guard_key key) (int (next_sem (ker s))) (made_set (guard_key key) 1 1 s) (made_shm key sz s)"
proof -
  note a = assms [unfolded shm_can_make_def can_make_def]
  have tabs: "shmkeys (ker (made_shm key sz s)) (SHMKEY key s) = Some (int (next_shm (ker s)))"
    "segs (ker (made_shm key sz s)) (int (next_shm (ker s))) = Some ((made_seg key sz s)\<lparr>sg_nattch := 1\<rparr>)"
    "semkeys (ker (made_shm key sz s)) (SEMKEY (guard_key key) s) = Some (int (next_sem (ker s)))"
    "sems (ker (made_shm key sz s)) (int (next_sem (ker s))) = Some (made_set (guard_key key) 1 1 s)"
    using a by (simp_all add: made_shm_def Let_def new_keys key_ok_def made_set_def)
      (simp_all add: made_seg_def attach_seg_def new_keys)
  have rest: "script (made_shm key sz s) = []" "mallocs (made_shm key sz s) = []"
    "SEMKEY q (made_shm key sz s) = SEMKEY q s" "SHMKEY q (made_shm key sz s) = SHMKEY q s"
    "key_ok q (made_shm key sz s) = key_ok q s" for q
    using a by (simp_all add: made_shm_def Let_def key_ok_def)
  show "names_seg key (int (next_shm (ker s))) ((made_seg key sz s)\<lparr>sg_nattch := 1\<rparr>) (made_shm key sz s)"
    "names_set (guard_key key) (int (next_sem (ker s))) (made_set (guard_key key) 1 1 s) (made_shm key sz s)"
    using a unfolding names_seg_def names_set_def rest tabs by simp_all
qed

lemma cells_zero: "cells (replicate n 0) = replicate (n div 4) 0"
proof (rule nth_equalityI)
  fix j assume "j < length (cells (replicate n 0))"
  then have j: "j < n div 4" by simp
  then have "take 4 (drop (4 * j) (replicate n (0 :: u8))) = replicate 4 0" by (simp add: min_def)
  then have "bytes_word (take 4 (drop (4 * j) (replicate n 0))) = 0"
    by (simp add: bytes_word_def numeral_eq_Suc)
  with j show "cells (replicate n 0) ! j = replicate (n div 4) 0 ! j" by (simp add: nth_cells)
qed simp

lemma SharedMemory_new_exists:
  assumes "names_seg key i sg s"
  shows "SharedMemory_new key sz False s = Fin None (s\<lparr>err := EEXIST\<rparr>)"
  using assms
  by (simp add: SharedMemory_new_def SharedMemory_segment_def SharedMemory_delete_def names_seg_def shmget_def
      run_simps Let_def)


lemma SharedMemory_new_attaches:
  assumes "names_seg key i sg s" and "names_set (guard_key key) j gs s"
  shows "\<exists>t. SharedMemory_new key sz True s = Fin (Some ((attached_obj key i j s)\<lparr>shm_size := sz\<rparr>)) t \<and>
    t = (attach_seg i sg s)\<lparr>err := EEXIST\<rparr>"
proof -
  let ?s = "s\<lparr>err := EEXIST\<rparr>"
  note n = assms(1) [unfolded names_seg_def]
  have "shmget (SHMKEY key s) sz True s = Fin (- 1) ?s" "shmget (SHMKEY key s) 0 False ?s = Fin i ?s" "i \<noteq> - 1"
    using n by (simp_all add: shmget_def run_simps)
  moreover have "shmat i ?s = Fin (Addr (next_addr s)) (attach_seg i sg ?s)"
    using n shmat_names [of ?s i sg] by simp
  ultimately have seg: "SharedMemory_segment (SHMKEY key s) sz True s = Fin (i, Addr (next_addr s), True) (attach_seg i sg ?s)"
    by (simp add: SharedMemory_segment_def run_simps)
  have "names_set (guard_key key) j gs (attach_seg i sg ?s)"
    using assms(2) by (simp add: names_set_def key_ok_def SEMKEY_def)
  from Semaphore_new_exists [OF this, of 1 1 True]
  have "Semaphore_new (guard_key key) 1 1 True (attach_seg i sg ?s) =
    Fin (Some \<lparr>sem_key = guard_key key, sem_id = j, sem_count = 1, sem_size = 1\<rparr>)
      ((attach_seg i sg s)\<lparr>err := EEXIST\<rparr>)"
    by (simp add: attach_seg_def)
  then show ?thesis
    using n seg by (simp add: SharedMemory_new_def run_simps Let_def attached_obj_def pointer_of_def mem_lock_call_def)
qed

text \<open>Removing through a ready object: its mutex and its segment are gone, and no key names them.\<close>

definition gone :: "SharedMemory \<Rightarrow> 'z os_scheme \<Rightarrow> bool" where
  "gone this s \<longleftrightarrow> (\<forall>sm. shm_sem this = Obj sm \<longrightarrow> sems (ker s) (sem_id sm) = None \<and> Some (sem_id sm) \<notin> range (semkeys (ker s))) \<and>
     Some (shm_id this) \<notin> range (shmkeys (ker s)) \<and> seg_at (shm_addr this) s = None"

lemma SharedMemory_delete_gone:
  assumes "shm_ready this s" and "seg_at (shm_addr this) s = Some (m, sg)" and "shm_id this = m"
    and "shm_size this \<le> length (sg_data sg)" and "\<not> sg_dest sg"
  shows "\<exists>k at. SharedMemory_delete this True s = Fin () (s\<lparr>ker := k, attached := at\<rparr>) \<and>
    gone this (s\<lparr>ker := k, attached := at\<rparr>) \<and> clock k = clock (ker s) \<and>
    shmkeys k = (\<lambda>q. if shmkeys (ker s) q = Some (shm_id this) then None else shmkeys (ker s) q)"
proof -
  from assms(1) obtain sm where sm: "shm_sem this = Obj sm" "mutex_free sm s" by (auto simp: shm_ready_def)
  then have script: "script s = []" by (simp add: mutex_free_def sem_ok_def)
  from sm(2) obtain ss where ss: "sems (ker s) (sem_id sm) = Some ss"
    by (auto simp: mutex_free_def sem_ok_def elim: has_semE)
  from assms(2) obtain n where addr: "shm_addr this = Addr n" "attached s n = Some m" "segs (ker s) m = Some sg"
    by (auto simp: seg_at_def split: address.splits option.splits)
  let ?k1 = "rm_set (sem_id sm) (ker s)"
  let ?sg = "sg\<lparr>sg_data := overwrite 0 (replicate (shm_size this) 0) (sg_data sg)\<rparr>"
  let ?sg' = "?sg\<lparr>sg_nattch := sg_nattch sg - 1\<rparr>"
  let ?k3 = "?k1\<lparr>segs := (segs (ker s))(m \<mapsto> ?sg')\<rparr>"
  let ?k = "rm_seg m (if sg_nattch sg - 1 = 0 then None else Some (?sg'\<lparr>sg_dest := True\<rparr>)) ?k3"
  let ?at = "(attached s)(n := None)"
  have "detach_seg m (?k1\<lparr>segs := (segs (ker s))(m \<mapsto> ?sg)\<rparr>) = ?k3"
    using assms(5) by (simp add: detach_seg_def)
  moreover have "segs ?k1 = segs (ker s)" by (simp add: rm_set_def)
  ultimately have "SharedMemory_delete this True s = Fin () (s\<lparr>ker := ?k, attached := ?at\<rparr>)"
    using assms(3,4) sm(1) ss script addr
    by (simp add: SharedMemory_delete_def deref_sem_def Semaphore_delete_def run_simps semctl_rmid_def mem_write_def
        seg_at_def mem_lock_call_def shmdt_def shmctl_rmid_def)
  moreover have "gone this (s\<lparr>ker := ?k, attached := ?at\<rparr>)"
    using assms(3) sm(1) addr(1) by (auto simp: gone_def seg_at_def rm_seg_def rm_set_def split: if_splits)
  moreover have "clock ?k = clock (ker s)"
    "shmkeys ?k = (\<lambda>q. if shmkeys (ker s) q = Some (shm_id this) then None else shmkeys (ker s) q)"
    using assms(3) by (auto simp: rm_seg_def rm_set_def fun_eq_iff)
  ultimately show ?thesis by blast
qed

section \<open>Strings\<close>

lemma vsnprintf_fits: "length str < n \<Longrightarrow> vsnprintf_bytes n str = str @ [0]"
  by (simp add: vsnprintf_bytes_def)

lemma length_vsnprintf: "0 < n \<Longrightarrow> length (vsnprintf_bytes n str) \<le> n"
  by (simp add: vsnprintf_bytes_def)

lemma takeWhile_zero: "0 \<notin> set str \<Longrightarrow> takeWhile (\<lambda>b. b \<noteq> (0 :: u8)) (str @ 0 # rest) = str"
  by (induction str) auto

lemma SharedMemory_write_ready:
  assumes "shm_ready this s" and seg: "seg_at (shm_addr this) s = Some (i, sg)"
    and "shm_size this = length (sg_data sg)" and "unat off < shm_size this"
  shows "SharedMemory_write this off str s = Fin ()
    (set_data this (overwrite (unat off) (vsnprintf_bytes (room this off) str) (sg_data sg)) s)"
proof -
  from assms(1) obtain sm where sm: "shm_sem this = Obj sm" "mutex_free sm s"
    by (auto simp: shm_ready_def)
  have r: "room this off = shm_size this - unat off" "0 < room this off" using assms(4) by (simp_all add: room_def)
  with length_vsnprintf [OF r(2), of str] assms(3,4)
  have "unat off + length (vsnprintf_bytes (room this off) str) \<le> length (sg_data sg)" by linarith
  from guarded_write [OF sm seg this] sm(1) show ?thesis
    by (simp add: SharedMemory_write_def deref_sem_def)
qed

lemma SharedMemory_read_ready:
  assumes "shm_ready this s" and seg: "seg_at (shm_addr this) s = Some (i, sg)"
    and "shm_size this = length (sg_data sg)" and "unat off \<le> shm_size this"
  shows "SharedMemory_read this off s = Fin (strncpy_bytes (room this off) (drop (unat off) (sg_data sg))) s"
proof -
  from assms(1) obtain sm where sm: "shm_sem this = Obj sm" "mutex_free sm s"
    by (auto simp: shm_ready_def)
  have "script (add_to sm 0 True (- 1) s) = []" using sm by (simp add: mutex_free_def sem_ok_def)
  then have "mem_strncpy (shm_addr this) (unat off) (room this off) (add_to sm 0 True (- 1) s) =
      Fin (strncpy_bytes (room this off) (drop (unat off) (sg_data sg))) (add_to sm 0 True (- 1) s)"
    using seg assms(3,4) by (simp add: mem_strncpy_def interact_def room_def Let_def)
  with sem_cs.guarded [where g = "\<lambda>s. s" and body = "mem_strncpy (shm_addr this) (unat off) (room this off)",
      OF sm(2) seg_frame_id] sm(1)
  show ?thesis by (simp add: SharedMemory_read_def deref_sem_def)
qed

section \<open>Properties\<close>

text \<open>A system with one segment of 16 zero bytes, its mutex, and an object for them.\<close>

definition shm_kernel :: ipc where
  "shm_kernel = (one_sem 1)\<lparr>segs := [0 \<mapsto> \<lparr>sg_key = 300, sg_data = replicate 16 0, sg_nattch = 1, sg_dest = False\<rparr>]\<rparr>"

definition shm_state :: os where
  "shm_state = boot_os\<lparr>ker := shm_kernel, attached := [0 \<mapsto> 0], next_addr := 1\<rparr>"

definition shm_obj :: SharedMemory where
  "shm_obj = \<lparr>shm_key = 3, shm_id = 0, shm_size = 16, shm_addr = Addr 0,
     shm_sem = Obj \<lparr>sem_key = 131, sem_id = 0, sem_count = 1, sem_size = 1\<rparr>\<rparr>"

lemma shm_seg_at: "seg_at (shm_addr shm_obj) shm_state =
    Some (0, \<lparr>sg_key = 300, sg_data = replicate 16 0, sg_nattch = 1, sg_dest = False\<rparr>)"
  by (simp add: shm_state_def shm_kernel_def shm_obj_def seg_at_def)

lemma shm_example: "shm_ready shm_obj shm_state" "length (shm_cells shm_obj shm_state) = 4"
  using shm_seg_at
  by (simp_all add: shm_ready_def shm_cells_def)
    (simp add: shm_obj_def shm_state_def shm_kernel_def mutex_free_def sem_ok_def boot_os_def)

text \<open>
  C8: a value written to a cell is read back from it, and every other cell reads as before; the
  mutex is free again and nothing but the segment's bytes has changed.
\<close>

theorem shm_read_after_write:
  assumes "shm_ready this s" and "unat i < length (shm_cells this s)" and "unat j < length (shm_cells this s)"
  shows "\<exists>t. bindr (SharedMemory_write_uint this i v) (\<lambda>_. SharedMemory_read_uint this j) s =
      Fin (if i = j then v else shm_cells this s ! unat j) t \<and>
    shm_ready this t \<and> same_but_data this s t"
  using shm.read_after_write [OF assms, of v] by blast

lemma shm_read_after_write_witness:
  "\<exists>t. bindr (SharedMemory_write_uint shm_obj 2 77) (\<lambda>_. SharedMemory_read_uint shm_obj 2) shm_state = Fin 77 t"
  using shm_read_after_write [OF shm_example(1), of 2 2 77] shm_example(2) by auto

text \<open>
  C38: strings. A text without null bytes that fits behind the offset is read back by
  \<open>SharedMemory$read\<close> as it was written, followed by null bytes to the end of the segment.
\<close>

theorem shm_string_roundtrip:
  assumes "shm_ready this s" and "seg_at (shm_addr this) s = Some (i, sg)"
    and "shm_size this = length (sg_data sg)" and "unat off + length str < shm_size this" and "0 \<notin> set str"
  shows "\<exists>t. bindr (SharedMemory_write this off str) (\<lambda>_. SharedMemory_read this off) s =
    Fin (str @ replicate (shm_size this - unat off - length str) 0) t"
proof -
  let ?bs = "overwrite (unat off) (str @ [0]) (sg_data sg)"
  let ?t = "set_data this ?bs s"
  have room: "room this off = shm_size this - unat off" using assms(4) by (simp add: room_def)
  have w: "SharedMemory_write this off str s = Fin () ?t"
    using SharedMemory_write_ready [OF assms(1-3), of off str] assms(4) room by (simp add: vsnprintf_fits)
  have fits: "unat off + length (str @ [0]) \<le> length (sg_data sg)" using assms(3,4) by simp
  then have len: "length ?bs = length (sg_data sg)" by simp
  have seg: "seg_at (shm_addr this) ?t = Some (i, sg\<lparr>sg_data := ?bs\<rparr>)"
    by (rule seg_at_set_data [OF assms(2)])
  have "SharedMemory_read this off ?t = Fin (strncpy_bytes (room this off) (drop (unat off) ?bs)) ?t"
    using SharedMemory_read_ready [OF shm_ready_set_data [OF assms(1)] seg, of off] assms(3,4) len by simp
  moreover have "drop (unat off) ?bs = str @ 0 # drop (unat off + Suc (length str)) (sg_data sg)"
    using fits by (simp add: overwrite_def)
  then have "takeWhile (\<lambda>b. b \<noteq> 0) (take (room this off) (drop (unat off) ?bs)) = str"
    using assms(4,5) room len takeWhile_zero by (simp add: takeWhile_zero take_Cons')
  ultimately show ?thesis using w room by (simp add: run_simps strncpy_bytes_def Let_def)
qed

lemma shm_string_roundtrip_witness:
  "\<exists>t. bindr (SharedMemory_write shm_obj 3 [72, 105]) (\<lambda>_. SharedMemory_read shm_obj 3) shm_state =
     Fin ([72, 105] @ replicate 11 0) t"
  using shm_string_roundtrip [OF shm_example(1) shm_seg_at, of 3 "[72, 105]"]
  by (simp add: shm_obj_def)

text \<open>
  the mutex must be there. When its set has been removed, an access stops the process at the
  assertion on the result of \<open>Semaphore$lock\<close>, before it touches the segment.
\<close>

theorem shm_removed_mutex_asserts:
  assumes "script s = []" and "shm_sem this = Obj sm" and "sems (ker s) (sem_id sm) = None"
  shows "SharedMemory_write_uint this i v s = Stop Assert_failed (s\<lparr>err := EINVAL\<rparr>) \<and>
    SharedMemory_read_uint this i s = Stop Assert_failed (s\<lparr>err := EINVAL\<rparr>)"
proof -
  have "Semaphore_lock sm 0 False 0 s = Fin (- 1) (s\<lparr>err := EINVAL\<rparr>)"
    using assms by (simp add: Semaphore_lock_op run_simps semop_quiet sem_attempt_def)
  then show ?thesis
    using assms(2) by (simp add: sem_cs.refused SharedMemory_write_uint_def SharedMemory_read_uint_def deref_sem_def)
qed

lemma shm_removed_mutex_asserts_witness:
  "SharedMemory_write_uint shm_obj 0 1 (shm_state\<lparr>ker := rm_set 0 shm_kernel\<rparr>) =
     Stop Assert_failed (shm_state\<lparr>ker := rm_set 0 shm_kernel, err := EINVAL\<rparr>)"
  using shm_removed_mutex_asserts [of "shm_state\<lparr>ker := rm_set 0 shm_kernel\<rparr>" shm_obj
      "\<lparr>sem_key = 131, sem_id = 0, sem_count = 1, sem_size = 1\<rparr>" 0 1]
  by (simp add: shm_obj_def shm_state_def boot_os_def rm_set_def)


text \<open>
  creating and attaching. Under unused keys \<open>SharedMemory$new\<close> makes a ready object on a
  segment of zero bytes; a process that then attaches to the key gets the same segment and mutex,
  but its \<open>size\<close> is whatever its memory held, not the segment's.
\<close>

theorem shm_new_then_attach:
  assumes "shm_can_make key sz s"
  shows "\<exists>this t u. SharedMemory_new key sz att s = Fin (Some this) t \<and> shm_ready this t \<and>
    shm_cells this t = replicate (sz div 4) 0 \<and>
    (\<exists>other. SharedMemory_attach key t = Fin (Some other) u \<and> shm_id other = shm_id this \<and>
      shm_sem other = shm_sem this \<and> shm_size other = junk s \<and> shm_cells other u = shm_cells this t)"
proof -
  let ?o = "made_obj key sz s" and ?t = "made_shm key sz s" and ?i = "int (next_shm (ker s))"
  let ?sg = "(made_seg key sz s)\<lparr>sg_nattch := 1\<rparr>"
  let ?b = "attached_obj key ?i (int (next_sem (ker s))) ?t" and ?u = "attach_seg ?i ?sg ?t"
  have data: "cells (sg_data ?sg) = replicate (sz div 4) 0" by (simp add: made_seg_def cells_zero)
  have att: "SharedMemory_attach key ?t = Fin (Some ?b) ?u"
    by (rule SharedMemory_attach_names [OF made_shm_names [OF assms]]) (simp add: made_set_def)
  have "junk ?t = junk s" by (simp add: made_shm_def Let_def)
  then have b: "shm_id ?b = shm_id ?o" "shm_sem ?b = shm_sem ?o" "shm_size ?b = junk s" "shm_addr ?b = Addr (next_addr ?t)"
    by (simp_all add: attached_obj_def made_obj_def)
  have cells: "shm_cells ?o ?t = replicate (sz div 4) 0" "shm_cells ?b ?u = replicate (sz div 4) 0"
    using made_shm_ready(2) [OF assms] seg_at_attach [of ?t ?i ?sg] data b(4) by (simp_all add: shm_cells_def)
  show ?thesis
    using SharedMemory_new_made [OF assms, of att] made_shm_ready(1) [OF assms] att b cells
    by (intro exI [of _ ?o] exI [of _ ?t] exI [of _ ?u]) auto
qed

lemma shm_can_make_boot: "shm_can_make 5 16 boot_os"
  by (simp add: shm_can_make_def can_make_def key_ok_def SEMKEY_def SHMKEY_def boot_os_def boot_ipc_def
      IPC_PRIVATE_def guard_key_def)

lemma shm_new_then_attach_witness:
  "\<exists>this t other u. SharedMemory_new 5 16 True boot_os = Fin (Some this) t \<and> shm_cells this t = replicate 4 0 \<and>
     SharedMemory_attach 5 t = Fin (Some other) u \<and> shm_size other = 0"
  using shm_new_then_attach [OF shm_can_make_boot, of True] by (simp add: boot_os_def) blast

text \<open>
  removing through an attached object writes the indeterminate number of bytes in its \<open>size\<close>:
  when that is more than the segment holds the behaviour is undefined, after the mutex was removed.
\<close>

theorem shm_delete_attached_undefined:
  assumes "names_seg key i sg s" and "names_set (guard_key key) j gs s" and "length (ss_vals gs) = 1"
    and "length (sg_data sg) < junk s"
  shows "\<exists>t. bindr (SharedMemory_attach key) (\<lambda>p. case p of None \<Rightarrow> retr () | Some this \<Rightarrow> SharedMemory_delete this True) s =
    Stop Undefined t \<and> sems (ker t) j = None"
proof -
  have "sems (ker s) j = Some gs" "script s = []" using assms(2) by (simp_all add: names_set_def)
  with SharedMemory_attach_names [OF assms(1-3)] assms(4) seg_at_attach [of s i sg] show ?thesis
    by (simp add: run_simps SharedMemory_delete_def deref_sem_def attached_obj_def Semaphore_delete_def
        semctl_rmid_def mem_write_def interact_def rm_set_def) (simp add: seg_at_def attach_seg_def)
qed

lemma shm_delete_attached_undefined_witness:
  "\<exists>s :: os. junk s = 100 \<and> (\<exists>t. bindr (SharedMemory_attach 5)
     (\<lambda>p. case p of None \<Rightarrow> retr () | Some this \<Rightarrow> SharedMemory_delete this True) s = Stop Undefined t)"
proof -
  let ?s = "boot_os\<lparr>junk := 100\<rparr>"
  have made: "shm_can_make 5 16 ?s"
    using shm_can_make_boot by (simp add: shm_can_make_def can_make_def key_ok_def SEMKEY_def SHMKEY_def)
  have "junk (made_shm 5 16 ?s) = 100" by (simp add: made_shm_def Let_def)
  with shm_delete_attached_undefined [OF made_shm_names [OF made]] show ?thesis
    by (intro exI [of _ "made_shm 5 16 ?s"]) (auto simp: made_set_def made_seg_def)
qed

text \<open>
  \<open>SharedMemory$read_uint\<close> reads after it has given the mutex back: a write by another process
  between its unlocking and its read is what it returns, so its critical section protects nothing.
\<close>

theorem shm_read_outside_lock:
  assumes "shm_ready this (s\<lparr>script := []\<rparr>)" and "seg_at (shm_addr this) s = Some (m, sg)"
    and "script s = [idle, idle, idle, (\<lambda>k. k\<lparr>segs := (segs k)(m \<mapsto> sg')\<rparr>, None)]"
    and "unat i < length (cells (sg_data sg'))"
  shows "\<exists>t. SharedMemory_read_uint this i s = Fin (cells (sg_data sg') ! unat i) t"
proof -
  let ?w = "(\<lambda>k. k\<lparr>segs := (segs k)(m \<mapsto> sg')\<rparr>, None) :: move \<times> errno option"
  from assms(1) obtain sm where sm: "shm_sem this = Obj sm" "mutex_free sm (s\<lparr>script := []\<rparr>)"
    by (auto simp: shm_ready_def)
  let ?i = "sem_id sm"
  have sem: "has_sem (ker s) ?i 0" "0 < sem_value (ker s) ?i 0" "sem_value (ker s) ?i 0 \<le> unat (sem_size sm)"
    "sem_value (ker s) ?i 0 \<le> semvmx (ker s)"
    using sm(2) by (simp_all add: mutex_free_def sem_ok_def)
  let ?k = "sem_add (pid_self s) True ?i 0 (- 1) (ker s)"
  have v: "sem_value ?k ?i 0 = sem_value (ker s) ?i 0 - 1" "has_sem ?k ?i 0" using sem(1,2) by simp_all
  have lock: "Semaphore_lock sm 0 False 0 s = Fin 0 (s\<lparr>script := [idle, idle, ?w], ker := ?k\<rparr>)"
    using assms(3) sem
    by (simp add: Semaphore_lock_op run_simps semop_def syscall_Cons [OF assms(3) [unfolded idle_def]] idle_def
        sem_attempt_value Let_def)
  let ?s1 = "s\<lparr>script := [idle, idle, ?w], ker := ?k\<rparr>"
  have used: "Semaphore_used sm 0 ?s1 = Fin (uint (sem_size sm) - int (sem_value ?k ?i 0)) (?s1\<lparr>script := [idle, ?w]\<rparr>)"
  proof -
    from v(2) obtain ss where "sems ?k ?i = Some ss" "0 < length (ss_vals ss)" "sem_value ?k ?i 0 = ss_vals ss ! 0"
      by (rule has_semE)
    then show ?thesis
      by (simp add: Semaphore_used_def semctl_getval_def run_simps syscall_def interact_def idle_def)
  qed
  have pos: "0 < uint (sem_size sm) - int (sem_value ?k ?i 0)"
    using v(1) sem(2,3) unfolding uint_nat by linarith
  let ?s2 = "?s1\<lparr>script := [idle, ?w]\<rparr>"
  have gave: "semop ?i (op_of 0 1 True False) ?s2 = Fin 0 (s\<lparr>script := [?w], ker := sem_add (pid_self s) True ?i 0 1 ?k\<rparr>)"
    using v sem by (simp add: semop_def syscall_def interact_def idle_def sem_attempt_value Let_def)
  have unlock: "Semaphore_unlock sm 0 False ?s1 = Fin 0 (s\<lparr>script := [?w], ker := sem_add (pid_self s) True ?i 0 1 ?k\<rparr>)"
    using used pos gave by (simp add: Semaphore_unlock_op run_simps)
  let ?s3 = "s\<lparr>script := [?w], ker := sem_add (pid_self s) True ?i 0 1 ?k\<rparr>"
  have "SharedMemory_read_uint this i s = load_u32 (shm_addr this) (unat i) ?s3"
    using lock unlock sm(1) by (simp add: SharedMemory_read_uint_def deref_sem_def run_simps)
  moreover have "seg_at (shm_addr this) (?s3\<lparr>ker := (ker ?s3)\<lparr>segs := (segs (ker ?s3))(m \<mapsto> sg')\<rparr>, script := []\<rparr>) = Some (m, sg')"
    using assms(2) by (auto simp: seg_at_def split: address.splits option.splits)
  ultimately show ?thesis
    using assms(4) by (simp add: load_u32_def mem_read_def interact_def run_simps nth_cells)
qed


lemma shm_read_outside_lock_witness:
  "\<exists>t. SharedMemory_read_uint shm_obj 0 (shm_state\<lparr>script := [idle, idle, idle, (\<lambda>k. k\<lparr>segs := (segs k)(0 \<mapsto>
     \<lparr>sg_key = 300, sg_data = replicate 16 1, sg_nattch = 1, sg_dest = False\<rparr>)\<rparr>, None)]\<rparr>) = Fin 16843009 t"
proof -
  let ?sg = "\<lparr>sg_key = 300, sg_data = replicate 16 1, sg_nattch = 1, sg_dest = False\<rparr>"
  let ?s = "shm_state\<lparr>script := [idle, idle, idle, (\<lambda>k. k\<lparr>segs := (segs k)(0 \<mapsto> ?sg)\<rparr>, None)]\<rparr>"
  have "shm_state\<lparr>script := []\<rparr> = shm_state" by (simp add: shm_state_def boot_os_def)
  then have ready: "shm_ready shm_obj (?s\<lparr>script := []\<rparr>)" using shm_example(1) by simp
  have seg: "seg_at (shm_addr shm_obj) ?s =
      Some (0, \<lparr>sg_key = 300, sg_data = replicate 16 0, sg_nattch = 1, sg_dest = False\<rparr>)"
    by (simp add: shm_state_def shm_kernel_def shm_obj_def seg_at_def)
  have "cells (sg_data ?sg) = [16843009, 16843009, 16843009, 16843009]" by code_simp
  with shm_read_outside_lock [OF ready seg, of ?sg 0] show ?thesis by simp
qed

text \<open>
  a failed creation is not undone. When the key's mutex already exists and attaching is not
  allowed, \<open>SharedMemory$new\<close> returns NULL but leaves the segment it created: a process can attach
  to the key, and creating it again fails because the segment exists.
\<close>

theorem shm_failed_new_leaves_segment:
  assumes "names_set (guard_key key) j gs s" and "length (ss_vals gs) = 1" and "SHMKEY key s \<noteq> IPC_PRIVATE"
    and "shmkeys (ker s) (SHMKEY key s) = None" and "shmmin (ker s) \<le> sz" and "sz \<le> shmmax (ker s)"
  shows "\<exists>t. SharedMemory_new key sz False s = Fin None t \<and>
    (\<exists>other u. SharedMemory_attach key t = Fin (Some other) u) \<and>
    SharedMemory_new key sz' False t = Fin None (t\<lparr>err := EEXIST\<rparr>)"
proof -
  let ?i = "int (next_shm (ker s))" and ?sg = "(made_seg key sz s)\<lparr>sg_nattch := 1\<rparr>"
  let ?made = "s\<lparr>ker := new_seg (made_seg key sz s) (ker s)\<rparr>"
  let ?att = "attach_seg ?i (made_seg key sz s) ?made"
  let ?t = "?att\<lparr>err := EEXIST\<rparr>"
  have q: "script s = []" "mallocs s = []" using assms(1) by (simp_all add: names_set_def)
  have "shmget (SHMKEY key s) sz True s = Fin ?i ?made"
    using assms(3-6) q by (simp add: shmget_def run_simps made_seg_def)
  moreover have "shmat ?i ?made = Fin (Addr (next_addr s)) ?att"
    using q by (subst shmat_names [where sg = "made_seg key sz s"]) simp_all
  moreover have set: "names_set (guard_key key) j gs ?att"
    using assms(1) by (simp add: names_set_def key_ok_def)
  from Semaphore_new_exists [OF this, of 1 1 False]
  have "Semaphore_new (guard_key key) 1 1 False ?att = Fin None ?t" by simp
  ultimately have new: "SharedMemory_new key sz False s = Fin None ?t"
    using q by (simp add: SharedMemory_new_def SharedMemory_segment_def run_simps pointer_of_def
        SharedMemory_delete_def Let_def)
  have seg: "names_seg key ?i ?sg ?t"
    using q assms(3) by (simp add: names_seg_def new_keys made_seg_def attach_seg_def SHMKEY_def)
  have "names_set (guard_key key) j gs ?t" using set by (simp add: names_set_def)
  from SharedMemory_attach_names [OF seg this assms(2)] SharedMemory_new_exists [OF seg, of sz'] new
  show ?thesis by blast
qed

lemma shm_failed_new_leaves_segment_witness:
  "\<exists>s :: os. \<exists>t. SharedMemory_new 5 16 False s = Fin None t \<and>
     SharedMemory_new 5 16 False t = Fin None (t\<lparr>err := EEXIST\<rparr>)"
proof -
  let ?s = "boot_os\<lparr>ker := new_set (made_set 133 1 1 boot_os) boot_ipc\<rparr>"
  have "can_make 133 1 boot_os"
    by (simp add: can_make_def key_ok_def SEMKEY_def boot_os_def boot_ipc_def IPC_PRIVATE_def)
  from names_made [OF this, of 1] have "names_set (guard_key 5) 0 (made_set 133 1 1 boot_os) ?s"
    by (simp add: guard_key_def boot_os_def boot_ipc_def)
  from shm_failed_new_leaves_segment [OF this, of 16 16] show ?thesis
    by (simp add: made_set_def SHMKEY_def boot_os_def boot_ipc_def IPC_PRIVATE_def) blast
qed

end
