(* ===== verification/C_Library.thy ===== *)
theory C_Library
  imports Prelude
begin

text \<open>
  The functions of the C library that the commands use on their arguments: \<open>atoi\<close>,
  \<open>strncmp\<close> and \<open>memcmp\<close> against a literal, and GNU \<open>getopt_long\<close>. A C string
  is its list of characters before the terminating null character.
\<close>

section \<open>Comparing\<close>

text \<open>
  \<open>strncmp\<close> as a test for equality: at most \<open>n\<close> characters are compared, and nothing
  after the end of both strings. A call of \<open>memcmp\<close> with the size of a literal including its
  null character decides the same question.
\<close>

fun strncmp_eq :: "string \<Rightarrow> string \<Rightarrow> nat \<Rightarrow> bool" where
  "strncmp_eq a b 0 = True"
| "strncmp_eq [] [] (Suc n) = True"
| "strncmp_eq [] (d # b) (Suc n) = False"
| "strncmp_eq (c # a) [] (Suc n) = False"
| "strncmp_eq (c # a) (d # b) (Suc n) = (c = d \<and> strncmp_eq a b n)"

lemma strncmp_eq_whole: "length b < n \<Longrightarrow> strncmp_eq a b n \<longleftrightarrow> a = b"
  by (induction a b n rule: strncmp_eq.induct) auto

section \<open>Numbers\<close>

definition code_of :: "char \<Rightarrow> nat" where
  "code_of c = of_char c"

definition is_digit :: "char \<Rightarrow> bool" where
  "is_digit c \<longleftrightarrow> 48 \<le> code_of c \<and> code_of c \<le> 57"

definition is_space :: "char \<Rightarrow> bool" where
  "is_space c \<longleftrightarrow> code_of c = 32 \<or> 9 \<le> code_of c \<and> code_of c \<le> 13"

fun digits_value :: "int \<Rightarrow> string \<Rightarrow> int" where
  "digits_value acc [] = acc"
| "digits_value acc (c # cs) =
     (if is_digit c then digits_value (10 * acc + int (code_of c) - 48) cs else acc)"

text \<open>\<open>atoi\<close> is \<open>strtol\<close> in base 10, limited to \<open>long\<close>, cut to \<open>int\<close>.\<close>

definition strtol10 :: "string \<Rightarrow> int" where
  "strtol10 s = (let r = dropWhile is_space s;
       n = (case r of [] \<Rightarrow> 0
          | c # cs \<Rightarrow> if c = CHR ''-'' then - digits_value 0 cs
                     else if c = CHR ''+'' then digits_value 0 cs else digits_value 0 r)
     in max (- (2 ^ 63)) (min (2 ^ 63 - 1) n))"

definition atoi :: "string \<Rightarrow> int" where
  "atoi s = to_int (strtol10 s)"

text \<open>
  \<open>strtoul\<close> with base 0: the number, in the range of \<open>unsigned long\<close>, and what follows it
  (the whole string when there is no number). A minus sign negates in that range.
\<close>

definition digit_value :: "char \<Rightarrow> nat" where
  "digit_value c = (let n = code_of c in
     if 48 \<le> n \<and> n \<le> 57 then n - 48
     else if 97 \<le> n \<and> n \<le> 122 then n - 87
     else if 65 \<le> n \<and> n \<le> 90 then n - 55
     else 36)"

fun digits_in :: "nat \<Rightarrow> nat \<Rightarrow> string \<Rightarrow> nat \<times> string" where
  "digits_in base acc [] = (acc, [])"
| "digits_in base acc (c # cs) =
     (if digit_value c < base then digits_in base (base * acc + digit_value c) cs else (acc, c # cs))"

definition strtoul0 :: "string \<Rightarrow> nat \<times> string" where
  "strtoul0 s =
     (let r = dropWhile is_space s;
          neg = (take 1 r = ''-'');
          r = (if take 1 r = ''-'' \<or> take 1 r = ''+'' then drop 1 r else r);
          hex = ((take 2 r = ''0x'' \<or> take 2 r = ''0X'') \<and> 2 < length r \<and> digit_value (r ! 2) < 16);
          base = (if hex then 16 else if take 1 r = ''0'' then 8 else 10);
          r = (if hex then drop 2 r else r) in
      if r = [] \<or> \<not> digit_value (hd r) < base then (0, s)
      else let (n, rest) = digits_in base 0 r in
        (if 2 ^ 64 \<le> n then 2 ^ 64 - 1 else if neg then (2 ^ 64 - n) mod 2 ^ 64 else n, rest))"

text \<open>Decimal notation, as a user types it.\<close>

definition digit_char :: "nat \<Rightarrow> char" where
  "digit_char d = char_of (48 + d)"

fun decimal :: "nat \<Rightarrow> string" where
  "decimal n = (if n < 10 then [digit_char n] else decimal (n div 10) @ [digit_char (n mod 10)])"

declare decimal.simps [simp del]

definition decimal_int :: "int \<Rightarrow> string" where
  "decimal_int n = (if n < 0 then CHR ''-'' # decimal (nat (- n)) else decimal (nat n))"

lemma code_of_digit [simp]: "d < 10 \<Longrightarrow> code_of (digit_char d) = 48 + d"
  by (simp add: code_of_def digit_char_def)

lemma is_digit_char [simp]: "d < 10 \<Longrightarrow> is_digit (digit_char d)"
  by (simp add: is_digit_def)

lemma decimal_digits: "c \<in> set (decimal n) \<Longrightarrow> is_digit c"
proof (induction n rule: decimal.induct)
  case (1 n)
  then show ?case by (subst (asm) (2) decimal.simps) (auto split: if_splits)
qed

lemma decimal_nonempty: "decimal n \<noteq> []"
  by (subst decimal.simps) simp

lemma digits_value_append:
  "(\<And>c. c \<in> set xs \<Longrightarrow> is_digit c) \<Longrightarrow> digits_value a (xs @ ys) = digits_value (digits_value a xs) ys"
  by (induction xs arbitrary: a) auto

lemma digits_value_decimal: "digits_value 0 (decimal n) = int n"
proof (induction n rule: decimal.induct)
  case (1 n)
  show ?case
  proof (cases "n < 10")
    case True
    then show ?thesis by (subst decimal.simps) simp
  next
    case False
    with 1 have "digits_value 0 (decimal n) = digits_value (int (n div 10)) [digit_char (n mod 10)]"
      by (subst decimal.simps) (simp add: digits_value_append decimal_digits)
    also have "\<dots> = int n" by (simp add: zdiv_int zmod_int)
    finally show ?thesis .
  qed
qed

lemma digit_not_special: "is_digit c \<Longrightarrow> c \<noteq> CHR ''-'' \<and> c \<noteq> CHR ''+'' \<and> \<not> is_space c"
  by (auto simp: is_digit_def is_space_def code_of_def)

lemma decimal_hd:
  obtains c cs where "decimal n = c # cs" "is_digit c" "c \<noteq> CHR ''-''" "c \<noteq> CHR ''+''" "\<not> is_space c"
proof -
  obtain c cs where "decimal n = c # cs" using decimal_nonempty [of n] by (cases "decimal n") auto
  moreover from this have "is_digit c" using decimal_digits [of c n] by simp
  ultimately show thesis using that digit_not_special by blast
qed

text \<open>Reading back what was printed, for every \<open>int\<close>.\<close>

lemma atoi_decimal:
  assumes "- (2 ^ 31) \<le> n" and "n < 2 ^ 31"
  shows "atoi (decimal_int n) = n"
proof -
  have "strtol10 (decimal_int n) = n"
  proof (cases "n < 0")
    case True
    have "\<not> is_space (CHR ''-'')" by (simp add: is_space_def code_of_def)
    then show ?thesis
      using True assms by (simp add: strtol10_def decimal_int_def digits_value_decimal Let_def)
  next
    case False
    obtain c cs where c: "decimal (nat n) = c # cs" "c \<noteq> CHR ''-''" "c \<noteq> CHR ''+''" "\<not> is_space c"
      by (rule decimal_hd [of "nat n"])
    moreover have "digits_value 0 (c # cs) = int (nat n)"
      using digits_value_decimal [of "nat n"] c(1) by simp
    ultimately show ?thesis
      using False assms by (simp add: strtol10_def decimal_int_def Let_def)
  qed
  with assms show ?thesis by (simp add: atoi_def to_int_id)
qed

section \<open>Options\<close>

text \<open>
  One result of \<open>getopt_long\<close>: the option's character and \<open>optarg\<close>; an option that is
  unknown, ambiguous or lacks its argument is reported as \<open>?\<close>.
\<close>

datatype opt = Opt char string

definition bad_opt :: opt where "bad_opt = Opt (CHR ''?'') []"

record long_option =
  lo_name :: string
  lo_arg :: bool
  lo_val :: char

text \<open>Which characters are options, and whether they take an argument (\<open>s:\<close>).\<close>

fun short_kind :: "string \<Rightarrow> char \<Rightarrow> bool option" where
  "short_kind [] c = None"
| "short_kind (d # ds) c =
     (if c = CHR '':'' then None
      else if c = d then Some (case ds of e # _ \<Rightarrow> e = CHR '':'' | [] \<Rightarrow> False)
      else short_kind ds c)"

text \<open>The characters after one dash; \<open>args\<close> are the arguments that follow.\<close>

fun short_opts :: "string \<Rightarrow> string \<Rightarrow> string list \<Rightarrow> opt list \<times> string list" where
  "short_opts spec [] args = ([], args)"
| "short_opts spec (c # cs) args =
     (case short_kind spec c of
        Some True \<Rightarrow>
          (if cs \<noteq> [] then ([Opt c cs], args)
           else case args of [] \<Rightarrow> ([bad_opt], []) | a # rest \<Rightarrow> ([Opt c a], rest))
      | Some False \<Rightarrow> (let (os, rest) = short_opts spec cs args in (Opt c [] # os, rest))
      | None \<Rightarrow> (let (os, rest) = short_opts spec cs args in (bad_opt # os, rest)))"

text \<open>A long option: its name may be cut as long as only one option starts with it.\<close>

definition find_long :: "long_option list \<Rightarrow> string \<Rightarrow> long_option option" where
  "find_long longs name =
     (case filter (\<lambda>l. lo_name l = name) longs of
        l # _ \<Rightarrow> Some l
      | [] \<Rightarrow> (case filter (\<lambda>l. take (length name) (lo_name l) = name) longs of [l] \<Rightarrow> Some l | _ \<Rightarrow> None))"

definition long_opt :: "long_option list \<Rightarrow> string \<Rightarrow> string list \<Rightarrow> opt list \<times> string list" where
  "long_opt longs a args =
     (let name = takeWhile (\<lambda>c. c \<noteq> CHR ''='') a; val = dropWhile (\<lambda>c. c \<noteq> CHR ''='') a in
      case find_long longs name of
        None \<Rightarrow> ([bad_opt], args)
      | Some l \<Rightarrow>
          (if val \<noteq> [] then ([if lo_arg l then Opt (lo_val l) (tl val) else bad_opt], args)
           else if \<not> lo_arg l then ([Opt (lo_val l) []], args)
           else case args of [] \<Rightarrow> ([bad_opt], []) | b # rest \<Rightarrow> ([Opt (lo_val l) b], rest)))"

lemma short_opts_rest: "length (snd (short_opts spec cs args)) \<le> length args"
  by (induction spec cs args rule: short_opts.induct)
    (auto simp: split_def Let_def split: option.split bool.split list.split)

lemma long_opt_rest: "length (snd (long_opt longs a args)) \<le> length args"
  by (auto simp: long_opt_def Let_def split: option.split list.split)

text \<open>
  All calls of \<open>getopt_long\<close> until it returns -1: the options in the order given, and the
  other arguments, which it moves to the end (\<open>argv + optind\<close>), in their order.
\<close>

function getopt_long :: "string \<Rightarrow> long_option list \<Rightarrow> string list \<Rightarrow> opt list \<times> string list" where
  "getopt_long spec longs [] = ([], [])"
| "getopt_long spec longs (a # args) =
     (if a = ''--'' then ([], args)
      else if take 2 a = ''--'' then
        (let r = long_opt longs (drop 2 a) args; q = getopt_long spec longs (snd r) in
         (fst r @ fst q, snd q))
      else if take 1 a = ''-'' \<and> 1 < length a then
        (let r = short_opts spec (drop 1 a) args; q = getopt_long spec longs (snd r) in
         (fst r @ fst q, snd q))
      else (let q = getopt_long spec longs args in (fst q, a # snd q)))"
  by pat_completeness auto
termination
  by (relation "measure (\<lambda>(spec, longs, args). length args)")
    (auto simp: le_imp_less_Suc [OF long_opt_rest] le_imp_less_Suc [OF short_opts_rest])

text \<open>An argument that is not an option, and the short form of an option with an argument.\<close>

lemma getopt_positional:
  "take 1 a \<noteq> ''-'' \<Longrightarrow> getopt_long spec longs (a # args) =
     (fst (getopt_long spec longs args), a # snd (getopt_long spec longs args))"
  by (cases a) (auto simp: Let_def)

lemma getopt_short_arg:
  "short_kind spec c = Some True \<Longrightarrow> c \<noteq> CHR ''-'' \<Longrightarrow>
     getopt_long spec longs ([CHR ''-'', c] # b # args) =
       (Opt c b # fst (getopt_long spec longs args), snd (getopt_long spec longs args))"
  by (simp add: Let_def)

lemma getopt_short_flag:
  "short_kind spec c = Some False \<Longrightarrow> c \<noteq> CHR ''-'' \<Longrightarrow>
     getopt_long spec longs ([CHR ''-'', c] # args) =
       (Opt c [] # fst (getopt_long spec longs args), snd (getopt_long spec longs args))"
  by (simp add: Let_def)

end
