(* ===== verification/Lock_Cmd.thy ===== *)
theory Lock_Cmd
  imports SharedMemory C_Library
begin

text \<open>
  The command \<open>lock\<close> of \<open>src/src/lock.h\<close> and \<open>src/src/lock.c\<close>: a counting semaphore
  under a key with its size and its expiry kept in a segment of shared memory under the same
  key. The file's global variables are fields of the state; \<open>lock\<close> is \<open>lock_lock\<close> and
  so on.
\<close>

section \<open>State\<close>

record lock_os = os +
  g_delta :: int
  g_expiry :: u32
  g_verbose :: int
  diag :: "(string \<times> int list) list"

definition SHSEM_COUNT :: u16 where "SHSEM_COUNT = 1"
definition SHSEM_SIZE :: u16 where "SHSEM_SIZE = 1"
definition SHSEM_INDEX :: u16 where "SHSEM_INDEX = 0"

definition dbg_printf :: "string \<Rightarrow> int list \<Rightarrow> 'z lock_os_scheme \<Rightarrow> ('z lock_os_scheme, unit) run" where
  "dbg_printf fmt args s =
     (if g_verbose s = 0 then Fin () s else Fin () (s\<lparr>diag := diag s @ [(fmt, args)]\<rparr>))"

section \<open>The operations\<close>

text \<open>
  \<open>init\<close> reads the size and the expiry date from the segment; the result holds the
  semaphore object with its size set. The sum of \<open>Semaphore$ctime\<close> and the third cell is
  evaluated from left to right.
\<close>

definition lock_init :: "Semaphore \<Rightarrow> 'z lock_os_scheme \<Rightarrow> ('z lock_os_scheme, int \<times> Semaphore) run" where
  "lock_init shsem =
     bindr (SharedMemory_attach (sem_key shsem)) (\<lambda>p.
     case p of
       None \<Rightarrow>
         bindr (dbg_printf ''SharedMemory %d does not exist.'' [sint (sem_key shsem)]) (\<lambda>_.
         retr (- 1, shsem))
     | Some shmem \<Rightarrow>
         if shm_sem shmem = Null then
           bindr (dbg_printf ''SharedMemory %d does have a valid Sempahore.'' [sint (sem_key shsem)]) (\<lambda>_.
           retr (- 1, shsem))
         else
           bindr (SharedMemory_read_uint shmem 0) (\<lambda>sz.
           let shsem = Semaphore_set_size shsem (ucast sz) in
           bindr (SharedMemory_read_uint shmem 1) (\<lambda>x.
           bindr (modify (\<lambda>s. s\<lparr>g_expiry := x\<rparr>)) (\<lambda>_.
           bindr (if x \<noteq> 0 then
                    bindr time_now (\<lambda>now.
                    bindr (Semaphore_ctime shsem) (\<lambda>c.
                    bindr (SharedMemory_read_uint shmem 2) (\<lambda>d.
                    modify (\<lambda>s. s\<lparr>g_delta := (c + uint d) - now\<rparr>))))
                  else retr ()) (\<lambda>_.
           bindr (SharedMemory_delete shmem False) (\<lambda>_.
           retr (0, shsem)))))))"

definition lock_create :: "u32 \<Rightarrow> u32 \<Rightarrow> int \<Rightarrow> 'z lock_os_scheme \<Rightarrow> ('z lock_os_scheme, int) run" where
  "lock_create key semaphores expire =
     bindr (Semaphore_new key SHSEM_COUNT (ucast semaphores) False) (\<lambda>p.
     case p of
       Some shsem \<Rightarrow>
         bindr (SharedMemory_new key (4 * 4) False) (\<lambda>q.
         bindr (case q of
             Some shmem \<Rightarrow>
               bindr (SharedMemory_write_uint shmem 0 semaphores) (\<lambda>_.
               bindr (SharedMemory_write_uint shmem 1 (if expire \<noteq> 0 then 1 else 0)) (\<lambda>_.
               bindr (SharedMemory_write_uint shmem 2 (word_of_int expire)) (\<lambda>_.
               bindr (SharedMemory_write_uint shmem 3 0) (\<lambda>_.
               bindr (SharedMemory_delete shmem False) (\<lambda>_. retr 0)))))
           | None \<Rightarrow>
               bindr (dbg_printf ''A shmem segment with key %i already exists.'' [sint key]) (\<lambda>_. retr (- 1)))
           (\<lambda>e. bindr (Semaphore_delete shsem False) (\<lambda>_. retr e)))
     | None \<Rightarrow>
         bindr (dbg_printf ''A shsem with key %i already exists.'' [sint key]) (\<lambda>_. retr (- 1)))"

definition lock_delete :: "u32 \<Rightarrow> 'z lock_os_scheme \<Rightarrow> ('z lock_os_scheme, int) run" where
  "lock_delete key =
     bindr (Semaphore_attach key) (\<lambda>p.
     bindr (case p of
         Some shsem \<Rightarrow> bindr (Semaphore_delete shsem True) (\<lambda>_. retr (0 :: int))
       | None \<Rightarrow> bindr (dbg_printf ''No shsem with key %d.'' [sint key]) (\<lambda>_. retr 1)) (\<lambda>e.
     bindr (SharedMemory_attach key) (\<lambda>q.
     case q of
       Some shmem \<Rightarrow> bindr (SharedMemory_delete shmem True) (\<lambda>_. retr e)
     | None \<Rightarrow> bindr (dbg_printf ''No shmem with key %d.'' [sint key]) (\<lambda>_. retr (e + 1)))))"

definition lock_status :: "u32 \<Rightarrow> 'z lock_os_scheme \<Rightarrow> ('z lock_os_scheme, int) run" where
  "lock_status key =
     bindr (Semaphore_attach key) (\<lambda>p.
     bindr (case p of
         Some shsem \<Rightarrow>
           bindr (lock_init shsem) (\<lambda>(_, shsem).
           bindr (gets g_expiry) (\<lambda>expiry.
           bindr (gets g_delta) (\<lambda>delta.
           let (e, d) = (if expiry \<noteq> 0 then (if delta > 0 then (0, to_int delta) else (- 1, - 1)) else (0, - 1)) in
           if e = 0 then
             bindr (Semaphore_used shsem SHSEM_INDEX) (\<lambda>u.
             retr (e, u, Semaphore_get_size shsem, d))
           else retr (e, - 1, - 1, d))))
       | None \<Rightarrow> retr (- 1, - 1, - 1, - 1)) (\<lambda>(e, u, sz, d).
     bindr (printf ''%d %d %d'' [u, sz, d]) (\<lambda>_. retr e)))"

definition lock_summary :: "u32 \<Rightarrow> 'z lock_os_scheme \<Rightarrow> ('z lock_os_scheme, int) run" where
  "lock_summary key =
     bindr (Semaphore_attach key) (\<lambda>p.
     case p of
       Some shsem \<Rightarrow>
         bindr (lock_init shsem) (\<lambda>(_, shsem).
         bindr (Semaphore_desc shsem SHSEM_INDEX) (\<lambda>_.
         bindr (gets g_expiry) (\<lambda>expiry.
         bindr (gets g_delta) (\<lambda>delta.
         bindr (if expiry \<noteq> 0 then
                  (if delta > 0 then printf ''Expires In:   %lis'' [delta]
                   else printf ''Semaphore has expired.'' [])
                else printf ''Never expires.'' []) (\<lambda>_.
         bindr (Semaphore_delete shsem False) (\<lambda>_. retr 0))))))
     | None \<Rightarrow>
         bindr (dbg_printf ''No semaphore set in memory with key %u'' [uint key]) (\<lambda>_. retr (- 1)))"

definition lock_lock :: "u32 \<Rightarrow> int \<Rightarrow> 'z lock_os_scheme \<Rightarrow> ('z lock_os_scheme, int) run" where
  "lock_lock key timeout =
     bindr (Semaphore_exists key) (\<lambda>ex.
     if ex then
       bindr (Semaphore_attach key) (\<lambda>p.
       case p of
         Some shsem \<Rightarrow>
           bindr (lock_init shsem) (\<lambda>(_, shsem).
           bindr (gets g_expiry) (\<lambda>expiry.
           bindr (gets g_delta) (\<lambda>delta.
           bindr (if expiry \<noteq> 0 then
                    (if delta > 0 then
                       let t = to_int (if timeout = 0 then delta else min delta timeout) in
                       Semaphore_lock shsem SHSEM_INDEX True t
                     else bindr (lock_delete key) (\<lambda>_. retr (- 1)))
                  else Semaphore_lock shsem SHSEM_INDEX True timeout) (\<lambda>e.
           bindr (if e = - 1 then dbg_printf ''No more semaphores to lock.'' [] else retr ()) (\<lambda>_.
           bindr (Semaphore_delete shsem False) (\<lambda>_. retr e))))))
       | None \<Rightarrow>
           bindr (dbg_printf ''Semaphores %d does exist, but could not be attached to.'' [sint key]) (\<lambda>_.
           retr (- 1)))
     else
       bindr (dbg_printf ''Semaphores %d does not exist.'' [sint key]) (\<lambda>_. retr (- 1)))"

definition lock_unlock :: "u32 \<Rightarrow> 'z lock_os_scheme \<Rightarrow> ('z lock_os_scheme, int) run" where
  "lock_unlock key =
     bindr (Semaphore_attach key) (\<lambda>p.
     case p of
       Some shsem \<Rightarrow>
         bindr (lock_init shsem) (\<lambda>(_, shsem).
         bindr (Semaphore_unlock shsem SHSEM_INDEX True) (\<lambda>e.
         bindr (if e = - 1 then dbg_printf ''No more semaphores to unlock.'' [] else retr ()) (\<lambda>_.
         bindr (Semaphore_delete shsem False) (\<lambda>_. retr e))))
     | None \<Rightarrow>
         bindr (dbg_printf ''Semaphores %d does not exist.'' [sint key]) (\<lambda>_. retr (- 1)))"

section \<open>The command line\<close>

definition usage_lines :: "string list" where
  "usage_lines =
    [''Usage:'',
     ''  lock <key> <action> [-v|--verbose]'',
     ''    NOTE: <key> must be in the range 0..127'',
     '''',
     ''  lock <key> create [-x|expire] [-s|--semaphores <semaphore-size>]'',
     ''    <semaphore-size> values:'',
     ''       1: Binary Semaphore (Mutext).'',
     ''      >1: Counting Semaphore.'',
     '''',
     ''  lock <key> on [-t|--timeout <timeout>]'',
     ''    <timeout> values:'',
     ''      -1: Non-Blocking (Immediate return).'',
     ''       0: Blocking (Default).'',
     ''      +N: Block for at most `N' seconds.'',
     '''',
     ''  lock <key> off'',
     '''',
     ''  lock <key> delete'',
     '''',
     ''  lock <key> status'',
     '''',
     ''  lock <key> summary'']"

definition lock_usage :: "'z lock_os_scheme \<Rightarrow> ('z lock_os_scheme, unit) run" where
  "lock_usage = modify (\<lambda>s. s\<lparr>out := out s @ map (\<lambda>l. (l, [])) usage_lines\<rparr>)"

definition lock_shortopts :: string where "lock_shortopts = ''s:t:vx:''"

definition lock_longopts :: "long_option list" where
  "lock_longopts =
    [\<lparr>lo_name = ''semaphores'', lo_arg = True, lo_val = CHR ''s''\<rparr>,
     \<lparr>lo_name = ''timeout'', lo_arg = True, lo_val = CHR ''t''\<rparr>,
     \<lparr>lo_name = ''verbose'', lo_arg = False, lo_val = CHR ''v''\<rparr>,
     \<lparr>lo_name = ''expire'', lo_arg = True, lo_val = CHR ''x''\<rparr>]"

text \<open>The variables that the option loop of \<open>main\<close> sets.\<close>

record lock_args =
  la_e :: int
  la_timeout :: int
  la_semaphores :: u16
  la_expire :: int
  la_expiry :: u32
  la_verbose :: bool

definition lock_defaults :: lock_args where
  "lock_defaults = \<lparr>la_e = 0, la_timeout = 0, la_semaphores = SHSEM_SIZE, la_expire = 0,
     la_expiry = 0, la_verbose = False\<rparr>"

fun lock_option :: "opt \<Rightarrow> lock_args \<Rightarrow> lock_args" where
  "lock_option (Opt c optarg) a =
     (if c = CHR ''s'' then a\<lparr>la_semaphores := word_of_int (atoi optarg)\<rparr>
      else if c = CHR ''t'' then a\<lparr>la_timeout := to_short (atoi optarg)\<rparr>
      else if c = CHR ''v'' then a\<lparr>la_verbose := True\<rparr>
      else if c = CHR ''x'' then a\<lparr>la_expire := atoi optarg, la_expiry := 1\<rparr>
      else a\<lparr>la_e := 1\<rparr>)"

definition lock_dispatch :: "lock_args \<Rightarrow> u32 \<Rightarrow> string \<Rightarrow> 'z lock_os_scheme \<Rightarrow> ('z lock_os_scheme, int) run" where
  "lock_dispatch a key action =
     (if strncmp_eq action ''on'' 3 then lock_lock key (la_timeout a)
      else if strncmp_eq action ''off'' 4 then lock_unlock key
      else if strncmp_eq action ''summary'' 8 then lock_summary key
      else if strncmp_eq action ''status'' 7 then lock_status key
      else if strncmp_eq action ''delete'' 7 then lock_delete key
      else if strncmp_eq action ''create'' 7 then lock_create key (ucast (la_semaphores a)) (la_expire a)
      else if strncmp_eq action ''help'' 5 then bindr lock_usage (\<lambda>_. retr 0)
      else bindr lock_usage (\<lambda>_. retr (- 1)))"

text \<open>
  \<open>main\<close> on the arguments after the program's name. When \<open>getopt_long\<close> leaves fewer than
  two of them, \<open>argv[0]\<close> or \<open>argv[1]\<close> is NULL and is read all the same.
\<close>

definition lock_main :: "string list \<Rightarrow> 'z lock_os_scheme \<Rightarrow> ('z lock_os_scheme, int) run" where
  "lock_main argv =
     (if length argv + 1 > 2 then
        (let (opts, rest) = getopt_long lock_shortopts lock_longopts argv;
             a = fold lock_option opts lock_defaults in
         bindr (modify (\<lambda>s. s\<lparr>g_delta := 0, g_expiry := la_expiry a,
             g_verbose := (if la_verbose a then 1 else g_verbose s)\<rparr>)) (\<lambda>_.
         if la_e a = 0 then
           (case rest of
              [] \<Rightarrow> stop Undefined
            | [_] \<Rightarrow> stop Undefined
            | k # action # _ \<Rightarrow>
                (let key = word_of_int (atoi k) in
                 bindr (gets g_delta) (\<lambda>delta.
                 bindr (if delta < 0 then lock_unlock key else retr 0) (\<lambda>_.
                 lock_dispatch a key action))))
         else bindr lock_usage (\<lambda>_. retr (- 2))))
      else bindr lock_usage (\<lambda>_. retr 0))"

section \<open>Every command keeps the kernel state well-formed\<close>

lemma wf_os_lock_upd [simp]:
  "wf_os (s\<lparr>g_delta := d\<rparr>) = wf_os s" "wf_os (s\<lparr>g_expiry := x\<rparr>) = wf_os s"
  "wf_os (s\<lparr>g_verbose := v\<rparr>) = wf_os s" "wf_os (s\<lparr>diag := p\<rparr>) = wf_os s"
  by (simp_all add: wf_os_def)

lemma keeps_dbg_printf [keeps]: "keeps (dbg_printf f a) wf_os"
  by (rule keepsI) (simp add: dbg_printf_def)

lemma keeps_usage [keeps]: "keeps lock_usage wf_os"
  unfolding lock_usage_def by (rule keeps_modify) simp

lemma keeps_lock_init [keeps]: "keeps (lock_init sm) wf_os"
  unfolding lock_init_def Let_def by (intro keeps keeps_modify) simp_all

lemma keeps_lock_create [keeps]: "keeps (lock_create key n x) wf_os"
  unfolding lock_create_def by (intro keeps)

lemma keeps_lock_delete [keeps]: "keeps (lock_delete key) wf_os"
  unfolding lock_delete_def by (intro keeps)

lemma keeps_lock_status [keeps]: "keeps (lock_status key) wf_os"
  unfolding lock_status_def Let_def split_def by (intro keeps)

lemma keeps_lock_summary [keeps]: "keeps (lock_summary key) wf_os"
  unfolding lock_summary_def split_def by (intro keeps)

lemma keeps_lock_lock [keeps]: "keeps (lock_lock key t) wf_os"
  unfolding lock_lock_def Let_def split_def by (intro keeps)

lemma keeps_lock_unlock [keeps]: "keeps (lock_unlock key) wf_os"
  unfolding lock_unlock_def split_def by (intro keeps)

lemma keeps_lock_dispatch [keeps]: "keeps (lock_dispatch a key action) wf_os"
  unfolding lock_dispatch_def by (intro keeps)

lemma keeps_args [keeps]:
  "keeps m I \<Longrightarrow> (\<And>x. keeps (f x) I) \<Longrightarrow> (\<And>x y zs. keeps (g x y zs) I) \<Longrightarrow>
    keeps (case xs of [] \<Rightarrow> m | [x] \<Rightarrow> f x | x # y # zs \<Rightarrow> g x y zs) I"
  by (cases xs; cases "tl xs") auto

lemma keeps_lock_main [keeps]: "keeps (lock_main argv) wf_os"
  unfolding lock_main_def Let_def split_def by (intro keeps keeps_modify) simp_all

end
