(* ===== verification/Lock_Spec.thy ===== *)
theory Lock_Spec
  imports Lock_Cmd
begin

text \<open>
  What the command \<open>lock\<close> promises, stated without the kernel: a named lock is a number of
  free units, a size, and possibly a date after which it counts as gone. The lemmas relate every
  command of \<open>Lock_Cmd\<close> to a step of that abstract lock in a quiet system.
\<close>

section \<open>The abstract lock\<close>

record named_lock =
  nl_size :: u16
  nl_expiry :: "u32 option"
  nl_made :: int
  nl_free :: nat

definition left_until :: "named_lock \<Rightarrow> int \<Rightarrow> int" where
  "left_until L now = (case nl_expiry L of None \<Rightarrow> 0 | Some d \<Rightarrow> nl_made L + uint d - now)"

definition expired :: "named_lock \<Rightarrow> int \<Rightarrow> bool" where
  "expired L now \<longleftrightarrow> nl_expiry L \<noteq> None \<and> left_until L now \<le> 0"

definition new_lock :: "u16 \<Rightarrow> int \<Rightarrow> int \<Rightarrow> named_lock" where
  "new_lock n x now = \<lparr>nl_size = n, nl_expiry = (if x = 0 then None else Some (word_of_int x)),
     nl_made = now, nl_free = unat n\<rparr>"

text \<open>How long a caller with a given timeout waits: not past the expiry date.\<close>

definition wait_for :: "named_lock \<Rightarrow> int \<Rightarrow> int \<Rightarrow> int" where
  "wait_for L now timeout = (if nl_expiry L = None then timeout
     else to_int (if timeout = 0 then left_until L now else min (left_until L now) timeout))"

datatype lock_cmd = On int | Off | Status | Summary | Delete | Create u16 int

text \<open>
  One command at time \<open>now\<close>: its result, the time after it and the lock after it; nothing
  when it waits for ever.
\<close>

fun spec_cmd :: "lock_cmd \<Rightarrow> int \<Rightarrow> named_lock option \<Rightarrow> (int \<times> int \<times> named_lock option) option" where
  "spec_cmd (On timeout) now None = Some (- 1, now, None)"
| "spec_cmd (On timeout) now (Some L) =
     (if expired L now then Some (- 1, now, None)
      else let t = wait_for L now timeout in
        if 0 < nl_free L \<and> - 1 \<le> t then Some (0, now, Some (L\<lparr>nl_free := nl_free L - 1\<rparr>))
        else if t = 0 then None
        else Some (1, now + max 0 t, Some L))"
| "spec_cmd Off now None = Some (- 1, now, None)"
| "spec_cmd Off now (Some L) =
     (if nl_free L < unat (nl_size L) then Some (0, now, Some (L\<lparr>nl_free := nl_free L + 1\<rparr>))
      else Some (- 1, now, Some L))"
| "spec_cmd Status now None = Some (- 1, now, None)"
| "spec_cmd Status now (Some L) = Some (if expired L now then - 1 else 0, now, Some L)"
| "spec_cmd Summary now None = Some (- 1, now, None)"
| "spec_cmd Summary now (Some L) = Some (0, now, Some L)"
| "spec_cmd Delete now None = Some (2, now, None)"
| "spec_cmd Delete now (Some L) = Some (0, now, None)"
| "spec_cmd (Create n x) now (Some L) = Some (- 1, now, Some L)"
| "spec_cmd (Create n x) now None =
     Some (0, now, Some (new_lock n x now))"

section \<open>How the kernel represents it\<close>

definition lock_cells :: "named_lock \<Rightarrow> u32 list" where
  "lock_cells L = [ucast (nl_size L), (case nl_expiry L of None \<Rightarrow> 0 | Some d \<Rightarrow> 1),
     (case nl_expiry L of None \<Rightarrow> 0 | Some d \<Rightarrow> d), 0]"

definition lock_set :: "u32 \<Rightarrow> named_lock \<Rightarrow> semset" where
  "lock_set q L = \<lparr>ss_key = q, ss_vals = [nl_free L], ss_ctime = nl_made L, ss_adj = (\<lambda>_ _. 0)\<rparr>"

definition guard_set :: "u32 \<Rightarrow> int \<Rightarrow> semset" where
  "guard_set q c = \<lparr>ss_key = q, ss_vals = [1], ss_ctime = c, ss_adj = (\<lambda>_ _. 0)\<rparr>"

text \<open>Set \<open>i\<close> is the lock, set \<open>j\<close> the mutex of segment \<open>m\<close>, which holds the record.\<close>

definition rep_at :: "u32 \<Rightarrow> named_lock \<Rightarrow> int \<Rightarrow> int \<Rightarrow> int \<Rightarrow> segment \<Rightarrow> 'z os_scheme \<Rightarrow> bool" where
  "rep_at key L i j m sg s \<longleftrightarrow>
     names_set key i (lock_set (SEMKEY key s) L) s \<and>
     names_set (guard_key key) j (guard_set (SEMKEY (guard_key key) s) (nl_made L)) s \<and>
     names_seg key m sg s \<and> \<not> sg_dest sg \<and> length (sg_data sg) = 16 \<and> cells (sg_data sg) = lock_cells L \<and>
     nl_free L \<le> unat (nl_size L) \<and> unat (nl_size L) \<le> semvmx (ker s)"

definition lock_rep :: "u32 \<Rightarrow> named_lock option \<Rightarrow> 'z os_scheme \<Rightarrow> bool" where
  "lock_rep key p s \<longleftrightarrow> (case p of
     None \<Rightarrow> semkeys (ker s) (SEMKEY key s) = None \<and> semkeys (ker s) (SEMKEY (guard_key key) s) = None \<and>
             shmkeys (ker s) (SHMKEY key s) = None
   | Some L \<Rightarrow> (\<exists>i j m sg. rep_at key L i j m sg s))"

text \<open>
  A quiet system with room for a lock and at least Linux's limit of semaphore values, and an indeterminate size that does not reach past the
  four cells.
\<close>

definition calm :: "'z os_scheme \<Rightarrow> bool" where
  "calm s \<longleftrightarrow> quiet s \<and> wf_ipc (ker s) \<and> ftok_ok s \<and> 1 \<le> semmsl (ker s) \<and> 32767 \<le> semvmx (ker s) \<and>
     shmmin (ker s) \<le> 16 \<and> 16 \<le> shmmax (ker s) \<and> junk s \<le> 16"

lemma calmD:
  assumes "calm s"
  shows "script s = []" "mallocs s = []" "wf_os s" "key_ok q s" "SHMKEY q s \<noteq> IPC_PRIVATE"
    "SEMKEY q s = SEMKEY q' s \<longleftrightarrow> (ucast q :: u8) = ucast q'"
proof -
  note c = assms [unfolded calm_def quiet_def]
  from c show "script s = []" "mallocs s = []" "wf_os s" by (simp_all add: wf_os_def)
  from c show "key_ok q s" by (simp add: ftok_ok_key)
  from c show "SHMKEY q s \<noteq> IPC_PRIVATE" unfolding SHMKEY_def ftok_ok_def by (metis rangeI)
  from c show "SEMKEY q s = SEMKEY q' s \<longleftrightarrow> (ucast q :: u8) = ucast q'"
    unfolding SEMKEY_def ftok_ok_def by (metis injD)
qed

lemma mod_256_add: "(k + 128) mod 256 = ((k :: int) mod 4294967296 + 128) mod 256"
proof -
  have "(k mod 4294967296 + 128) mod 256 = ((k mod 4294967296) mod 256 + 128) mod 256"
    by (simp only: mod_add_left_eq)
  also have "\<dots> = (k mod 256 + 128) mod 256" by (simp add: mod_mod_cancel)
  also have "\<dots> = (k + 128) mod 256" by (simp only: mod_add_left_eq)
  finally show ?thesis ..
qed

lemma low_byte_add: "(ucast ((key :: u32) + 128) :: u8) = ucast key + 128"
  by transfer (simp only: take_bit_eq_mod len_bit0 len_num1, simp add: mod_mod_cancel mod_simps, rule mod_256_add)

lemma guard_key_differs: "(ucast (guard_key key) :: u8) \<noteq> ucast key"
  by (simp add: guard_key_def low_byte_add)

section \<open>Reading the record\<close>

lemma cells_attach [simp]: "sg_data (sg\<lparr>sg_nattch := n\<rparr>) = sg_data sg"
  by simp

text \<open>
  The object that \<open>init\<close> attaches to is ready, its cells are the lock's record, and nothing of
  the lock changes by attaching.
\<close>

lemma attached_ready:
  assumes "rep_at key L i j m sg s" and "calm s"
  shows "shm_ready (attached_obj key m j s) (attach_seg m sg s)"
    and "shm_cells (attached_obj key m j s) (attach_seg m sg s) = lock_cells L"
proof -
  note r = assms(1) [unfolded rep_at_def] assms(2) [unfolded calm_def]
  have seg: "seg_at (shm_addr (attached_obj key m j s)) (attach_seg m sg s) =
      Some (m, sg\<lparr>sg_nattch := Suc (sg_nattch sg)\<rparr>)"
    by (simp add: attached_obj_def seg_at_attach)
  show "shm_ready (attached_obj key m j s) (attach_seg m sg s)"
    using r seg
    by (auto simp: shm_ready_def attached_obj_def mutex_free_def sem_ok_def has_sem_def sem_value_def
        names_set_def guard_set_def)
  show "shm_cells (attached_obj key m j s) (attach_seg m sg s) = lock_cells L"
    using r seg by (simp add: shm_cells_def)
qed


definition lock_obj :: "u32 \<Rightarrow> int \<Rightarrow> u16 \<Rightarrow> Semaphore" where
  "lock_obj key i n = \<lparr>sem_key = key, sem_id = i, sem_count = 1, sem_size = n\<rparr>"

definition read_in :: "named_lock \<Rightarrow> int \<Rightarrow> segment \<Rightarrow> 'z lock_os_scheme \<Rightarrow> 'z lock_os_scheme" where
  "read_in L m sg s = (case nl_expiry L of
      None \<Rightarrow> (attach_seg m sg s)\<lparr>g_expiry := 0\<rparr>
    | Some d \<Rightarrow> (attach_seg m sg s)\<lparr>g_expiry := 1, g_delta := left_until L (clock (ker s))\<rparr>)"

lemma Semaphore_attach_rep:
  "rep_at key L i j m sg s \<Longrightarrow> Semaphore_attach key s = Fin (Some (lock_obj key i 1)) s"
  using Semaphore_attach_names [of key i "lock_set (SEMKEY key s) L" s]
  by (simp add: rep_at_def lock_set_def lock_obj_def)

lemma seg_at_upd [simp]: "seg_at a (s\<lparr>g_expiry := x\<rparr>) = seg_at a s" for s :: "'z lock_os_scheme"
  by (simp add: seg_at_def split: address.split option.split)

lemma shm_upd [simp]:
  "shm_ready this (s\<lparr>g_expiry := x\<rparr>) = shm_ready this s" "shm_cells this (s\<lparr>g_expiry := x\<rparr>) = shm_cells this s"
  for s :: "'z lock_os_scheme"
  by (simp_all add: shm_ready_def shm_cells_def mutex_free_def sem_ok_def)

lemma lock_init_rep:
  assumes r: "rep_at key L i j m sg s" and c: "calm s"
  shows "lock_init (lock_obj key i n) s = Fin (0, lock_obj key i (nl_size L)) (read_in L m sg s)"
proof -
  let ?o = "attached_obj key m j s" and ?t = "attach_seg m sg s"
  have att: "SharedMemory_attach key s = Fin (Some ?o) ?t"
    using r SharedMemory_attach_names [of key m sg s j "guard_set (SEMKEY (guard_key key) s) (nl_made L)"]
    by (simp add: rep_at_def) (simp add: guard_set_def)
  note ready = attached_ready [OF r c]
  have rd: "SharedMemory_read_uint ?o k ?t = Fin (lock_cells L ! unat k) ?t" if "unat k < 4" for k
    using that ready shm.rd_ready [of ?o ?t k] by (simp add: lock_cells_def)
  have rd': "SharedMemory_read_uint ?o 2 (?t\<lparr>g_expiry := 1\<rparr>) = Fin (lock_cells L ! 2) (?t\<lparr>g_expiry := 1\<rparr>)"
    using ready shm.rd_ready [of ?o "?t\<lparr>g_expiry := 1\<rparr>" 2] by (simp add: lock_cells_def)
  have del: "SharedMemory_delete ?o False = retr ()"
    by (simp add: SharedMemory_delete_def deref_sem_def Semaphore_delete_def attached_obj_def)
  have ct: "Semaphore_ctime (lock_obj key i (nl_size L)) (?t\<lparr>g_expiry := 1\<rparr>) = Fin (nl_made L) (?t\<lparr>g_expiry := 1\<rparr>)"
    using r c by (simp add: Semaphore_ctime_def semctl_stat_def run_simps calm_def quiet_def rep_at_def
        names_set_def lock_obj_def lock_set_def)
  have sem: "shm_sem ?o \<noteq> Null" by (simp add: attached_obj_def)
  have sz: "(ucast (ucast (nl_size L) :: u32) :: u16) = nl_size L"
    by (rule ucast_up_ucast_id) (simp add: is_up.rep_eq)
  show ?thesis
    using att sem
    by (cases "nl_expiry L")
      (simp_all add: lock_init_def run_simps lock_obj_def [of key i] rd rd' ct [unfolded lock_obj_def]
        lock_cells_def Semaphore_set_size_def read_in_def left_until_def time_now_def del Let_def sz)
qed


section \<open>What the commands change\<close>

definition same_limits :: "'z os_scheme \<Rightarrow> 'z os_scheme \<Rightarrow> bool" where
  "same_limits s t \<longleftrightarrow> script t = script s \<and> mallocs t = mallocs s \<and> ftok_of t = ftok_of s \<and> junk t = junk s \<and>
     semmsl (ker t) = semmsl (ker s) \<and> semvmx (ker t) = semvmx (ker s) \<and>
     shmmin (ker t) = shmmin (ker s) \<and> shmmax (ker t) = shmmax (ker s)"

lemma calm_step: "calm s \<Longrightarrow> same_limits s t \<Longrightarrow> wf_os t \<Longrightarrow> calm t"
  by (simp add: calm_def same_limits_def quiet_def ftok_ok_def wf_os_def)

lemma calm_every: "keeps cmd wf_os \<Longrightarrow> calm s \<Longrightarrow> every (cmd s) wf_os"
  by (rule keepsD) (simp_all add: calmD)

lemma same_limits_attach [simp]: "same_limits s (attach_seg m sg t) = same_limits s t"
  by (simp add: same_limits_def)

lemma sem_add_limits [simp]:
  "semmsl (sem_add p u i n d k) = semmsl k" "shmmin (sem_add p u i n d k) = shmmin k"
  "shmmax (sem_add p u i n d k) = shmmax k"
  by (simp_all add: sem_add_def split: option.split)

lemma same_limits_upd [simp]:
  "same_limits s (t\<lparr>err := e\<rparr>) = same_limits s t"
  "same_limits s (t\<lparr>out := p\<rparr>) = same_limits s t"
  "same_limits s (t\<lparr>err := e, ker := (ker t)\<lparr>clock := c\<rparr>\<rparr>) = same_limits s t"
  "same_limits s (add_to sm n u d t) = same_limits s t"
  "same_limits s s"
  by (simp_all add: same_limits_def add_to_def)

lemma same_limits_lock_upd [simp]:
  "same_limits s (t\<lparr>g_expiry := x\<rparr>) = same_limits s t" "same_limits s (t\<lparr>g_delta := d\<rparr>) = same_limits s t"
  "same_limits s (t\<lparr>diag := q\<rparr>) = same_limits s t" "same_limits s (t\<lparr>g_verbose := v\<rparr>) = same_limits s t"
  by (simp_all add: same_limits_def)

lemma same_limits_read_in [simp]: "same_limits s (read_in L m sg t) = same_limits s t"
  by (simp add: read_in_def split: option.split)

text \<open>Updates that the representation does not depend on.\<close>

lemma rep_at_upd [simp]:
  "rep_at key L i j m sg (t\<lparr>err := e\<rparr>) = rep_at key L i j m sg t"
  "rep_at key L i j m sg (t\<lparr>out := p\<rparr>) = rep_at key L i j m sg t"
  "rep_at key L i j m sg (t\<lparr>err := e, ker := (ker t)\<lparr>clock := c\<rparr>\<rparr>) = rep_at key L i j m sg t"
  by (simp_all add: rep_at_def names_set_def names_seg_def key_ok_def SEMKEY_def SHMKEY_def)

lemma rep_at_lock_upd [simp]:
  "rep_at key L i j m sg (t\<lparr>g_expiry := x\<rparr>) = rep_at key L i j m sg t"
  "rep_at key L i j m sg (t\<lparr>g_delta := d\<rparr>) = rep_at key L i j m sg t"
  "rep_at key L i j m sg (t\<lparr>diag := q\<rparr>) = rep_at key L i j m sg t"
  by (simp_all add: rep_at_def names_set_def names_seg_def key_ok_def SEMKEY_def SHMKEY_def)

lemma rep_at_attach:
  "rep_at key L i j m sg s \<Longrightarrow>
    rep_at key L i j m (sg\<lparr>sg_nattch := Suc (sg_nattch sg)\<rparr>) (attach_seg m sg s)"
  by (simp add: rep_at_def names_seg_def) (simp add: attach_seg_def)

lemma rep_at_read_in:
  "rep_at key L i j m sg s \<Longrightarrow>
    rep_at key L i j m (sg\<lparr>sg_nattch := Suc (sg_nattch sg)\<rparr>) (read_in L m sg s)"
  by (cases "nl_expiry L") (simp_all add: read_in_def rep_at_attach)

lemma calm_read_in:
  assumes "rep_at key L i j m sg s" and "calm s"
  shows "calm (read_in L m sg s)"
proof -
  have "segs (ker s) m = Some sg" using assms(1) by (simp add: rep_at_def names_seg_def)
  then have "wf_ipc (ker (attach_seg m sg s))"
    using assms(2) by (auto simp: attach_seg_def calm_def intro: wf_ipc_seg_update)
  then have "wf_os (read_in L m sg s)"
    using assms(2) by (simp add: read_in_def wf_os_def calm_def quiet_def split: option.split)
  with assms(2) show ?thesis by (simp add: calm_step)
qed

lemma clock_read_in [simp]: "clock (ker (read_in L m sg s)) = clock (ker s)"
  by (simp add: read_in_def split: option.split)

text \<open>The lock's own semaphore, and the other set.\<close>

lemma rep_at_differ:
  assumes "rep_at key L i j m sg s" and "calm s"
  shows "i \<noteq> j" and "SEMKEY key s \<noteq> SEMKEY (guard_key key) s"
proof -
  show d: "SEMKEY key s \<noteq> SEMKEY (guard_key key) s"
    using calmD(6) [OF assms(2), of key "guard_key key"] guard_key_differs [of key] by auto
  show "i \<noteq> j"
    using assms(1) d by (auto simp: rep_at_def names_set_def lock_set_def guard_set_def)
qed

lemma sem_ok_rep:
  assumes "rep_at key L i j m sg s" and "calm s"
  shows "sem_ok (lock_obj key i n) 0 s" and "value_of (lock_obj key i n) 0 s = nl_free L"
  using assms by (simp_all add: rep_at_def names_set_def lock_set_def lock_obj_def sem_ok_def
      has_sem_def sem_value_def)

lemma rep_at_add:
  assumes r: "rep_at key L i j m sg s" and c: "calm s"
    and d: "0 \<le> int (nl_free L) + d" "int (nl_free L) + d \<le> int (unat (nl_size L))"
  shows "rep_at key (L\<lparr>nl_free := nat (int (nl_free L) + d)\<rparr>) i j m sg (add_to (lock_obj key i n) 0 False d s)"
proof -
  have keys: "SEMKEY q (add_to (lock_obj key i n) 0 False d s) = SEMKEY q s"
    "key_ok q (add_to (lock_obj key i n) 0 False d s) = key_ok q s"
    "SHMKEY q (add_to (lock_obj key i n) 0 False d s) = SHMKEY q s" for q
    by (simp_all add: add_to_def SEMKEY_def SHMKEY_def key_ok_def)
  have ker: "ker (add_to (lock_obj key i n) 0 False d s) = sem_add (pid_self s) False i 0 d (ker s)"
    "mallocs (add_to (lock_obj key i n) 0 False d s) = mallocs s"
    by (simp_all add: add_to_def lock_obj_def)
  have "sems (sem_add (pid_self s) False i 0 d (ker s)) =
      (sems (ker s))(i \<mapsto> lock_set (SEMKEY key s) (L\<lparr>nl_free := nat (int (nl_free L) + d)\<rparr>))"
    using r by (simp add: rep_at_def names_set_def sem_add_def lock_set_def)
  moreover have "nat (int (nl_free L) + d) \<le> unat (nl_size L)" using d by linarith
  ultimately show ?thesis
    using r rep_at_differ [OF r c] d
    by (simp add: rep_at_def names_set_def names_seg_def keys ker lock_cells_def guard_set_def)
qed


section \<open>The commands step by step\<close>

text \<open>A run answers as the abstract lock does.\<close>

definition answers :: "u32 \<Rightarrow> ('z os_scheme, int) run \<Rightarrow> (int \<times> int \<times> named_lock option) option \<Rightarrow> bool" where
  "answers key r sp = (case sp of
     None \<Rightarrow> (\<exists>t. r = Stop Hangs t)
   | Some (v, now, p) \<Rightarrow> (\<exists>t. r = Fin v t \<and> calm t \<and> clock (ker t) = now \<and> lock_rep key p t))"

lemma answersI:
  assumes "calm s" and "every r wf_os" and "r = Fin v t" and "same_limits s t"
    and "clock (ker t) = now" and "lock_rep key p t"
  shows "answers key r (Some (v, now, p))"
  using assms calm_step [of s t] by (simp add: answers_def)

lemma rep_atI: "rep_at key L i j m sg t \<Longrightarrow> lock_rep key (Some L) t"
  by (auto simp: lock_rep_def)

lemma dbg_printfE:
  obtains q where "dbg_printf f a s = Fin () (s\<lparr>diag := q\<rparr>)"
  by (cases "g_verbose s = 0") (auto simp: dbg_printf_def intro: that [of "diag s"])

lemma rm_set_frame [simp]:
  "segs (rm_set i k) = segs k" "shmkeys (rm_set i k) = shmkeys k" "sems (rm_set i k) = (sems k)(i := None)"
  "clock (rm_set i k) = clock k" "semvmx (rm_set i k) = semvmx k" "semmsl (rm_set i k) = semmsl k"
  "shmmin (rm_set i k) = shmmin k" "shmmax (rm_set i k) = shmmax k"
  by (simp_all add: rm_set_def)

lemma rm_set_segs: "rm_set i (k\<lparr>segs := f\<rparr>) = (rm_set i k)\<lparr>segs := f\<rparr>"
  by (simp add: rm_set_def cong: if_cong)

lemma lock_delete_rep:
  assumes r: "rep_at key L i j m sg s" and c: "calm s"
  shows "\<exists>t. lock_delete key s = Fin 0 t \<and> same_limits s t \<and> clock (ker t) = clock (ker s) \<and> lock_rep key None t"
proof -
  note n = r [unfolded rep_at_def names_set_def names_seg_def] and l = c [unfolded calm_def quiet_def]
  let ?a = "s\<lparr>ker := rm_set i (ker s)\<rparr>"
  have keys: "SEMKEY q ?a = SEMKEY q s" "SHMKEY q ?a = SHMKEY q s" "key_ok q ?a = key_ok q s" for q
    by (simp_all add: SEMKEY_def SHMKEY_def key_ok_def)
  have set: "semctl_rmid i s = Fin 0 ?a"
    using n by (simp add: semctl_rmid_def run_simps)
  let ?gs = "guard_set (SEMKEY (guard_key key) s) (nl_made L)"
  have "names_seg key m sg ?a" "names_set (guard_key key) j ?gs ?a"
    using n rep_at_differ [OF r c] by (simp_all add: names_seg_def names_set_def rm_set_def keys)
  then have att: "SharedMemory_attach key ?a = Fin (Some (attached_obj key m j ?a)) (attach_seg m sg ?a)"
    by (rule SharedMemory_attach_names) (simp add: guard_set_def)
  let ?b = "attach_seg m sg ?a"
  let ?sg = "sg\<lparr>sg_data := overwrite 0 (replicate (junk s) 0) (sg_data sg)\<rparr>"
  let ?c = "?a\<lparr>ker := rm_set j (rm_set i (ker s))\<lparr>segs := (segs (ker s))(m \<mapsto> ?sg)\<rparr>,
    next_addr := Suc (next_addr s), attached := (attached s)(next_addr s := None)\<rparr>"
  let ?d = "?c\<lparr>ker := rm_seg m (if sg_nattch sg = 0 then None else Some (?sg\<lparr>sg_dest := True\<rparr>)) (ker ?c)\<rparr>"
  have "SharedMemory_delete (attached_obj key m j ?a) True ?b = Fin () ?d"
    using n l rep_at_differ [OF r c]
    by (simp add: SharedMemory_delete_def deref_sem_def attached_obj_def Semaphore_delete_def run_simps
        semctl_rmid_def mem_write_def interact_def seg_at_def attach_seg_def rm_set_segs mem_lock_call_def
        shmdt_def shmctl_rmid_def detach_seg_def guard_set_def)
  then have "lock_delete key s = Fin 0 ?d"
    using Semaphore_attach_rep [OF r] set att
    by (simp add: lock_delete_def run_simps Semaphore_delete_def lock_obj_def)
  moreover have "lock_rep key None ?d"
    using n by (simp add: lock_rep_def rm_seg_def rm_set_def SEMKEY_def SHMKEY_def)
  moreover have "same_limits s ?d" "clock (ker ?d) = clock (ker s)"
    by (simp_all add: same_limits_def rm_seg_def rm_set_def)
  ultimately show ?thesis by blast
qed


text \<open>Creation: what the four writes of \<open>create\<close> leave in a new segment.\<close>

lemma four_writes:
  "bindr (shm.wr_list this 0 [a, b, c, d]) f =
     bindr (SharedMemory_write_uint this 0 a) (\<lambda>_. bindr (SharedMemory_write_uint this 1 b) (\<lambda>_.
     bindr (SharedMemory_write_uint this 2 c) (\<lambda>_. bindr (SharedMemory_write_uint this 3 d) f)))"
  by (rule ext) (simp add: run_simps split: run.split)

lemma written_shm:
  assumes "shm_can_make key 16 s"
  obtains bs where "length bs = 16" "cells bs = [a, b, c, d]"
    "shm.wr_list (made_obj key 16 s) 0 [a, b, c, d] (made_shm key 16 s) =
       Fin () (set_data (made_obj key 16 s) bs (made_shm key 16 s))"
proof -
  let ?o = "made_obj key 16 s" and ?s = "made_shm key 16 s"
  note ready = made_shm_ready [OF assms]
  have len: "length (shm_cells ?o ?s) = 4"
    using ready(2) by (simp add: shm_cells_def made_seg_def)
  obtain t where t: "shm.wr_list ?o 0 [a, b, c, d] ?s = Fin () t" "same_but_data ?o ?s t"
      "shm_cells ?o t = [a, b, c, d]"
    using shm.wr_list_ready [OF ready(1), of 0 "[a, b, c, d]"] len by auto
  from t(2) ready(2) obtain bs where bs: "t = set_data ?o bs ?s" "length bs = 16"
    by (auto simp: same_but_data_def made_seg_def)
  moreover have "cells bs = [a, b, c, d]"
    using t(3) bs seg_at_set_data [OF ready(2), of bs] by (simp add: shm_cells_def)
  ultimately show thesis using that t(1) by blast
qed

lemma lock_create_none:
  assumes free: "lock_rep key None s" and c: "calm s" and n: "unat n \<le> semvmx (ker s)"
  shows "\<exists>t. lock_create key (ucast n) x s = Fin 0 t \<and> same_limits s t \<and> clock (ker t) = clock (ker s) \<and>
    lock_rep key (Some (new_lock n x (clock (ker s)))) t"
proof -
  let ?L = "new_lock n x (clock (ker s))"
  note l = c [unfolded calm_def quiet_def] and f = free [unfolded lock_rep_def, simplified]
  let ?a = "s\<lparr>ker := new_set (made_set key 1 n s) (ker s)\<rparr>"
  have differ: "SEMKEY key s \<noteq> SEMKEY (guard_key key) s"
    using calmD(6) [OF c, of key "guard_key key"] guard_key_differs [of key] by auto
  have "can_make key 1 s"
    using l f calmD(4) [OF c] by (simp add: can_make_def)
  from Semaphore_new_made [OF this n] have new:
    "Semaphore_new key 1 (ucast (ucast n :: u32)) False s = Fin (Some (lock_obj key (int (next_sem (ker s))) n)) ?a"
    by (simp add: lock_obj_def is_up.rep_eq ucast_up_ucast_id)
  have keys: "semkeys (new_set ss k) q = (if ss_key ss \<noteq> IPC_PRIVATE \<and> q = ss_key ss then Some (int (next_sem k)) else semkeys k q)" for ss k q
    by (simp add: new_set_def Let_def)
  have made: "shm_can_make key 16 ?a"
    using l f calmD(4,5) [OF c] differ by (simp add: shm_can_make_def can_make_def keys made_set_def)
  have cells_L: "lock_cells ?L = [ucast n, if x \<noteq> 0 then 1 else 0, word_of_int x, 0]"
    by (simp add: lock_cells_def new_lock_def)
  obtain bs where bs: "length bs = 16" "cells bs = lock_cells ?L"
    "shm.wr_list (made_obj key 16 ?a) 0 (lock_cells ?L) (made_shm key 16 ?a) =
       Fin () (set_data (made_obj key 16 ?a) bs (made_shm key 16 ?a))"
    using written_shm [OF made] unfolding lock_cells_def by blast
  let ?t = "set_data (made_obj key 16 ?a) bs (made_shm key 16 ?a)"
  have del: "SharedMemory_delete (made_obj key 16 ?a) False = retr ()"
    by (simp add: SharedMemory_delete_def deref_sem_def Semaphore_delete_def made_obj_def)
  have writes: "bindr (SharedMemory_write_uint (made_obj key 16 ?a) 0 (ucast n)) (\<lambda>_.
      bindr (SharedMemory_write_uint (made_obj key 16 ?a) 1 (if x \<noteq> 0 then 1 else 0)) (\<lambda>_.
      bindr (SharedMemory_write_uint (made_obj key 16 ?a) 2 (word_of_int x)) (\<lambda>_.
      bindr (SharedMemory_write_uint (made_obj key 16 ?a) 3 0) f))) (made_shm key 16 ?a) = f () ?t" for f :: "unit \<Rightarrow> 'a lock_os_scheme \<Rightarrow> ('a lock_os_scheme, int) run"
    unfolding four_writes [symmetric] by (rule bindr_Fin) (use bs(3) cells_L in simp)
  have shm: "SharedMemory_new key 16 False ?a = Fin (Some (made_obj key 16 ?a)) (made_shm key 16 ?a)"
    by (rule SharedMemory_new_made [OF made])
  have seq: "bindr (Semaphore_new key 1 (ucast (ucast n :: u32)) False) f s =
      f (Some (lock_obj key (int (next_sem (ker s))) n)) ?a"
    "bindr (SharedMemory_new key 16 False) g ?a = g (Some (made_obj key 16 ?a)) (made_shm key 16 ?a)"
    for f :: "Semaphore option \<Rightarrow> 'a lock_os_scheme \<Rightarrow> ('a lock_os_scheme, int) run"
      and g :: "SharedMemory option \<Rightarrow> 'a lock_os_scheme \<Rightarrow> ('a lock_os_scheme, int) run"
    by (simp_all add: bindr_def new shm)
  have run: "lock_create key (ucast n) x s = Fin 0 ?t"
    by (simp add: lock_create_def SHSEM_COUNT_def seq bindr_assoc writes del)
      (simp add: run_simps Semaphore_delete_def)
  have seg: "seg_at (shm_addr (made_obj key 16 ?a)) (made_shm key 16 ?a) =
      Some (int (next_shm (ker s)), (made_seg key 16 ?a)\<lparr>sg_nattch := 1\<rparr>)"
    using made_shm_ready(2) [OF made] by simp
  let ?i = "int (next_sem (ker s))" and ?m = "int (next_shm (ker s))"
  let ?sg = "(made_seg key 16 ?a)\<lparr>sg_nattch := 1, sg_data := bs\<rparr>"
  have t: "?t = (made_shm key 16 ?a)\<lparr>ker := (ker (made_shm key 16 ?a))\<lparr>segs :=
      (segs (ker (made_shm key 16 ?a)))(?m \<mapsto> ?sg)\<rparr>\<rparr>"
    using seg by (simp add: set_data_def)
  have sets: "made_set key 1 n s = lock_set (SEMKEY key s) ?L"
    "made_set (guard_key key) 1 1 (s\<lparr>ker := new_set ss (ker s)\<rparr>) =
       guard_set (SEMKEY (guard_key key) s) (nl_made ?L)" for ss
    by (simp_all add: made_set_def lock_set_def guard_set_def new_lock_def)
  have key_of: "ss_key (lock_set q ?L) = q" "ss_key (guard_set q c') = q" "sg_key (made_seg key 16 (s\<lparr>ker := new_set ss (ker s)\<rparr>)) = SHMKEY key s" for q c' ss
    by (simp_all add: lock_set_def guard_set_def made_seg_def)
  have segkeys: "shmkeys (new_seg sg k) q = (if sg_key sg \<noteq> IPC_PRIVATE \<and> q = sg_key sg then Some (int (next_shm k)) else shmkeys k q)" for sg k q
    by (simp add: new_seg_def Let_def)
  have nxt: "next_sem (new_set ss k) = Suc (next_sem k)" for ss k
    by (simp add: new_set_def Let_def)
  have tables: "sems (ker ?t) = (sems (ker s))(?i \<mapsto> lock_set (SEMKEY key s) ?L,
      1 + ?i \<mapsto> guard_set (SEMKEY (guard_key key) s) (nl_made ?L))"
    "semkeys (ker ?t) (SEMKEY key s) = Some ?i" "semkeys (ker ?t) (SEMKEY (guard_key key) s) = Some (1 + ?i)"
    "shmkeys (ker ?t) (SHMKEY key s) = Some ?m" "segs (ker ?t) ?m = Some ?sg" "semvmx (ker ?t) = semvmx (ker s)"
    using differ calmD(4) [OF c] calmD(5) [OF c]
    unfolding t
    by (simp_all add: made_shm_def Let_def keys segkeys sets key_ok_def key_of nxt)
  have rest: "script ?t = []" "mallocs ?t = []" "SEMKEY q ?t = SEMKEY q s" "SHMKEY q ?t = SHMKEY q s"
      "key_ok q ?t = key_ok q s" for q
    using l unfolding t by (simp_all add: made_shm_def Let_def key_ok_def)
  have "rep_at key ?L ?i (1 + ?i) ?m ?sg ?t"
    using bs(1,2) n calmD(4,5) [OF c]
    unfolding rep_at_def names_set_def names_seg_def rest tables
    by (simp add: new_lock_def made_seg_def)
  moreover have "same_limits s ?t" "clock (ker ?t) = clock (ker s)"
    using seg by (simp_all add: set_data_def made_shm_def same_limits_def Let_def)
  ultimately show ?thesis using run by (auto simp: lock_rep_def)
qed


lemma lock_create_some:
  assumes r: "rep_at key L i j m sg s"
  shows "\<exists>t. lock_create key n x s = Fin (- 1) t \<and> same_limits s t \<and> clock (ker t) = clock (ker s) \<and>
    rep_at key L i j m sg t"
proof -
  have new: "Semaphore_new key 1 w False s = Fin None (s\<lparr>err := EEXIST\<rparr>)" for w
    using Semaphore_new_exists [of key i "lock_set (SEMKEY key s) L" s 1 w False] r by (simp add: rep_at_def)
  obtain q where "dbg_printf ''A shsem with key %i already exists.'' [sint key] (s\<lparr>err := EEXIST\<rparr>) =
      Fin () (s\<lparr>err := EEXIST, diag := q\<rparr>)"
    by (rule dbg_printfE)
  with new r show ?thesis by (simp add: lock_create_def SHSEM_COUNT_def run_simps)
qed

lemma read_in_globals:
  "g_expiry (read_in L m sg s) = (if nl_expiry L = None then 0 else 1)"
  "nl_expiry L \<noteq> None \<Longrightarrow> g_delta (read_in L m sg s) = left_until L (clock (ker s))"
  by (auto simp: read_in_def split: option.split)

lemma clock_add_to [simp]: "clock (ker (add_to sm n u d s)) = clock (ker s)"
  by (simp add: add_to_def)

text \<open>Taking and giving back a unit, as the kernel does it on the state after \<open>init\<close>.\<close>

lemma lock_unlock_rep:
  assumes r: "rep_at key L i j m sg s" and c: "calm s"
  shows "answers key (lock_unlock key s) (spec_cmd Off (clock (ker s)) (Some L))"
proof -
  let ?t = "read_in L m sg s" and ?o = "lock_obj key i (nl_size L)"
  let ?sg = "sg\<lparr>sg_nattch := Suc (sg_nattch sg)\<rparr>"
  have r': "rep_at key L i j m ?sg ?t" and c': "calm ?t"
    using rep_at_read_in [OF r] calm_read_in [OF r c] by simp_all
  note ok = sem_ok_rep [OF r' c', of "nl_size L"]
  have le: "unat (nl_size L) \<le> semvmx (ker ?t)" using r' by (simp add: rep_at_def)
  have sz: "sem_size ?o = nl_size L" by (simp add: lock_obj_def)
  have go: "lock_unlock key s = bindr (Semaphore_unlock ?o 0 True) (\<lambda>e.
      bindr (if e = - 1 then dbg_printf ''No more semaphores to unlock.'' [] else retr ()) (\<lambda>_. retr e)) ?t"
    using Semaphore_attach_rep [OF r] lock_init_rep [OF r c, of 1]
    by (simp add: lock_unlock_def run_simps SHSEM_INDEX_def Semaphore_delete_def split: run.split)
  show ?thesis
  proof (cases "nl_free L < unat (nl_size L)")
    case True
    have "Semaphore_unlock ?o 0 True ?t = Fin 0 (add_to ?o 0 False 1 ?t)"
      using Semaphore_unlock_used [OF ok(1), of True] True le ok(2) sz by simp
    with go have run: "lock_unlock key s = Fin 0 (add_to ?o 0 False 1 ?t)"
      by (simp add: run_simps)
    have "int (nl_free L) + 1 \<le> int (unat (nl_size L))" using True by linarith
    from rep_at_add [OF r' c' _ this, of "nl_size L"] True
    have "rep_at key (L\<lparr>nl_free := nl_free L + 1\<rparr>) i j m ?sg (add_to ?o 0 False 1 ?t)"
      by (simp add: nat_add_distrib)
    from answersI [OF c calm_every [OF keeps_lock_unlock c] run _ _ rep_atI [OF this]] True show ?thesis
      by (simp add: clock_add_to)
  next
    case False
    then have fail: "Semaphore_unlock ?o 0 True ?t = Fin (- 1) ?t"
      using Semaphore_unlock_unused [OF ok(1), of True] ok(2) sz by simp
    obtain q where "dbg_printf ''No more semaphores to unlock.'' [] ?t = Fin () (?t\<lparr>diag := q\<rparr>)"
      by (rule dbg_printfE)
    with go fail have run: "lock_unlock key s = Fin (- 1) (?t\<lparr>diag := q\<rparr>)" by (simp add: run_simps)
    have "rep_at key L i j m ?sg (?t\<lparr>diag := q\<rparr>)" using r' by simp
    from answersI [OF c calm_every [OF keeps_lock_unlock c] run _ _ rep_atI [OF this]] False show ?thesis
      by simp
  qed
qed


lemma Semaphore_lock_untried:
  "timeout < - 1 \<Longrightarrow> Semaphore_lock this n persist timeout s = Fin 1 s"
  by (simp add: Semaphore_lock_op run_simps)

lemma lock_lock_live:
  assumes r: "rep_at key L i j m sg s" and c: "calm s" and live: "\<not> expired L (clock (ker s))"
  shows "lock_lock key timeout s =
    bindr (Semaphore_lock (lock_obj key i (nl_size L)) 0 True (wait_for L (clock (ker s)) timeout)) (\<lambda>e.
      bindr (if e = - 1 then dbg_printf ''No more semaphores to lock.'' [] else retr ()) (\<lambda>_. retr e))
      (read_in L m sg s)"
proof -
  have ex: "Semaphore_exists key s = Fin True s"
    using r Semaphore_exists_names [of key i _ s] by (auto simp: rep_at_def)
  show ?thesis
  proof (cases "nl_expiry L")
    case None
    with ex Semaphore_attach_rep [OF r] lock_init_rep [OF r c, of 1] read_in_globals [of L m sg s] show ?thesis
      by (simp add: lock_lock_def run_simps SHSEM_INDEX_def Semaphore_delete_def wait_for_def split: run.split)
  next
    case (Some d)
    with live have "0 < left_until L (clock (ker s))" by (simp add: expired_def)
    with Some ex Semaphore_attach_rep [OF r] lock_init_rep [OF r c, of 1] read_in_globals [of L m sg s] show ?thesis
      by (simp add: lock_lock_def run_simps SHSEM_INDEX_def Semaphore_delete_def wait_for_def Let_def split: run.split)
  qed
qed

lemma lock_lock_expired:
  assumes r: "rep_at key L i j m sg s" and c: "calm s" and gone: "expired L (clock (ker s))"
  shows "answers key (lock_lock key timeout s) (Some (- 1, clock (ker s), None))"
proof -
  let ?t = "read_in L m sg s"
  have ex: "Semaphore_exists key s = Fin True s"
    using r Semaphore_exists_names [of key i _ s] by (auto simp: rep_at_def)
  obtain u where u: "lock_delete key ?t = Fin 0 u" "same_limits ?t u" "clock (ker u) = clock (ker ?t)"
      "lock_rep key None u"
    using lock_delete_rep [OF rep_at_read_in [OF r] calm_read_in [OF r c]] by blast
  obtain q where q: "dbg_printf ''No more semaphores to lock.'' [] u = Fin () (u\<lparr>diag := q\<rparr>)"
    by (rule dbg_printfE)
  have "nl_expiry L \<noteq> None" "\<not> 0 < left_until L (clock (ker s))"
    using gone by (simp_all add: expired_def)
  with ex Semaphore_attach_rep [OF r] lock_init_rep [OF r c, of 1] read_in_globals [of L m sg s] u(1) q
  have run: "lock_lock key timeout s = Fin (- 1) (u\<lparr>diag := q\<rparr>)"
    by (simp add: lock_lock_def run_simps Semaphore_delete_def)
  have "same_limits s (u\<lparr>diag := q\<rparr>)" using u(2) by (simp add: same_limits_def read_in_def split: option.splits)
  from answersI [OF c calm_every [OF keeps_lock_lock c] run this] u(3,4) show ?thesis
    by (simp add: lock_rep_def SEMKEY_def SHMKEY_def)
qed

lemma lock_lock_rep:
  assumes r: "rep_at key L i j m sg s" and c: "calm s"
  shows "answers key (lock_lock key timeout s) (spec_cmd (On timeout) (clock (ker s)) (Some L))"
proof (cases "expired L (clock (ker s))")
  case True
  with lock_lock_expired [OF r c] show ?thesis by simp
next
  case False
  let ?t = "read_in L m sg s" and ?o = "lock_obj key i (nl_size L)" and ?w = "wait_for L (clock (ker s)) timeout"
  let ?sg = "sg\<lparr>sg_nattch := Suc (sg_nattch sg)\<rparr>"
  note go = lock_lock_live [OF r c False, of timeout]
  note every = calm_every [OF keeps_lock_lock c, of key timeout]
  have r': "rep_at key L i j m ?sg ?t" and c': "calm ?t"
    using rep_at_read_in [OF r] calm_read_in [OF r c] by simp_all
  note ok = sem_ok_rep [OF r' c', of "nl_size L"]
  show ?thesis
  proof (cases "0 < nl_free L \<and> - 1 \<le> ?w")
    case True
    have run: "lock_lock key timeout s = Fin 0 (add_to ?o 0 False (- 1) ?t)"
      using go Semaphore_lock_free [OF ok(1), of ?w True] True ok(2) by (simp add: run_simps)
    have "int (nl_free L) - 1 \<le> int (unat (nl_size L))" using r unfolding rep_at_def by linarith
    with rep_at_add [OF r' c', of "- 1" "nl_size L"] True
    have "rep_at key (L\<lparr>nl_free := nl_free L - 1\<rparr>) i j m ?sg (add_to ?o 0 False (- 1) ?t)"
      by (simp add: nat_diff_distrib)
    from answersI [OF c every run _ _ rep_atI [OF this]] True False show ?thesis by (simp add: Let_def)
  next
    case no: False
    show ?thesis
    proof (cases "?w = 0")
      case True
      with go no Semaphore_lock_taken [OF ok(1), of True ?w] ok(2)
      have "lock_lock key timeout s = Stop Hangs ?t" by (simp add: run_simps)
      with True no False show ?thesis by (simp add: answers_def Let_def)
    next
      case wait: False
      obtain u where u: "Semaphore_lock ?o 0 True ?w ?t = Fin 1 u" "same_limits ?t u"
          "clock (ker u) = clock (ker ?t) + max 0 ?w" "rep_at key L i j m ?sg u"
      proof (cases "?w < - 1")
        case True
        with Semaphore_lock_untried [OF True, of ?o 0 True ?t] r' that [of ?t] show ?thesis by simp
      next
        case le: False
        with no have "value_of ?o 0 ?t = 0" using ok(2) by simp
        from Semaphore_lock_taken [OF ok(1) this, of True ?w] wait le r' that
        show ?thesis by (cases "?w = - 1") auto
      qed
      with go have run: "lock_lock key timeout s = Fin 1 u" by (simp add: run_simps)
      have "same_limits s u" using u(2) by (simp add: same_limits_def read_in_def split: option.splits)
      from answersI [OF c every run this _ rep_atI [OF u(4)]] u(3) wait no False show ?thesis
        by (auto simp: Let_def)
    qed
  qed
qed


lemma lock_status_live:
  assumes r: "rep_at key L i j m sg s" and c: "calm s"
  shows "lock_status key s = (let t = read_in L m sg s in
    if expired L (clock (ker s)) then Fin (- 1) (t\<lparr>out := out t @ [(''%d %d %d'', [- 1, - 1, - 1])]\<rparr>)
    else Fin 0 (t\<lparr>out := out t @ [(''%d %d %d'', [uint (nl_size L) - int (nl_free L), uint (nl_size L),
      if nl_expiry L = None then - 1 else to_int (left_until L (clock (ker s)))])]\<rparr>))"
proof -
  let ?t = "read_in L m sg s"
  have r': "rep_at key L i j m (sg\<lparr>sg_nattch := Suc (sg_nattch sg)\<rparr>) ?t" and c': "calm ?t"
    using rep_at_read_in [OF r] calm_read_in [OF r c] by simp_all
  note ok = sem_ok_rep [OF r' c', of "nl_size L"]
  have used: "Semaphore_used (lock_obj key i (nl_size L)) 0 ?t = Fin (uint (nl_size L) - int (nl_free L)) ?t"
    using Semaphore_used_ok [OF ok(1)] ok(2) by (simp add: lock_obj_def)
  show ?thesis
    using Semaphore_attach_rep [OF r] lock_init_rep [OF r c, of 1] read_in_globals [of L m sg s] used
    by (auto simp: lock_status_def run_simps SHSEM_INDEX_def expired_def Let_def printf_def
        Semaphore_get_size_def lock_obj_def)
qed

lemma lock_status_rep:
  assumes r: "rep_at key L i j m sg s" and c: "calm s"
  shows "answers key (lock_status key s) (spec_cmd Status (clock (ker s)) (Some L))"
proof -
  obtain p where run: "lock_status key s = Fin (if expired L (clock (ker s)) then - 1 else 0)
      ((read_in L m sg s)\<lparr>out := p\<rparr>)"
    using lock_status_live [OF r c] by (cases "expired L (clock (ker s))") (auto simp: Let_def)
  have "rep_at key L i j m (sg\<lparr>sg_nattch := Suc (sg_nattch sg)\<rparr>) ((read_in L m sg s)\<lparr>out := p\<rparr>)"
    using rep_at_read_in [OF r] by simp
  from answersI [OF c calm_every [OF keeps_lock_status c] run _ _ rep_atI [OF this]] show ?thesis by simp
qed

lemma lock_summary_rep:
  assumes r: "rep_at key L i j m sg s" and c: "calm s"
  shows "answers key (lock_summary key s) (spec_cmd Summary (clock (ker s)) (Some L))"
proof -
  let ?t = "read_in L m sg s" and ?o = "lock_obj key i (nl_size L)"
  have r': "rep_at key L i j m (sg\<lparr>sg_nattch := Suc (sg_nattch sg)\<rparr>) ?t" and c': "calm ?t"
    using rep_at_read_in [OF r] calm_read_in [OF r c] by simp_all
  note ok = sem_ok_rep [OF r' c', of "nl_size L"]
  have "Semaphore_ctime ?o ?t = Fin (nl_made L) ?t"
    using r' by (simp add: Semaphore_ctime_def semctl_stat_def run_simps rep_at_def names_set_def lock_obj_def
        lock_set_def)
  then obtain p where desc: "Semaphore_desc ?o 0 ?t = Fin () (?t\<lparr>out := p\<rparr>)"
    using Semaphore_used_ok [OF ok(1)]
    by (simp add: Semaphore_desc_def run_simps Semaphore_get_count_def printf_def)
  define line where "line = (if g_expiry ?t \<noteq> 0 then
      (if 0 < g_delta ?t then (''Expires In:   %lis'', [g_delta ?t]) else (''Semaphore has expired.'', []))
    else (''Never expires.'', []))"
  have run: "lock_summary key s = Fin 0 (?t\<lparr>out := p @ [line]\<rparr>)"
    using Semaphore_attach_rep [OF r] lock_init_rep [OF r c, of 1] desc
    by (simp add: lock_summary_def run_simps SHSEM_INDEX_def printf_def Semaphore_delete_def line_def)
  have "rep_at key L i j m (sg\<lparr>sg_nattch := Suc (sg_nattch sg)\<rparr>) (?t\<lparr>out := p @ [line]\<rparr>)" using r' by simp
  from answersI [OF c calm_every [OF keeps_lock_summary c] run _ _ rep_atI [OF this]] show ?thesis by simp
qed

text \<open>Commands on a key that names nothing.\<close>

lemma lock_rep_None_upd [simp]:
  "lock_rep key None (s\<lparr>err := e\<rparr>) = lock_rep key None s"
  "lock_rep key None (s\<lparr>out := p\<rparr>) = lock_rep key None s"
  by (simp_all add: lock_rep_def SEMKEY_def SHMKEY_def)

lemma lock_rep_None_diag [simp]: "lock_rep key None (s\<lparr>diag := q\<rparr>) = lock_rep key None s"
  by (simp add: lock_rep_def SEMKEY_def SHMKEY_def)

lemma absent:
  assumes n: "lock_rep key None s" and c: "calm s"
  shows "Semaphore_exists key s = Fin False (s\<lparr>err := ENOENT\<rparr>)"
    and "Semaphore_attach key s = Fin None (s\<lparr>err := ENOENT\<rparr>)"
  using n calmD [OF c]
  by (simp_all add: lock_rep_def Semaphore_exists_none Semaphore_attach_none)


section \<open>One command\<close>

fun run_cmd :: "u32 \<Rightarrow> lock_cmd \<Rightarrow> 'z lock_os_scheme \<Rightarrow> ('z lock_os_scheme, int) run" where
  "run_cmd key (On timeout) = lock_lock key timeout"
| "run_cmd key Off = lock_unlock key"
| "run_cmd key Status = lock_status key"
| "run_cmd key Summary = lock_summary key"
| "run_cmd key Delete = lock_delete key"
| "run_cmd key (Create n x) = lock_create key (ucast n) x"

text \<open>Sizes above Linux's \<open>SEMVMX\<close> are not made; a date is given as an \<open>int\<close>, a timeout as a \<open>short\<close>.\<close>

fun cmd_ok :: "lock_cmd \<Rightarrow> bool" where
  "cmd_ok (Create n x) = (unat n \<le> 32767 \<and> - (2 ^ 31) \<le> x \<and> x < 2 ^ 31)"
| "cmd_ok (On t) = (- (2 ^ 15) \<le> t \<and> t < 2 ^ 15)"
| "cmd_ok c = True"

lemma keeps_run_cmd [keeps]: "keeps (run_cmd key c) wf_os"
  by (cases c) (auto intro: keeps)

lemma run_cmd_absent:
  assumes n: "lock_rep key None s" and c: "calm s" and ok: "cmd_ok cmd"
  shows "answers key (run_cmd key cmd s) (spec_cmd cmd (clock (ker s)) None)"
proof (cases "\<exists>m x. cmd = Create m x")
  case True
  then obtain m x where cmd: "cmd = Create m x" by blast
  with ok have "unat m \<le> semvmx (ker s)" using c by (simp add: calm_def)
  with cmd lock_create_none [OF n c, of m x] obtain t where t: "lock_create key (ucast m) x s = Fin 0 t"
    "same_limits s t" "clock (ker t) = clock (ker s)" "lock_rep key (Some (new_lock m x (clock (ker s)))) t"
    by auto
  with answersI [OF c calm_every [OF keeps_run_cmd c, of key cmd], of 0 t] cmd show ?thesis by simp
next
  case False
  note a = absent [OF n c]
  have "\<exists>v q p. run_cmd key cmd s = Fin v (s\<lparr>err := ENOENT, diag := q, out := p\<rparr>) \<and>
      spec_cmd cmd (clock (ker s)) None = Some (v, clock (ker s), None)"
  proof (cases cmd)
    case (On timeout)
    obtain q where "dbg_printf ''Semaphores %d does not exist.'' [sint key] (s\<lparr>err := ENOENT\<rparr>) =
        Fin () (s\<lparr>err := ENOENT, diag := q\<rparr>)"
      by (rule dbg_printfE)
    with a On show ?thesis
      by - (rule exI [of _ "- 1"], rule exI [of _ q], rule exI [of _ "out s"],
        simp add: lock_lock_def run_simps)
  next
    case Off
    obtain q where "dbg_printf ''Semaphores %d does not exist.'' [sint key] (s\<lparr>err := ENOENT\<rparr>) =
        Fin () (s\<lparr>err := ENOENT, diag := q\<rparr>)"
      by (rule dbg_printfE)
    with a Off show ?thesis
      by - (rule exI [of _ "- 1"], rule exI [of _ q], rule exI [of _ "out s"],
        simp add: lock_unlock_def run_simps)
  next
    case Status
    with a show ?thesis
      by - (rule exI [of _ "- 1"], rule exI [of _ "diag s"], rule exI [of _ "out s @ [(''%d %d %d'', [- 1, - 1, - 1])]"],
        simp add: lock_status_def run_simps printf_def)
  next
    case Summary
    obtain q where "dbg_printf ''No semaphore set in memory with key %u'' [uint key] (s\<lparr>err := ENOENT\<rparr>) =
        Fin () (s\<lparr>err := ENOENT, diag := q\<rparr>)"
      by (rule dbg_printfE)
    with a Summary show ?thesis
      by - (rule exI [of _ "- 1"], rule exI [of _ q], rule exI [of _ "out s"],
        simp add: lock_summary_def run_simps)
  next
    case Delete
    obtain q where q: "dbg_printf ''No shsem with key %d.'' [sint key] (s\<lparr>err := ENOENT\<rparr>) =
        Fin () (s\<lparr>err := ENOENT, diag := q\<rparr>)"
      by (rule dbg_printfE)
    obtain q' where q': "dbg_printf ''No shmem with key %d.'' [sint key] (s\<lparr>err := ENOENT, diag := q\<rparr>) =
        Fin () (s\<lparr>err := ENOENT, diag := q'\<rparr>)"
      by (rule dbg_printfE [of _ _ "s\<lparr>err := ENOENT, diag := q\<rparr>"]) simp
    have "SharedMemory_attach key (s\<lparr>err := ENOENT, diag := q\<rparr>) = Fin None (s\<lparr>err := ENOENT, diag := q\<rparr>)"
      using SharedMemory_attach_none [of "s\<lparr>err := ENOENT, diag := q\<rparr>" key] n calmD(1) [OF c]
      by (simp add: lock_rep_def SHMKEY_def)
    with a q q' Delete show ?thesis
      by - (rule exI [of _ 2], rule exI [of _ q'], rule exI [of _ "out s"],
        simp add: lock_delete_def run_simps)
  next
    case (Create m x)
    with False show ?thesis by blast
  qed
  then obtain v q p where run: "run_cmd key cmd s = Fin v (s\<lparr>err := ENOENT, diag := q, out := p\<rparr>)"
    and sp: "spec_cmd cmd (clock (ker s)) None = Some (v, clock (ker s), None)" by blast
  have "lock_rep key None (s\<lparr>err := ENOENT, diag := q, out := p\<rparr>)"
    using n by (simp add: lock_rep_def SEMKEY_def SHMKEY_def)
  from answersI [OF c calm_every [OF keeps_run_cmd c] run _ _ this] sp show ?thesis by simp
qed

lemma run_cmd_present:
  assumes r: "lock_rep key (Some L) s" and c: "calm s"
  shows "answers key (run_cmd key cmd s) (spec_cmd cmd (clock (ker s)) (Some L))"
proof -
  from r obtain i j m sg where r: "rep_at key L i j m sg s" by (auto simp: lock_rep_def)
  show ?thesis
  proof (cases cmd)
    case (On t)
    with lock_lock_rep [OF r c] show ?thesis by simp
  next
    case Off
    with lock_unlock_rep [OF r c] show ?thesis by simp
  next
    case Status
    with lock_status_rep [OF r c] show ?thesis by simp
  next
    case Summary
    with lock_summary_rep [OF r c] show ?thesis by simp
  next
    case Delete
    from lock_delete_rep [OF r c] obtain t where t: "lock_delete key s = Fin 0 t" "same_limits s t"
      "clock (ker t) = clock (ker s)" "lock_rep key None t" by blast
    with answersI [OF c calm_every [OF keeps_lock_delete c], of key 0 t] Delete show ?thesis by simp
  next
    case (Create n x)
    from lock_create_some [OF r, of "ucast n" x] obtain t where t: "lock_create key (ucast n) x s = Fin (- 1) t"
      "same_limits s t" "clock (ker t) = clock (ker s)" "rep_at key L i j m sg t" by blast
    with answersI [OF c calm_every [OF keeps_lock_create c] t(1,2,3) rep_atI [OF t(4)]] Create show ?thesis by simp
  qed
qed

end
