(* ===== verification/Lock_Session.thy ===== *)
theory Lock_Session
  imports Lock_Spec
begin

text \<open>
  The command \<open>lock\<close> as it is used: command lines, and sessions in which each command is a
  process of its own that ends before the next one starts.
\<close>

section \<open>Command lines\<close>

text \<open>What a user may write, in any order.\<close>

datatype lock_arg = Positional string | Semaphores u16 | Timeout int | Verbose | Expire int

fun render_arg :: "lock_arg \<Rightarrow> string list" where
  "render_arg (Positional p) = [p]"
| "render_arg (Semaphores n) = [''-s'', decimal_int (uint n)]"
| "render_arg (Timeout t) = [''-t'', decimal_int t]"
| "render_arg Verbose = [''-v'']"
| "render_arg (Expire x) = [''-x'', decimal_int x]"

definition render :: "lock_arg list \<Rightarrow> string list" where
  "render as = concat (map render_arg as)"

fun arg_opt :: "lock_arg \<Rightarrow> opt option" where
  "arg_opt (Positional p) = None"
| "arg_opt (Semaphores n) = Some (Opt (CHR ''s'') (decimal_int (uint n)))"
| "arg_opt (Timeout t) = Some (Opt (CHR ''t'') (decimal_int t))"
| "arg_opt Verbose = Some (Opt (CHR ''v'') [])"
| "arg_opt (Expire x) = Some (Opt (CHR ''x'') (decimal_int x))"

fun arg_text :: "lock_arg \<Rightarrow> string option" where
  "arg_text (Positional p) = Some p"
| "arg_text _ = None"

fun arg_ok :: "lock_arg \<Rightarrow> bool" where
  "arg_ok (Positional p) = (take 1 p \<noteq> ''-'')"
| "arg_ok (Timeout t) = (- (2 ^ 15) \<le> t \<and> t < 2 ^ 15)"
| "arg_ok (Expire x) = (- (2 ^ 31) \<le> x \<and> x < 2 ^ 31)"
| "arg_ok _ = True"

lemma lock_kinds [simp]:
  "short_kind lock_shortopts (CHR ''s'') = Some True" "short_kind lock_shortopts (CHR ''t'') = Some True"
  "short_kind lock_shortopts (CHR ''v'') = Some False" "short_kind lock_shortopts (CHR ''x'') = Some True"
  by (simp_all add: lock_shortopts_def)

lemma getopt_render:
  "list_all arg_ok as \<Longrightarrow>
    getopt_long lock_shortopts lock_longopts (render as) = (List.map_filter arg_opt as, List.map_filter arg_text as)"
proof (induction as)
  case Nil
  then show ?case by (simp add: render_def List.map_filter_def)
next
  case (Cons a as)
  then have IH: "getopt_long lock_shortopts lock_longopts (render as) =
      (List.map_filter arg_opt as, List.map_filter arg_text as)" by simp
  have step: "render (b # as) = render_arg b @ render as" for b by (simp add: render_def)
  show ?case
  proof (cases a)
    case (Positional p)
    with Cons.prems show ?thesis
      using getopt_positional [of p lock_shortopts lock_longopts "render as"]
      by (simp add: step IH List.map_filter_def del: getopt_long.simps)
  next
    case (Semaphores n)
    with getopt_short_arg [of lock_shortopts "CHR ''s''" lock_longopts "decimal_int (uint n)" "render as"]
    show ?thesis by (simp add: step IH List.map_filter_def del: getopt_long.simps)
  next
    case (Timeout t)
    with getopt_short_arg [of lock_shortopts "CHR ''t''" lock_longopts "decimal_int t" "render as"]
    show ?thesis by (simp add: step IH List.map_filter_def del: getopt_long.simps)
  next
    case Verbose
    with getopt_short_flag [of lock_shortopts "CHR ''v''" lock_longopts "render as"]
    show ?thesis by (simp add: step IH List.map_filter_def del: getopt_long.simps)
  next
    case (Expire x)
    with getopt_short_arg [of lock_shortopts "CHR ''x''" lock_longopts "decimal_int x" "render as"]
    show ?thesis by (simp add: step IH List.map_filter_def del: getopt_long.simps)
  qed
qed

text \<open>The values the options leave in the variables of \<open>main\<close>, read off the arguments.\<close>

fun arg_effect :: "lock_arg \<Rightarrow> lock_args \<Rightarrow> lock_args" where
  "arg_effect (Positional p) a = a"
| "arg_effect (Semaphores n) a = a\<lparr>la_semaphores := n\<rparr>"
| "arg_effect (Timeout t) a = a\<lparr>la_timeout := t\<rparr>"
| "arg_effect Verbose a = a\<lparr>la_verbose := True\<rparr>"
| "arg_effect (Expire x) a = a\<lparr>la_expire := x, la_expiry := 1\<rparr>"

lemma atoi_u16: "atoi (decimal_int (uint (n :: u16))) = uint n"
proof (rule atoi_decimal)
  have "uint n < 2 ^ 16" using uint_lt2p [of n] by simp
  then show "uint n < 2 ^ 31" by simp
  show "- (2 ^ 31) \<le> uint n" by (rule order_trans [of _ 0]) simp_all
qed

lemma fold_effect:
  "list_all arg_ok as \<Longrightarrow> fold lock_option (List.map_filter arg_opt as) a = fold arg_effect as a"
proof (induction as arbitrary: a)
  case Nil
  then show ?case by (simp add: List.map_filter_def)
next
  case (Cons b as)
  then show ?case
    by (cases b) (simp_all add: List.map_filter_def atoi_u16 atoi_decimal to_short_id)
qed

lemma effect_e: "la_e (fold arg_effect as a) = la_e a"
  by (induction as arbitrary: a) (simp, case_tac a, simp_all)

text \<open>The state in which \<open>main\<close> runs the action.\<close>

definition enter :: "lock_args \<Rightarrow> 'z lock_os_scheme \<Rightarrow> 'z lock_os_scheme" where
  "enter a s = s\<lparr>g_delta := 0, g_expiry := la_expiry a,
     g_verbose := (if la_verbose a then 1 else g_verbose s)\<rparr>"

lemma lock_main_render:
  assumes "list_all arg_ok as" and "List.map_filter arg_text as = k # action # others"
    and "length (render as) > 1"
  shows "lock_main (render as) s =
    lock_dispatch (fold arg_effect as lock_defaults) (word_of_int (atoi k)) action
      (enter (fold arg_effect as lock_defaults) s)"
  using assms getopt_render [OF assms(1)] fold_effect [OF assms(1), of lock_defaults]
  by (simp add: lock_main_def run_simps enter_def effect_e lock_defaults_def Let_def)

text \<open>The command lines of the abstract commands.\<close>

fun cmd_args :: "lock_cmd \<Rightarrow> lock_arg list" where
  "cmd_args (On t) = [Positional ''on'', Timeout t]"
| "cmd_args Off = [Positional ''off'']"
| "cmd_args Status = [Positional ''status'']"
| "cmd_args Summary = [Positional ''summary'']"
| "cmd_args Delete = [Positional ''delete'']"
| "cmd_args (Create n x) = [Positional ''create'', Semaphores n, Expire x]"

definition cmd_line :: "u32 \<Rightarrow> lock_cmd \<Rightarrow> string list" where
  "cmd_line key c = render (Positional (decimal_int (uint key)) # cmd_args c)"

lemma enter_simps [simp]:
  "calm (enter a s) = calm s" "lock_rep key p (enter a s) = lock_rep key p s" "ker (enter a s) = ker s"
  by (simp_all add: enter_def calm_def quiet_def ftok_ok_def lock_rep_def rep_at_def names_set_def
      names_seg_def key_ok_def SEMKEY_def SHMKEY_def split: option.split)

lemma lock_main_line:
  assumes "uint key < 2 ^ 31" and "cmd_ok c"
  shows "\<exists>a. lock_main (cmd_line key c) s = run_cmd key c (enter a s)"
proof -
  let ?as = "Positional (decimal_int (uint key)) # cmd_args c"
  let ?a = "fold arg_effect ?as lock_defaults"
  obtain ch cs where "decimal (nat (uint key)) = ch # cs" "ch \<noteq> CHR ''-''" by (rule decimal_hd)
  then have pos: "take 1 (decimal_int (uint key)) \<noteq> ''-''" by (simp add: decimal_int_def)
  have ok: "list_all arg_ok ?as" using assms(2) pos by (cases c) simp_all
  have key: "word_of_int (atoi (decimal_int (uint key))) = key"
  proof -
    have "- (2 ^ 31) \<le> uint key" by (rule order_trans [of _ 0]) simp_all
    then show ?thesis using atoi_decimal [of "uint key"] assms(1) by simp
  qed
  have "lock_main (cmd_line key c) s = run_cmd key c (enter ?a s)"
    using lock_main_render [OF ok, of "decimal_int (uint key)" _ "[]" s] key
    by (cases c) (simp_all add: cmd_line_def render_def List.map_filter_def lock_dispatch_def strncmp_eq_whole
        numeral_eq_Suc lock_defaults_def)
  then show ?thesis by blast
qed


section \<open>Sessions\<close>

text \<open>A process starts with nothing attached and its global variables as initialised.\<close>

definition new_process :: "nat \<Rightarrow> 'z lock_os_scheme \<Rightarrow> 'z lock_os_scheme" where
  "new_process p s = s\<lparr>pid_self := p, attached := (\<lambda>_. None), next_addr := 0, err := EOK,
     g_delta := 0, g_expiry := 0, g_verbose := 1\<rparr>"

fun session :: "u32 \<Rightarrow> (nat \<times> lock_cmd) list \<Rightarrow> 'z lock_os_scheme \<Rightarrow> ('z lock_os_scheme, int list) run" where
  "session key [] s = Fin [] s"
| "session key ((p, c) # cs) s =
     (case lock_main (cmd_line key c) (new_process p s) of
        Stop w t \<Rightarrow> Stop w t
      | Fin e t \<Rightarrow> bindr (session key cs) (\<lambda>es. retr (e # es)) (exit_process t))"

fun spec_session :: "lock_cmd list \<Rightarrow> int \<Rightarrow> named_lock option \<Rightarrow> (int list \<times> int \<times> named_lock option) option" where
  "spec_session [] now p = Some ([], now, p)"
| "spec_session (c # cs) now p = (case spec_cmd c now p of
     None \<Rightarrow> None
   | Some (e, now', p') \<Rightarrow> (case spec_session cs now' p' of
       None \<Rightarrow> None | Some (es, now'', p'') \<Rightarrow> Some (e # es, now'', p'')))"

lemma new_process_simps [simp]:
  "calm (new_process p s) = calm s" "lock_rep key l (new_process p s) = lock_rep key l s"
  "ker (new_process p s) = ker s"
  by (simp_all add: new_process_def calm_def quiet_def ftok_ok_def lock_rep_def rep_at_def names_set_def
      names_seg_def key_ok_def SEMKEY_def SHMKEY_def split: option.split)

text \<open>The end of a process changes no lock: the commands leave no adjustment behind.\<close>

lemma exit_process_rep:
  assumes r: "rep_at key L i j m sg s" and c: "calm s"
  shows "\<exists>sg'. rep_at key L i j m sg' (exit_process s)"
proof -
  note n = r [unfolded rep_at_def names_set_def names_seg_def]
  have wf: "wf_ipc (ker s)" using c by (simp add: calm_def)
  have sets: "undo_set (semvmx (ker s)) p ss = ss"
    if "sems (ker s) k = Some ss" "ss_adj ss = (\<lambda>_ _. 0)" for p k ss
    using wf_ipc_set [OF wf that(1)] that(2) by (simp add: undo_none)
  have tabs: "sems (ker (exit_process s)) i = sems (ker s) i" "sems (ker (exit_process s)) j = sems (ker s) j"
    using n sets by (auto simp: exit_process_def undo_all_def lock_set_def guard_set_def)
  have rest: "semkeys (ker (exit_process s)) = semkeys (ker s)" "shmkeys (ker (exit_process s)) = shmkeys (ker s)"
    "semvmx (ker (exit_process s)) = semvmx (ker s)" "script (exit_process s) = script s"
    "mallocs (exit_process s) = mallocs s" "SEMKEY q (exit_process s) = SEMKEY q s"
    "SHMKEY q (exit_process s) = SHMKEY q s" "key_ok q (exit_process s) = key_ok q s" for q
    by (simp_all add: exit_process_def undo_all_def SEMKEY_def SHMKEY_def key_ok_def)
  have "segs (undo_all (pid_self s) (ker s)) m = Some sg" using n by (simp add: undo_all_def)
  with n obtain a where "segs (ker (exit_process s)) m = Some (sg\<lparr>sg_nattch := a\<rparr>)"
    using detach_upto_keeps by (fastforce simp: exit_process_def)
  then have "rep_at key L i j m (sg\<lparr>sg_nattch := a\<rparr>) (exit_process s)"
    using n by (simp add: rep_at_def names_set_def names_seg_def tabs rest)
  then show ?thesis ..
qed

lemma exit_process_lock:
  assumes "lock_rep key p s" and "calm s"
  shows "lock_rep key p (exit_process s)"
proof (cases p)
  case None
  with assms show ?thesis by (simp add: lock_rep_def exit_process_def undo_all_def SEMKEY_def SHMKEY_def)
next
  case (Some L)
  with assms exit_process_rep show ?thesis by (fastforce simp: lock_rep_def)
qed

lemma exit_process_calm:
  assumes "calm s"
  shows "calm (exit_process s)" and "clock (ker (exit_process s)) = clock (ker s)"
proof -
  have "same_limits s (exit_process s)"
    by (simp add: same_limits_def exit_process_def undo_all_def)
  with calm_step [OF assms] wf_os_exit [OF calmD(3) [OF assms]] show "calm (exit_process s)" by simp
  show "clock (ker (exit_process s)) = clock (ker s)"
    by (simp add: exit_process_def undo_all_def)
qed

lemma run_cmd_refines:
  "lock_rep key p s \<Longrightarrow> calm s \<Longrightarrow> cmd_ok c \<Longrightarrow>
    answers key (run_cmd key c s) (spec_cmd c (clock (ker s)) p)"
  by (cases p) (simp_all add: run_cmd_absent run_cmd_present)

lemma main_refines:
  assumes "lock_rep key p s" and "calm s" and "cmd_ok c" and "uint key < 2 ^ 31"
  shows "answers key (lock_main (cmd_line key c) s) (spec_cmd c (clock (ker s)) p)"
proof -
  obtain a where "lock_main (cmd_line key c) s = run_cmd key c (enter a s)"
    using lock_main_line [OF assms(4,3)] by blast
  with run_cmd_refines [of key p "enter a s" c] assms show ?thesis by simp
qed


lemma session_refines:
  assumes "lock_rep key p s" and "calm s" and "\<forall>c \<in> set cs. cmd_ok (snd c)" and "uint key < 2 ^ 31"
  shows "case spec_session (map snd cs) (clock (ker s)) p of
      None \<Rightarrow> \<exists>t. session key cs s = Stop Hangs t
    | Some (es, now, p') \<Rightarrow> \<exists>t. session key cs s = Fin es t \<and> calm t \<and> clock (ker t) = now \<and> lock_rep key p' t"
  using assms
proof (induction cs arbitrary: s p)
  case Nil
  then show ?case by simp
next
  case (Cons pc cs)
  obtain q c where pc: "pc = (q, c)" by (cases pc)
  have main: "answers key (lock_main (cmd_line key c) (new_process q s)) (spec_cmd c (clock (ker s)) p)"
    using main_refines [of key p "new_process q s" c] Cons.prems pc by simp
  show ?case
  proof (cases "spec_cmd c (clock (ker s)) p")
    case None
    with main pc show ?thesis by (auto simp: answers_def)
  next
    case (Some r)
    then obtain e now p1 where sp: "spec_cmd c (clock (ker s)) p = Some (e, now, p1)" by (cases r) auto
    with main obtain t where t: "lock_main (cmd_line key c) (new_process q s) = Fin e t" "calm t"
        "clock (ker t) = now" "lock_rep key p1 t"
      by (auto simp: answers_def)
    have "calm (exit_process t)" "clock (ker (exit_process t)) = now" "lock_rep key p1 (exit_process t)"
      using exit_process_calm [OF t(2)] exit_process_lock [OF t(4,2)] t(3) by simp_all
    with Cons.IH [of p1 "exit_process t"] Cons.prems have rest:
      "case spec_session (map snd cs) now p1 of
        None \<Rightarrow> \<exists>u. session key cs (exit_process t) = Stop Hangs u
      | Some (es, now', p') \<Rightarrow> \<exists>u. session key cs (exit_process t) = Fin es u \<and> calm u \<and>
          clock (ker u) = now' \<and> lock_rep key p' u"
      by simp
    show ?thesis
    proof (cases "spec_session (map snd cs) now p1")
      case None
      with rest sp t(1) pc show ?thesis by (auto simp: run_simps)
    next
      case (Some r')
      then obtain es now' p2 where "spec_session (map snd cs) now p1 = Some (es, now', p2)" by (cases r') auto
      with rest sp t(1) pc show ?thesis by (auto simp: run_simps)
    qed
  qed
qed


section \<open>A system after start-up\<close>

definition boot_lock :: lock_os where
  "boot_lock = os.extend boot_os (lock_os.fields 0 0 1 [])"

lemma boot_key: "uint (256 + ucast (p :: u8) :: u32) = 256 + uint p" "uint (512 + ucast (p :: u8) :: u32) = 512 + uint p"
proof -
  have "uint p < 2 ^ 8" using uint_lt2p [of p] by simp
  moreover have u: "uint (ucast p :: u32) = uint p" by (rule uint_up_ucast) (simp add: is_up.rep_eq)
  ultimately show "uint (256 + ucast p :: u32) = 256 + uint p" "uint (512 + ucast p :: u32) = 512 + uint p"
    by (simp_all add: uint_word_ariths u)
qed

lemma ftok_ok_boot: "ftok_ok boot_lock"
proof -
  have "inj (ftok_of boot_lock d) \<and> - 1 \<notin> range (ftok_of boot_lock d) \<and> IPC_PRIVATE \<notin> range (ftok_of boot_lock d)"
    for d
  proof -
    define b :: u32 where "b = (case d of Dev_zero \<Rightarrow> 256 | Dev_null \<Rightarrow> 512)"
    have f: "ftok_of boot_lock d = (\<lambda>p. b + ucast p)"
      by (simp add: boot_lock_def os.extend_def boot_os_def b_def fun_eq_iff)
    have u: "uint (b + ucast p) = uint b + uint p" "0 < uint b" "uint b \<le> 512" "uint p < 256" for p :: u8
      using boot_key [of p] uint_lt2p [of p] by (cases d; simp add: b_def)+
    have "inj (\<lambda>p :: u8. b + ucast p)"
      by (rule injI) (metis add_left_cancel u(1) word_uint_eq_iff)
    moreover have "b + ucast p \<noteq> - 1" "b + ucast p \<noteq> 0" for p :: u8
    proof -
      have "0 \<le> uint p" by simp
      then have lt: "uint (b + ucast p) < 1000" "0 < uint (b + ucast p)" using u(1) [of p] u(2,3) u(4) [of p] by linarith+
      show "b + ucast p \<noteq> - 1"
      proof
        assume "b + ucast p = - 1"
        with lt(1) show False by (simp add: unsigned_minus_1_eq_mask mask_eq_exp_minus_1)
      qed
      show "b + ucast p \<noteq> 0" using lt(2) by auto
    qed
    ultimately show ?thesis unfolding f IPC_PRIVATE_def image_iff by (metis (no_types, lifting) imageE)
  qed
  then show ?thesis by (simp add: ftok_ok_def)
qed

lemma calm_boot: "calm boot_lock"
  using wf_boot ftok_ok_boot
  by (simp add: calm_def quiet_def wf_os_def boot_lock_def os.extend_def boot_os_def boot_ipc_def)

lemma boot_lock_rep [simp]: "lock_rep key None boot_lock" "clock (ker boot_lock) = 1000"
  by (simp_all add: lock_rep_def boot_lock_def os.extend_def boot_os_def boot_ipc_def)


lemma ucast_add_256: "(ucast ((key :: u32) + 256) :: u8) = ucast key"
proof -
  have "(k + 256) mod 256 = (k :: int) mod 4294967296 mod 256" for k
    by (simp add: mod_mod_cancel)
  then show ?thesis
    by transfer (simp add: take_bit_eq_mod mod_mod_cancel)
qed

text \<open>A kernel with one lock of size 1 under key 5, as \<open>create\<close> makes it, or with its segment alone.\<close>

definition lock_segment :: segment where
  "lock_segment = \<lparr>sg_key = 261, sg_data = 1 # replicate 15 0, sg_nattch = 0, sg_dest = False\<rparr>"

definition segment_only :: lock_os where
  "segment_only = boot_lock\<lparr>ker := (ker boot_lock)\<lparr>segs := [0 \<mapsto> lock_segment], shmkeys := [261 \<mapsto> 0], next_shm := 1\<rparr>\<rparr>"

definition locked_five :: lock_os where
  "locked_five = segment_only\<lparr>ker := (ker segment_only)\<lparr>sems := [0 \<mapsto> lock_set 517 (new_lock 1 0 1000),
     1 \<mapsto> guard_set 645 1000], semkeys := [517 \<mapsto> 0, 645 \<mapsto> 1], next_sem := 2\<rparr>\<rparr>"

lemma segment_only_simps:
  "calm segment_only" "SEMKEY k segment_only = 512 + ucast (ucast k :: u8)" "SHMKEY k segment_only = 256 + ucast (ucast k :: u8)"
  "script segment_only = []" "mallocs segment_only = []" "semkeys (ker segment_only) = Map.empty"
  "segs (ker segment_only) = [0 \<mapsto> lock_segment]" "shmkeys (ker segment_only) = [261 \<mapsto> 0]"
  "semvmx (ker segment_only) = 32767"
proof -
  show *: "SEMKEY k segment_only = 512 + ucast (ucast k :: u8)" "SHMKEY k segment_only = 256 + ucast (ucast k :: u8)"
    "script segment_only = []" "mallocs segment_only = []" "semkeys (ker segment_only) = Map.empty"
    "segs (ker segment_only) = [0 \<mapsto> lock_segment]" "shmkeys (ker segment_only) = [261 \<mapsto> 0]"
    "semvmx (ker segment_only) = 32767"
    by (simp_all add: segment_only_def boot_lock_def os.extend_def boot_os_def boot_ipc_def SEMKEY_def SHMKEY_def)
  have "wf_ipc (ker segment_only)"
    by (auto simp: segment_only_def boot_lock_def os.extend_def boot_os_def boot_ipc_def wf_ipc_def wf_table_def
        lock_segment_def)
  then show "calm segment_only"
    using calm_boot by (simp add: calm_def quiet_def ftok_ok_def segment_only_def)
qed

lemma locked_five: "calm locked_five" "lock_rep 5 (Some (new_lock 1 0 1000)) locked_five"
  "shmkeys (ker locked_five) (SHMKEY 133 locked_five) = None"
proof -
  have k: "SEMKEY k locked_five = SEMKEY k segment_only" "SHMKEY k locked_five = SHMKEY k segment_only" for k
    by (simp_all add: locked_five_def SEMKEY_def SHMKEY_def)
  have "wf_ipc (ker locked_five)"
    using segment_only_simps(1)
    by (auto simp: locked_five_def calm_def wf_ipc_def wf_table_def lock_set_def guard_set_def wf_set_def new_lock_def
        segment_only_simps split: if_splits)
  then show calm: "calm locked_five"
    using segment_only_simps(1) by (simp add: calm_def quiet_def ftok_ok_def locked_five_def)
  have "cells (sg_data lock_segment) = lock_cells (new_lock 1 0 1000)"
    by code_simp
  then have "rep_at 5 (new_lock 1 0 1000) 0 1 0 lock_segment locked_five"
    using calmD(4,5) [OF calm]
    by (simp add: rep_at_def names_set_def names_seg_def k segment_only_simps guard_key_def)
      (simp add: locked_five_def segment_only_simps lock_segment_def new_lock_def IPC_PRIVATE_def)
  then show "lock_rep 5 (Some (new_lock 1 0 1000)) locked_five" by (rule rep_atI)
  show "shmkeys (ker locked_five) (SHMKEY 133 locked_five) = None"
    by (simp add: k segment_only_simps) (simp add: locked_five_def segment_only_simps)
qed

section \<open>Who holds the lock\<close>

text \<open>Successful \<open>on\<close> commands less successful \<open>off\<close> commands.\<close>

fun held :: "lock_cmd list \<Rightarrow> int list \<Rightarrow> int" where
  "held (On t # cs) (e # es) = (if e = 0 then 1 else 0) + held cs es"
| "held (Off # cs) (e # es) = (if e = 0 then - 1 else 0) + held cs es"
| "held (_ # cs) (_ # es) = held cs es"
| "held _ _ = 0"

fun uses_lock :: "lock_cmd \<Rightarrow> bool" where
  "uses_lock Delete = False"
| "uses_lock (Create n x) = True"
| "uses_lock _ = True"

lemma spec_cmd_held:
  assumes "spec_cmd c now (Some L) = Some (e, now', p)" and "uses_lock c" and "nl_expiry L = None"
    and "nl_free L \<le> unat (nl_size L)"
  shows "\<exists>L'. p = Some L' \<and> nl_size L' = nl_size L \<and> nl_expiry L' = None \<and> nl_free L' \<le> unat (nl_size L) \<and>
    held [c] [e] = int (nl_free L) - int (nl_free L')"
  using assms by (cases c) (auto simp: expired_def Let_def split: if_splits)

lemma held_Cons: "held (c # cs) (e # es) = held [c] [e] + held cs es"
  by (cases c) simp_all

lemma spec_session_held:
  assumes "spec_session cs now (Some L) = Some (es, now', p)" and "\<forall>c \<in> set cs. uses_lock c"
    and "nl_expiry L = None" and "nl_free L \<le> unat (nl_size L)"
  shows "\<exists>L'. p = Some L' \<and> nl_size L' = nl_size L \<and> nl_free L' \<le> unat (nl_size L) \<and>
    held cs es = int (nl_free L) - int (nl_free L')"
  using assms
proof (induction cs arbitrary: now L es)
  case Nil
  then show ?case by auto
next
  case (Cons c cs)
  from Cons.prems(1) obtain e now1 p1 es' where c: "spec_cmd c now (Some L) = Some (e, now1, p1)"
    and cs: "spec_session cs now1 p1 = Some (es', now', p)" and es: "es = e # es'"
    by (auto split: option.splits)
  from spec_cmd_held [OF c] Cons.prems(2-4) obtain L1 where L1: "p1 = Some L1" "nl_size L1 = nl_size L"
      "nl_expiry L1 = None" "nl_free L1 \<le> unat (nl_size L)" "held [c] [e] = int (nl_free L) - int (nl_free L1)"
    by auto
  with Cons.IH [of now1 L1 es'] Cons.prems(2) cs show ?case
    by (auto simp: es held_Cons [of c cs])
qed

section \<open>Properties of the command\<close>





text \<open>
  C15: mutual exclusion across processes. On a lock that does not expire and is not deleted, after
  any session the successful \<open>on\<close> commands not yet undone by \<open>off\<close> number between 0 and the
  size the lock was created with, exactly the units that are not free.
\<close>

theorem lock_session_excludes:
  assumes "calm s" and "lock_rep key (Some L) s" and "nl_expiry L = None" and "nl_free L = unat (nl_size L)"
    and "\<forall>c \<in> set cs. cmd_ok (snd c) \<and> uses_lock (snd c)" and "uint key < 2 ^ 31"
    and "session key cs s = Fin es t"
  shows "0 \<le> held (map snd cs) es \<and> held (map snd cs) es \<le> int (unat (nl_size L)) \<and>
    (\<exists>L'. lock_rep key (Some L') t \<and> int (nl_free L') = int (unat (nl_size L)) - held (map snd cs) es)"
proof (cases "spec_session (map snd cs) (clock (ker s)) (Some L)")
  case None
  with session_refines [OF assms(2,1) _ assms(6), of cs] assms(5,7) show ?thesis by simp
next
  case (Some r)
  then obtain es' now p' where sp: "spec_session (map snd cs) (clock (ker s)) (Some L) = Some (es', now, p')"
    by (cases r) auto
  have es: "es' = es" and rep: "lock_rep key p' t"
    using session_refines [OF assms(2,1) _ assms(6), of cs] sp assms(5,7) by auto
  from spec_session_held [OF sp] assms(3-5) obtain L' where "p' = Some L'" "nl_free L' \<le> unat (nl_size L)"
    "held (map snd cs) es = int (nl_free L) - int (nl_free L')"
    by (auto simp: es)
  moreover from this have "int (nl_free L') \<le> int (unat (nl_size L))" by (simp only: of_nat_le_iff)
  ultimately show ?thesis using rep assms(4) by auto
qed

lemma lock_session_excludes_witness:
  "\<exists>(s :: lock_os) t es. lock_rep 7 (Some (new_lock 1 0 1000)) s \<and> session 7 [(2, On 0), (3, On (- 1))] s = Fin es t \<and>
     held [On 0, On (- 1)] es \<le> 1"
proof -
  obtain s :: lock_os where s: "calm s" "lock_rep 7 (Some (new_lock 1 0 1000)) s" "clock (ker s) = 1000"
    using main_refines [OF boot_lock_rep(1) calm_boot, of "Create 1 0" 7] by (auto simp: answers_def)
  have "\<exists>t. session 7 [(2, On 0), (3, On (- 1))] s = Fin [0, 1] t"
    using session_refines [OF s(2,1), of "[(2, On 0), (3, On (- 1))]"] s(3)
    by (auto simp: new_lock_def expired_def wait_for_def Let_def)
  then obtain t where t: "session 7 [(2, On 0), (3, On (- 1))] s = Fin [0, 1] t" ..
  have "held [On 0, On (- 1)] [0, 1] \<le> 1"
    using lock_session_excludes [OF s(1,2) _ _ _ _ t] by (simp add: new_lock_def)
  with s(2) t show ?thesis by blast
qed

text \<open>
  the command line. Options may stand anywhere among the other arguments: for every list of
  well-formed arguments the action is run with the values the options name, the last one of a
  kind winning, and with the first two other arguments as key and action.
\<close>

theorem lock_options_anywhere:
  assumes "list_all arg_ok as" and "List.map_filter arg_text as = k # action # others"
  shows "lock_main (render as) s =
    lock_dispatch (fold arg_effect as lock_defaults) (word_of_int (atoi k)) action
      (enter (fold arg_effect as lock_defaults) s)"
proof (rule lock_main_render [OF assms])
  have "length (List.map_filter arg_text as) \<le> length (render as)"
    by (induction as) (simp_all add: render_def List.map_filter_def, case_tac a, simp_all)
  with assms(2) show "1 < length (render as)" by simp
qed

lemma lock_options_anywhere_witness:
  "lock_main [''-t'', ''-1'', ''9'', ''-v'', ''on''] boot_lock =
     lock_lock 9 (- 1) (boot_lock\<lparr>g_delta := 0, g_expiry := 0, g_verbose := 1\<rparr>)"
proof -
  have "decimal_int (- 1) = ''-1''"
    by (simp add: decimal_int_def decimal.simps digit_char_def char_of_def bit_0)
  moreover have "atoi ''9'' = 9"
    by (simp add: atoi_def strtol10_def is_space_def code_of_def is_digit_def Let_def to_int_id)
  ultimately show ?thesis
    using lock_options_anywhere [of "[Timeout (- 1), Positional ''9'', Verbose, Positional ''on'']" "''9''" "''on''" "[]" boot_lock]
    by (simp add: render_def List.map_filter_def lock_dispatch_def enter_def lock_defaults_def numeral_eq_Suc)
qed




text \<open>
  \<open>status\<close> prints the units in use, the size and the seconds left (-1 when the lock does not
  expire), or three times -1 when it has expired, and returns 0 or -1 accordingly.
\<close>

theorem lock_status_prints:
  assumes "calm s" and "lock_rep key (Some L) s"
  shows "\<exists>t. lock_status key s = Fin (if expired L (clock (ker s)) then - 1 else 0) t \<and>
    out t = out s @ [(''%d %d %d'', if expired L (clock (ker s)) then [- 1, - 1, - 1]
      else [uint (nl_size L) - int (nl_free L), uint (nl_size L),
            if nl_expiry L = None then - 1 else to_int (left_until L (clock (ker s)))])]"
proof -
  from assms(2) obtain i j m sg where r: "rep_at key L i j m sg s" by (auto simp: lock_rep_def)
  have "out (read_in L m sg s) = out s" by (simp add: read_in_def attach_seg_def split: option.split)
  with lock_status_live [OF r assms(1)] show ?thesis by (simp add: Let_def)
qed

lemma lock_status_prints_witness:
  "\<exists>(s :: lock_os) t. lock_status 7 s = Fin 0 t \<and> out t = out s @ [(''%d %d %d'', [0, 3, 60])]"
proof -
  obtain s :: lock_os where s: "calm s" "lock_rep 7 (Some (new_lock 3 60 1000)) s" "clock (ker s) = 1000"
    using main_refines [OF boot_lock_rep(1) calm_boot, of "Create 3 60" 7] by (auto simp: answers_def)
  from lock_status_prints [OF s(1,2)] s(3) show ?thesis
    by (auto simp: new_lock_def expired_def left_until_def to_int_id)
qed

text \<open>
  keys count modulo 256. \<open>ftok\<close> uses the low eight bits of the key, so every command on a key
  plus 256 acts on the semaphore and the segment of the key itself.
\<close>

theorem lock_key_alias:
  shows "SEMKEY (key + 256) s = SEMKEY key s \<and> SHMKEY (key + 256) s = SHMKEY key s \<and>
    lock_rep (key + 256) p s = lock_rep key p s"
proof -
  have g: "guard_key (key + 256) = guard_key key + 256" by (simp add: guard_key_def)
  have k: "SEMKEY (q + 256) s = SEMKEY q s" "SHMKEY (q + 256) s = SHMKEY q s" for q
    by (simp_all add: SEMKEY_def SHMKEY_def ucast_add_256)
  then show ?thesis
    by (simp add: g lock_rep_def rep_at_def names_set_def names_seg_def key_ok_def split: option.split)
qed

text \<open>
  keys from 128 on collide with the mutexes of the keys below. While a lock exists under a key,
  \<open>create\<close> under the key plus 128 fails, although nothing was created there, and \<open>delete\<close> under
  it removes the mutex of the first lock's segment, so that this is not a lock any more.
\<close>

theorem lock_guard_collision:
  assumes "calm s" and "lock_rep key (Some L) s" and "shmkeys (ker s) (SHMKEY (key + 128) s) = None"
  shows "(\<exists>t. lock_create (key + 128) n x s = Fin (- 1) t) \<and>
    (\<exists>t. lock_delete (key + 128) s = Fin 1 t \<and> \<not> lock_rep key (Some L) t)"
proof -
  from assms(2) obtain i j m sg where r: "rep_at key L i j m sg s" by (auto simp: lock_rep_def)
  let ?gs = "guard_set (SEMKEY (guard_key key) s) (nl_made L)"
  have g: "names_set (key + 128) j ?gs s" using r by (simp add: rep_at_def guard_key_def)
  have create: "\<exists>t. lock_create (key + 128) n x s = Fin (- 1) t"
    using Semaphore_new_exists [OF g, of 1 _ False]
    by (auto simp: lock_create_def SHSEM_COUNT_def run_simps dbg_printf_def)
  let ?t = "s\<lparr>ker := rm_set j (ker s)\<rparr>"
  have "Semaphore_attach (key + 128) s = Fin (Some \<lparr>sem_key = key + 128, sem_id = j, sem_count = 1, sem_size = 1\<rparr>) s"
    using Semaphore_attach_names [OF g] by (simp add: guard_set_def)
  moreover have "semctl_rmid j s = Fin 0 ?t"
    using g by (simp add: names_set_def semctl_rmid_def run_simps)
  moreover have "SharedMemory_attach (key + 128) ?t = Fin None (?t\<lparr>err := ENOENT\<rparr>)"
    using assms(3) g by (intro SharedMemory_attach_none) (simp_all add: names_set_def)
  moreover obtain q where "dbg_printf ''No shmem with key %d.'' [sint (key + 128)] (?t\<lparr>err := ENOENT\<rparr>) =
      Fin () (?t\<lparr>err := ENOENT, diag := q\<rparr>)"
    by (rule dbg_printfE)
  ultimately have "lock_delete (key + 128) s = Fin 1 (?t\<lparr>err := ENOENT, diag := q\<rparr>)"
    by (simp add: lock_delete_def run_simps Semaphore_delete_def)
  moreover have "semkeys (ker ?t) (SEMKEY (guard_key key) s) = None"
    using r by (simp add: rep_at_def names_set_def rm_set_def)
  then have "\<not> lock_rep key (Some L) (?t\<lparr>err := ENOENT, diag := q\<rparr>)"
    by (simp add: lock_rep_def rep_at_def names_set_def SEMKEY_def)
  ultimately show ?thesis using create by blast
qed

lemma lock_guard_collision_witness:
  "(\<exists>t. lock_create 133 1 0 locked_five = Fin (- 1) t) \<and>
   (\<exists>t. lock_delete 133 locked_five = Fin 1 t \<and> \<not> lock_rep 5 (Some (new_lock 1 0 1000)) t)"
  using lock_guard_collision [OF locked_five(1,2), of 1 0] locked_five(3) by simp

text \<open>
  a failed \<open>create\<close> is not undone. When only the segment of the key exists, \<open>create\<close> fails
  but leaves the semaphore it made: the key then exists, and creating it again fails as well.
\<close>

theorem failed_create_leaves_semaphore:
  assumes "calm s" and "names_seg key m sg s" and "semkeys (ker s) (SEMKEY key s) = None" and "unat (n :: u16) \<le> 32767"
  shows "\<exists>t. lock_create key (ucast n) x s = Fin (- 1) t \<and> Semaphore_exists key t = Fin True t \<and>
    (\<exists>u. lock_create key (ucast (n' :: u16)) x' t = Fin (- 1) u)"
proof -
  let ?a = "s\<lparr>ker := new_set (made_set key 1 n s) (ker s)\<rparr>"
  have l: "unat n \<le> semvmx (ker s)" "can_make key 1 s"
    using assms calmD(4) [OF assms(1)] by (simp_all add: calm_def quiet_def can_make_def)
  have new: "Semaphore_new key 1 (ucast (ucast n :: u32)) False s = Fin (Some (lock_obj key (int (next_sem (ker s))) n)) ?a"
    using Semaphore_new_made [OF l(2,1)] by (simp add: lock_obj_def is_up.rep_eq ucast_up_ucast_id)
  have "names_seg key m sg ?a" using assms(2) by (simp add: names_seg_def)
  from SharedMemory_new_exists [OF this]
  have shm: "SharedMemory_new key 16 False ?a = Fin None (?a\<lparr>err := EEXIST\<rparr>)" by simp
  obtain q where "dbg_printf ''A shmem segment with key %i already exists.'' [sint key] (?a\<lparr>err := EEXIST\<rparr>) =
      Fin () (?a\<lparr>err := EEXIST, diag := q\<rparr>)"
    by (rule dbg_printfE)
  with new shm have run: "lock_create key (ucast n) x s = Fin (- 1) (?a\<lparr>err := EEXIST, diag := q\<rparr>)"
    by (simp add: lock_create_def SHSEM_COUNT_def run_simps Semaphore_delete_def)
  have names: "names_set key (int (next_sem (ker s))) (made_set key 1 n s) (?a\<lparr>err := EEXIST, diag := q\<rparr>)"
    using names_made [OF l(2), of n] by (simp add: names_set_def key_ok_def SEMKEY_def)
  then have "\<exists>u. lock_create key (ucast n') x' (?a\<lparr>err := EEXIST, diag := q\<rparr>) = Fin (- 1) u"
    using Semaphore_new_exists [OF names, of 1 _ False]
    by (auto simp: lock_create_def SHSEM_COUNT_def run_simps dbg_printf_def)
  with run Semaphore_exists_names [OF names] show ?thesis by blast
qed

lemma failed_create_leaves_semaphore_witness:
  "\<exists>t. lock_create 5 (ucast (1 :: u16)) 0 segment_only = Fin (- 1) t \<and> Semaphore_exists 5 t = Fin True t"
proof -
  have "names_seg 5 0 lock_segment segment_only"
    using calmD(5) [OF segment_only_simps(1)] by (simp add: names_seg_def segment_only_simps IPC_PRIVATE_def)
  from failed_create_leaves_semaphore [OF segment_only_simps(1) this, of 1 0] show ?thesis
    by (simp add: segment_only_simps) blast
qed

text \<open>
  a missing action is not detected. With at least two arguments of which options leave at most
  one, \<open>main\<close> reads through a null pointer.
\<close>

theorem lock_missing_action:
  assumes "list_all arg_ok as" and "length (List.map_filter arg_text as) \<le> 1" and "length (render as) \<ge> 2"
  shows "\<exists>t. lock_main (render as) s = Stop Undefined t"
proof -
  have "la_e (fold lock_option (List.map_filter arg_opt as) lock_defaults) = 0"
    by (simp add: fold_effect [OF assms(1)] effect_e lock_defaults_def)
  with assms getopt_render [OF assms(1)] show ?thesis
    by (cases "List.map_filter arg_text as") (auto simp: lock_main_def run_simps Let_def)
qed

lemma lock_missing_action_witness: "\<exists>t. lock_main [''-v'', ''7''] boot_lock = Stop Undefined t"
  using lock_missing_action [of "[Verbose, Positional ''7'']" boot_lock]
  by (simp add: render_def List.map_filter_def)

end
