(* ===== verification/Bits.thy ===== *)
theory Bits
  imports Prelude
begin

text \<open>
  The bit operations of \<open>src/src/bits.h\<close> and \<open>src/src/bits.c\<close>: the table of reversed bytes,
  the macros that reverse a word and extract its first and last bit, the parity macros over the
  bit fields, and the value of a hexadecimal digit.
\<close>

section \<open>Reversing\<close>

definition R2 :: "nat \<Rightarrow> nat list" where
  "R2 n = [n, n + 2 * 64, n + 1 * 64, n + 3 * 64]"

definition R4 :: "nat \<Rightarrow> nat list" where
  "R4 n = R2 n @ R2 (n + 2 * 16) @ R2 (n + 1 * 16) @ R2 (n + 3 * 16)"

definition R6 :: "nat \<Rightarrow> nat list" where
  "R6 n = R4 n @ R4 (n + 2 * 4) @ R4 (n + 1 * 4) @ R4 (n + 3 * 4)"

definition BitReverseTable256 :: "u8 list" where
  "BitReverseTable256 = map of_nat (R6 0 @ R6 2 @ R6 1 @ R6 3)"

definition table_at :: "u32 \<Rightarrow> u32" where
  "table_at v = ucast (BitReverseTable256 ! unat (v AND 0xFF))"

definition BitwiseReverse :: "u32 \<Rightarrow> u32" where
  "BitwiseReverse v =
     push_bit 24 (table_at v) OR
     push_bit 16 (table_at (drop_bit 8 v)) OR
     push_bit 8 (table_at (drop_bit 16 v)) OR
     table_at (drop_bit 24 v)"

section \<open>First and last bit\<close>

definition LSB :: "u32 \<Rightarrow> u32" where
  "LSB data = (let tmp = data; tmp = drop_bit 1 tmp; tmp = push_bit 1 tmp in tmp XOR data)"

definition MSB :: "u32 \<Rightarrow> u32" where
  "MSB data = LSB (BitwiseReverse data)"

section \<open>Parity\<close>

text \<open>
  The exclusive or of the bit fields \<open>b00\<close>, \<open>b01\<close>, ... of a union of \<open>n\<close> bits (bit field
  \<open>k\<close> is bit \<open>k\<close> of the number), negated.
\<close>

definition fields_xor :: "nat \<Rightarrow> ('a :: len) word \<Rightarrow> bool" where
  "fields_xor n w = fold (\<lambda>k x. x \<noteq> bit w k) [0..<n] False"

definition BitwiseXNOR8 :: "u8 \<Rightarrow> bool" where "BitwiseXNOR8 b = (\<not> fields_xor 8 b)"
definition BitwiseXNOR16 :: "u16 \<Rightarrow> bool" where "BitwiseXNOR16 w = (\<not> fields_xor 16 w)"
definition BitwiseXNOR32 :: "u32 \<Rightarrow> bool" where "BitwiseXNOR32 d = (\<not> fields_xor 32 d)"

section \<open>Hexadecimal digits\<close>

definition hctoc :: "u8 \<Rightarrow> u8" where
  "hctoc c = (if c \<ge> 48 \<and> c \<le> 57 then c - 48
     else if c \<ge> 97 \<and> c \<le> 102 then c - (97 - 10)
     else if c \<ge> 65 \<and> c \<le> 70 then c - (65 - 10) else c)"

section \<open>What they compute\<close>

definition rev_byte :: "u8 \<Rightarrow> u8" where
  "rev_byte b = horner_sum of_bool 2 (rev (map (bit b) [0..<8]))"

lemma bit_rev_byte: "bit (rev_byte b) k \<longleftrightarrow> k < 8 \<and> bit b (7 - k)"
  by (auto simp: rev_byte_def bit_horner_sum_bit_iff rev_nth)

lemma table_length: "length BitReverseTable256 = 256"
  by (simp add: BitReverseTable256_def R6_def R4_def R2_def)

text \<open>The table is four levels of four entries; at each level two bits change places.\<close>

definition swap2 :: "nat \<Rightarrow> nat" where
  "swap2 k = [0, 2, 1, 3] ! k"

lemma swap2_bits: "swap2 (of_bool p + 2 * of_bool q) = of_bool q + 2 * of_bool p"
  by (cases p; cases q) (simp_all add: swap2_def)

lemma less_4: "(k :: nat) < 4 \<longleftrightarrow> k = 0 \<or> k = 1 \<or> k = 2 \<or> k = 3"
  by auto

lemma nth_quarter:
  assumes "length A = L" "length B = L" "length C = L" "j < L" "i < 4"
  shows "(A @ B @ C @ D) ! (L * i + j) = [A, B, C, D] ! i ! j"
  using assms by (auto simp: less_4 nth_append)

lemma nth_R2: "d < 4 \<Longrightarrow> R2 n ! d = n + 64 * swap2 d"
  by (auto simp: R2_def less_4 swap2_def)

lemma nth_R4: "c < 4 \<Longrightarrow> d < 4 \<Longrightarrow> R4 n ! (4 * c + d) = n + 16 * swap2 c + 64 * swap2 d"
  unfolding R4_def by (subst nth_quarter) (auto simp: R2_def [of "n + _"] R2_def [of n] less_4 swap2_def)

lemma length_R4: "length (R4 n) = 16"
  by (simp add: R4_def R2_def)

lemma nth_R6:
  "b < 4 \<Longrightarrow> c < 4 \<Longrightarrow> d < 4 \<Longrightarrow> R6 n ! (16 * b + (4 * c + d)) = n + 4 * swap2 b + 16 * swap2 c + 64 * swap2 d"
  unfolding R6_def by (subst nth_quarter) (auto simp: length_R4 nth_R4 less_4 [of b] swap2_def [of b])

lemma length_R6: "length (R6 n) = 64"
  by (simp add: R6_def length_R4)

lemma nth_table:
  assumes "a < 4" "b < 4" "c < 4" "d < 4"
  shows "(R6 0 @ R6 2 @ R6 1 @ R6 3) ! (64 * a + (16 * b + (4 * c + d))) =
    swap2 a + 4 * swap2 b + 16 * swap2 c + 64 * swap2 d"
proof -
  have "16 * b + (4 * c + d) < 64" using assms by simp
  then show ?thesis
    using assms by (subst nth_quarter) (auto simp: length_R6 nth_R6 less_4 [of a] swap2_def [of a])
qed

lemma upt_8: "[0..<8] = [0, 1, 2, 3, 4, 5, 6, 7 :: nat]"
  by (simp add: upt_rec)

lemma unat_bits8:
  "unat (w :: u8) = 64 * (of_bool (bit w 6) + 2 * of_bool (bit w 7)) + (16 * (of_bool (bit w 4) + 2 * of_bool (bit w 5)) +
     (4 * (of_bool (bit w 2) + 2 * of_bool (bit w 3)) + (of_bool (bit w 0) + 2 * of_bool (bit w 1))))"
proof -
  have "unat w = horner_sum of_bool 2 (map (bit (unat w)) [0..<8])"
    using unsigned_less [of w, where ?'a = nat] by (simp add: horner_sum_bit_eq_take_bit take_bit_nat_eq_self)
  also have "map (bit (unat w)) [0..<8] = map (bit w) [0..<8]"
    by (simp add: bit_unsigned_iff)
  finally show ?thesis by (simp add: upt_8 del: upt_conv_Cons)
qed

lemma table_correct: "BitReverseTable256 ! unat w = rev_byte w"
proof -
  let ?b = "bit w"
  have "unat w < length (R6 0 @ R6 2 @ R6 1 @ R6 3)"
    using unsigned_less [of w, where ?'a = nat] by (simp add: length_R6)
  then have "BitReverseTable256 ! unat w = of_nat ((R6 0 @ R6 2 @ R6 1 @ R6 3) ! unat w)"
    unfolding BitReverseTable256_def by (rule nth_map)
  also have "(R6 0 @ R6 2 @ R6 1 @ R6 3) ! unat w =
      (of_bool (?b 7) + 2 * of_bool (?b 6)) + 4 * (of_bool (?b 5) + 2 * of_bool (?b 4)) +
      16 * (of_bool (?b 3) + 2 * of_bool (?b 2)) + 64 * (of_bool (?b 1) + 2 * of_bool (?b 0))"
    by (subst unat_bits8, subst nth_table) (auto simp only: swap2_bits, auto)
  also have "of_nat \<dots> = rev_byte w"
    by (simp add: rev_byte_def upt_8)
  finally show ?thesis .
qed


lemma table_at_rev: "table_at v = ucast (rev_byte (ucast v))"
proof -
  have m: "(0xFF :: u32) = mask 8" by (simp add: mask_eq_exp_minus_1)
  have "unat (v AND 0xFF) = unat (ucast v :: u8)"
    unfolding m take_bit_eq_mask [symmetric] by (simp add: unsigned_take_bit_eq unsigned_ucast_eq)
  then show ?thesis by (simp add: table_at_def table_correct)
qed

lemma bit_table_at: "bit (table_at v) k \<longleftrightarrow> k < 8 \<and> bit v (7 - k)"
  by (auto simp: table_at_rev bit_simps bit_rev_byte)

lemma bit_BitwiseReverse: "bit (BitwiseReverse v) k \<longleftrightarrow> k < 32 \<and> bit v (31 - k)"
proof (cases "k < 32")
  case True
  then consider "k < 8" | "8 \<le> k" "k < 16" | "16 \<le> k" "k < 24" | "24 \<le> k" by linarith
  then show ?thesis
    using True by cases (auto simp: BitwiseReverse_def bit_simps bit_table_at)
next
  case False
  then show ?thesis by (auto simp: BitwiseReverse_def bit_simps dest: bit_imp_le_length)
qed

lemma LSB_bit: "LSB v = of_bool (bit v 0)"
proof (rule bit_word_eqI)
  fix n assume "n < LENGTH(32)"
  then show "bit (LSB v) n \<longleftrightarrow> bit (of_bool (bit v 0) :: u32) n"
    unfolding LSB_def Let_def
    by (cases n) (simp_all only: bit_xor_iff bit_push_bit_iff bit_drop_bit_eq bit_of_bool_iff comp_def, auto)
qed

lemma MSB_bit: "MSB v = of_bool (bit v 31)"
  by (simp add: MSB_def LSB_bit bit_BitwiseReverse)

lemma fields_xor_card: "fields_xor n w \<longleftrightarrow> odd (card {k. k < n \<and> bit w k})"
proof (induction n)
  case 0
  then show ?case by (simp add: fields_xor_def)
next
  case (Suc n)
  have "{k. k < Suc n \<and> bit w k} = (if bit w n then insert n {k. k < n \<and> bit w k} else {k. k < n \<and> bit w k})"
    by (auto simp: less_Suc_eq)
  with Suc show ?case by (auto simp: fields_xor_def)
qed


section \<open>Properties\<close>

text \<open>
  C39: the table-driven reversal is right. Bit \<open>k\<close> of the result is bit \<open>31 - k\<close> of the argument,
  and reversing twice gives the argument back.
\<close>

theorem BitwiseReverse_correct:
  "(\<forall>k. bit (BitwiseReverse v) k = (k < 32 \<and> bit v (31 - k))) \<and> BitwiseReverse (BitwiseReverse v) = v"
proof
  show "\<forall>k. bit (BitwiseReverse v) k = (k < 32 \<and> bit v (31 - k))" by (simp add: bit_BitwiseReverse)
  show "BitwiseReverse (BitwiseReverse v) = v"
    by (rule bit_word_eqI) (auto simp: bit_BitwiseReverse)
qed

text \<open>
  the macros for the outer bits. \<open>LSB\<close> is 1 exactly for odd numbers, \<open>MSB\<close> exactly for numbers
  that are negative as signed integers, and both are 0 otherwise.
\<close>

theorem outer_bits_correct:
  "LSB v = (if odd v then 1 else 0) \<and> MSB v = (if sint v < 0 then 1 else 0)"
proof
  show "LSB v = (if odd v then 1 else 0)" by (simp add: LSB_bit bit_0)
  have "sint v < 0 \<longleftrightarrow> bit v 31" using bit_last_iff [of v] by simp
  then show "MSB v = (if sint v < 0 then 1 else 0)" by (simp add: MSB_bit)
qed

text \<open>
  the parity macros are 1 exactly when the number of bits set is even, for each width.
\<close>

theorem parity_correct:
  "BitwiseXNOR8 b = even (card {k. bit b k}) \<and> BitwiseXNOR16 w = even (card {k. bit w k}) \<and>
   BitwiseXNOR32 d = even (card {k. bit d k})"
proof -
  have "{k. k < 8 \<and> bit b k} = {k. bit b k}" "{k. k < 16 \<and> bit w k} = {k. bit w k}"
    "{k. k < 32 \<and> bit d k} = {k. bit d k}"
    by (auto dest: bit_imp_le_length)
  then show ?thesis
    by (simp add: BitwiseXNOR8_def BitwiseXNOR16_def BitwiseXNOR32_def fields_xor_card)
qed

definition hex_char :: "bool \<Rightarrow> u8 \<Rightarrow> u8" where
  "hex_char upper d = (if d < 10 then 48 + d else (if upper then 65 else 97) + (d - 10))"

lemma hex_all: "list_all (\<lambda>n. hctoc (hex_char True (of_nat n)) = of_nat n \<and> hctoc (hex_char False (of_nat n)) = of_nat n) [0..<16]"
  by code_simp

text \<open>
  The value of a hexadecimal digit: \<open>hctoc\<close> gives every number below 16 back from its digit, in
  upper or lower case.
\<close>

lemma hctoc_hex:
  assumes "d < 16"
  shows "hctoc (hex_char upper d) = d"
proof -
  have "unat d \<in> set [0..<16]" using assms by (simp add: word_less_nat_alt)
  then have "hctoc (hex_char True (of_nat (unat d))) = of_nat (unat d) \<and>
      hctoc (hex_char False (of_nat (unat d))) = of_nat (unat d)"
    using hex_all unfolding list_all_iff by (rule bspec [rotated])
  then show ?thesis by (cases upper) simp_all
qed

end
