(* ===== verification/Registers.thy ===== *)
theory Registers
  imports SharedMemory Bits C_Library
begin

text \<open>
  The register file of \<open>src/src/registers.h\<close> and \<open>src/src/registers.c\<close>: five registers on the
  heap, a table from register ids to them, and the segment of shared memory in which they stay
  between two runs of the emulator.
\<close>

section \<open>State\<close>

datatype reg = EFLAGS | EAX | EBX | ECX | EDX

record register32 =
  r_id :: u32
  r_dword :: u32

datatype operand = Op_reg reg | Op_imm | Op_buf

text \<open>
  The file's static pointers always point to the five objects once \<open>registers$init\<close> has run;
  the emulator's own globals (the last six fields) are declared in \<open>ia32emu.c\<close>.
\<close>

record emu_os = os +
  em_regs :: "reg \<Rightarrow> register32"
  em_shmem :: "SharedMemory option"
  em_buffer :: u32
  em_target :: nat
  em_registers :: "nat \<Rightarrow> reg option"
  em_operands :: "nat \<Rightarrow> operand option"
  em_immediate :: u32
  em_jump :: bool

definition OPERAND_DST :: nat where "OPERAND_DST = 0"
definition OPERAND_SRC :: nat where "OPERAND_SRC = 1"
definition OPERAND_BUF :: nat where "OPERAND_BUF = 2"

section \<open>Ids\<close>

definition REG32_EFLAGS :: u32 where "REG32_EFLAGS = 0x010"
definition REG32_GPR_EAX :: u32 where "REG32_GPR_EAX = 0x104"
definition REG32_GPR_EBX :: u32 where "REG32_GPR_EBX = 0x114"
definition REG32_GPR_ECX :: u32 where "REG32_GPR_ECX = 0x124"
definition REG32_GPR_EDX :: u32 where "REG32_GPR_EDX = 0x134"
definition REG16_GPR_AX :: u32 where "REG16_GPR_AX = 0x102"
definition REG16_GPR_BX :: u32 where "REG16_GPR_BX = 0x112"
definition REG16_GPR_CX :: u32 where "REG16_GPR_CX = 0x122"
definition REG16_GPR_DX :: u32 where "REG16_GPR_DX = 0x132"
definition REG16_GPR_AL :: u32 where "REG16_GPR_AL = 0x101"
definition REG16_GPR_BL :: u32 where "REG16_GPR_BL = 0x111"
definition REG16_GPR_CL :: u32 where "REG16_GPR_CL = 0x121"
definition REG16_GPR_DL :: u32 where "REG16_GPR_DL = 0x131"
definition REG16_GPR_AH :: u32 where "REG16_GPR_AH = 0x141"
definition REG16_GPR_BH :: u32 where "REG16_GPR_BH = 0x151"
definition REG16_GPR_CH :: u32 where "REG16_GPR_CH = 0x161"
definition REG16_GPR_DH :: u32 where "REG16_GPR_DH = 0x171"
definition FILTER_SIZE :: u32 where "FILTER_SIZE = 0x00F"

lemmas reg_ids = REG32_EFLAGS_def REG32_GPR_EAX_def REG32_GPR_EBX_def REG32_GPR_ECX_def REG32_GPR_EDX_def
  REG16_GPR_AX_def REG16_GPR_BX_def REG16_GPR_CX_def REG16_GPR_DX_def REG16_GPR_AL_def REG16_GPR_BL_def
  REG16_GPR_CL_def REG16_GPR_DL_def REG16_GPR_AH_def REG16_GPR_BH_def REG16_GPR_CH_def REG16_GPR_DH_def

text \<open>The size of a register in bits, in a \<open>uint8_t\<close>.\<close>

definition registers_size :: "register32 \<Rightarrow> u8" where
  "registers_size r = ucast (push_bit 3 (r_id r AND FILTER_SIZE))"

text \<open>The table: which register an id stands for.\<close>

definition REGISTERS :: "(u32 \<times> reg) list" where
  "REGISTERS =
    [(REG32_EFLAGS, EFLAGS),
     (REG32_GPR_EAX, EAX), (REG16_GPR_AX, EAX), (REG16_GPR_AL, EAX), (REG16_GPR_AH, EAX),
     (REG32_GPR_EBX, EBX), (REG16_GPR_BX, EBX), (REG16_GPR_BL, EBX), (REG16_GPR_BH, EBX),
     (REG32_GPR_ECX, ECX), (REG16_GPR_CX, ECX), (REG16_GPR_CL, ECX), (REG16_GPR_CH, ECX),
     (REG32_GPR_EDX, EDX), (REG16_GPR_DX, EDX), (REG16_GPR_DL, EDX), (REG16_GPR_DH, EDX)]"

section \<open>Flags\<close>

definition put_bit :: "nat \<Rightarrow> bool \<Rightarrow> u32 \<Rightarrow> u32" where
  "put_bit k b w = (if b then set_bit k w else unset_bit k w)"

definition CF :: nat where "CF = 0"
definition PF :: nat where "PF = 2"
definition AF :: nat where "AF = 4"
definition ZF :: nat where "ZF = 6"
definition SF :: nat where "SF = 7"
definition DF :: nat where "DF = 10"
definition OF :: nat where "OF = 11"

definition set_reg :: "reg \<Rightarrow> u32 \<Rightarrow> 'z emu_os_scheme \<Rightarrow> 'z emu_os_scheme" where
  "set_reg r v s = s\<lparr>em_regs := (em_regs s)(r := (em_regs s r)\<lparr>r_dword := v\<rparr>)\<rparr>"

definition set_id :: "reg \<Rightarrow> u32 \<Rightarrow> 'z emu_os_scheme \<Rightarrow> 'z emu_os_scheme" where
  "set_id r i s = s\<lparr>em_regs := (em_regs s)(r := (em_regs s r)\<lparr>r_id := i\<rparr>)\<rparr>"

abbreviation reg_value :: "reg \<Rightarrow> 'z emu_os_scheme \<Rightarrow> u32" where
  "reg_value r s \<equiv> r_dword (em_regs s r)"

section \<open>Operations\<close>

definition SHMEM_KEY :: u32 where "SHMEM_KEY = 32"

definition OFFSETS :: "(reg \<times> u16 \<times> u32) list" where
  "OFFSETS = [(EFLAGS, 0, REG32_EFLAGS), (EAX, 1, REG32_GPR_EAX), (EBX, 2, REG32_GPR_EBX),
     (ECX, 3, REG32_GPR_ECX), (EDX, 4, REG32_GPR_EDX)]"

text \<open>One register is allocated and loaded; the result of \<open>malloc\<close> is not tested.\<close>

definition load_register :: "SharedMemory \<Rightarrow> reg \<times> u16 \<times> u32 \<Rightarrow> 'z emu_os_scheme \<Rightarrow> ('z emu_os_scheme, unit) run" where
  "load_register shm p = (case p of (r, off, i) \<Rightarrow>
     bindr malloc (\<lambda>ok.
     bindr (SharedMemory_read_uint32 shm off) (\<lambda>v.
     if \<not> ok then stop Undefined
     else modify (\<lambda>s. set_id r i (set_reg r v s)))))"

definition fix_eflags :: "'z emu_os_scheme \<Rightarrow> 'z emu_os_scheme" where
  "fix_eflags s = set_reg EFLAGS (put_bit 15 False (put_bit 5 False (put_bit 3 False (put_bit 1 True
     (reg_value EFLAGS s))))) s"

primrec run_all :: "('a \<Rightarrow> 's \<Rightarrow> ('s, unit) run) \<Rightarrow> 'a list \<Rightarrow> 's \<Rightarrow> ('s, unit) run" where
  "run_all f [] = retr ()"
| "run_all f (x # xs) = bindr (f x) (\<lambda>_. run_all f xs)"

definition registers_init :: "'z emu_os_scheme \<Rightarrow> ('z emu_os_scheme, unit) run" where
  "registers_init =
     bindr (SharedMemory_new SHMEM_KEY (5 * 4) True) (\<lambda>p.
     bindr (modify (\<lambda>s. s\<lparr>em_shmem := p\<rparr>)) (\<lambda>_.
     bindr (assertr (p \<noteq> None)) (\<lambda>_.
     case p of None \<Rightarrow> retr ()
     | Some shm \<Rightarrow>
         bindr (load_register shm (hd OFFSETS)) (\<lambda>_.
         bindr (modify fix_eflags) (\<lambda>_.
         run_all (load_register shm) (tl OFFSETS))))))"

definition save_register :: "SharedMemory \<Rightarrow> reg \<times> u16 \<times> u32 \<Rightarrow> 'z emu_os_scheme \<Rightarrow> ('z emu_os_scheme, unit) run" where
  "save_register shm p = (case p of (r, off, i) \<Rightarrow>
     bindr (gets (reg_value r)) (SharedMemory_write_uint32 shm off))"

definition registers_delete :: "'z emu_os_scheme \<Rightarrow> ('z emu_os_scheme, unit) run" where
  "registers_delete =
     bindr (gets em_shmem) (\<lambda>p.
     case p of
       None \<Rightarrow> stop Undefined
     | Some shm \<Rightarrow>
         bindr (run_all (save_register shm) OFFSETS) (\<lambda>_.
         bindr (SharedMemory_delete shm False) (\<lambda>_.
         modify (\<lambda>s. s\<lparr>em_shmem := None\<rparr>))))"

text \<open>
  The register of an id; the table has 0xFFF entries, most of them null, and is not checked. The
  id is written into the register, which all ids of the register share.
\<close>

definition registers_register :: "u32 \<Rightarrow> 'z emu_os_scheme \<Rightarrow> ('z emu_os_scheme, reg) run" where
  "registers_register i s =
     (if 0xFFF \<le> i then Stop Undefined s
      else case map_of REGISTERS i of
          None \<Rightarrow> Stop Undefined s
        | Some r \<Rightarrow> Fin r (set_id r i s))"

definition signed_char :: "char \<Rightarrow> int" where
  "signed_char c = (if code_of c < 128 then int (code_of c) else int (code_of c) - 256)"

definition name_id :: "string \<Rightarrow> u32" where
  "name_id operand =
     (let i = 0x100 OR push_bit 4 (word_of_int (signed_char (operand ! (length operand - 2)) - 97));
          c = operand ! 1 in
      if c = CHR ''l'' then i OR 1
      else if c = CHR ''h'' then i OR 1
      else if c = CHR ''x'' then i OR 2
      else i OR 4)"

definition registers_register_by_name :: "string \<Rightarrow> 'z emu_os_scheme \<Rightarrow> ('z emu_os_scheme, reg) run" where
  "registers_register_by_name operand =
     (if strncmp_eq operand ''eflags'' 7 then registers_register REG32_EFLAGS
      else if length operand < 2 then stop Undefined
      else registers_register (name_id operand))"

section \<open>Printing\<close>

definition letter_if :: "bool \<Rightarrow> char \<Rightarrow> char \<Rightarrow> int" where
  "letter_if b u l = int (code_of (if b then u else l))"

definition printGPR :: "string \<Rightarrow> reg \<Rightarrow> 'z emu_os_scheme \<Rightarrow> ('z emu_os_scheme, unit) run" where
  "printGPR fmt r =
     bindr (gets em_operands) (\<lambda>ops.
     bindr (gets (reg_value r)) (\<lambda>v.
     let d = (ops OPERAND_DST = Some (Op_reg r)); sr = (ops OPERAND_SRC = Some (Op_reg r)) in
     printf fmt [int (code_of (if d \<and> sr then CHR ''*'' else if sr then CHR ''S'' else if d then CHR ''D''
       else CHR '' '')), uint v]))"

definition registers_print :: "u32 \<Rightarrow> 'z emu_os_scheme \<Rightarrow> ('z emu_os_scheme, unit) run" where
  "registers_print immediate =
     bindr (gets (reg_value EFLAGS)) (\<lambda>f.
     bindr (printf ''eflags    : 0x%08X [status:%c%c%c%c%c%c] [control:%c]''
       [uint f, letter_if (bit f CF) (CHR ''C'') (CHR ''c''), letter_if (bit f PF) (CHR ''P'') (CHR ''p''),
        letter_if (bit f AF) (CHR ''A'') (CHR ''a''), letter_if (bit f ZF) (CHR ''Z'') (CHR ''z''),
        letter_if (bit f SF) (CHR ''S'') (CHR ''s''), letter_if (bit f OF) (CHR ''O'') (CHR ''o''),
        letter_if (bit f DF) (CHR ''D'') (CHR ''d'')]) (\<lambda>_.
     bindr (printf ''immediate : 0x%08x'' [uint immediate]) (\<lambda>_.
     bindr (printGPR ''eax [%c]   : 0x%08X'' EAX) (\<lambda>_.
     bindr (printGPR ''ebx [%c]   : 0x%08X'' EBX) (\<lambda>_.
     bindr (printGPR ''ecx [%c]   : 0x%08X'' ECX) (\<lambda>_.
     printGPR ''edx [%c]   : 0x%08X'' EDX))))))"

end
