(* ===== verification/Registers_Props.thy ===== *)
theory Registers_Props
  imports Registers
begin

text \<open>
  What the register file promises: its values survive from one run of the emulator to the next
  through the segment of shared memory, and names select registers.
\<close>

section \<open>Saving and loading\<close>

lemma update_values:
  "em_regs (set_reg r v s) = (em_regs s)(r := (em_regs s r)\<lparr>r_dword := v\<rparr>)"
  "em_regs (set_id r i s) = (em_regs s)(r := (em_regs s r)\<lparr>r_id := i\<rparr>)"
  by (simp_all add: set_reg_def set_id_def)

text \<open>The cells of the segment once the registers were written, and back.\<close>

definition saved :: "(reg \<Rightarrow> u32) \<Rightarrow> (reg \<times> u16 \<times> u32) list \<Rightarrow> u32 list \<Rightarrow> u32 list" where
  "saved val ps xs = fold (\<lambda>(r, off, i) xs. xs[unat off := val r]) ps xs"

lemma same_but_data_regs: "same_but_data shm s t \<Longrightarrow> em_regs t = em_regs s"
  by (auto simp: same_but_data_def set_data_def split: option.split)

lemma save_all:
  assumes "shm_ready shm s" and "\<forall>p \<in> set ps. unat (fst (snd p)) < length (shm_cells shm s)"
  shows "\<exists>t. run_all (save_register shm) ps s = Fin () t \<and> shm_ready shm t \<and> same_but_data shm s t \<and>
    shm_cells shm t = saved (\<lambda>r. reg_value r s) ps (shm_cells shm s)"
  using assms
proof (induction ps arbitrary: s)
  case Nil
  then show ?case using shm.same_refl by (simp add: run_simps saved_def)
next
  case (Cons p ps)
  obtain r off i where p: "p = (r, off, i)" by (cases p)
  then have off: "unat off < length (shm_cells shm s)" using Cons.prems by simp
  obtain t where t: "SharedMemory_write_uint shm off (reg_value r s) s = Fin () t" "shm_ready shm t"
      "shm_cells shm t = (shm_cells shm s)[unat off := reg_value r s]" "same_but_data shm s t"
    by (rule shm.wrE [OF Cons.prems(1) off])
  have regs: "em_regs t = em_regs s" using t(4) by (rule same_but_data_regs)
  from Cons.IH [of t] Cons.prems t(2,3) obtain u where
      u: "run_all (save_register shm) ps t = Fin () u" "shm_ready shm u" "same_but_data shm t u"
      "shm_cells shm u = saved (\<lambda>r. reg_value r t) ps (shm_cells shm t)"
    by auto
  have "same_but_data shm s u" using shm.same_trans t(4) u(3) .
  moreover have "save_register shm p s = Fin () t"
    using t(1) p by (simp add: save_register_def SharedMemory_uint32 run_simps)
  ultimately show ?case
    using t u p regs by (intro exI [of _ u]) (simp add: run_simps saved_def)
qed

definition loaded :: "u32 list \<Rightarrow> (reg \<times> u16 \<times> u32) list \<Rightarrow> 'z emu_os_scheme \<Rightarrow> 'z emu_os_scheme" where
  "loaded xs ps s = fold (\<lambda>(r, off, i) s. set_id r i (set_reg r (xs ! unat off) s)) ps s"

lemma ready_regs [simp]:
  "shm_ready shm (s\<lparr>em_regs := f\<rparr>) = shm_ready shm s" "shm_cells shm (s\<lparr>em_regs := f\<rparr>) = shm_cells shm s"
  by (simp_all add: shm_ready_def mutex_free_def sem_ok_def shm_cells_def seg_at_def
      cong: option.case_cong address.case_cong)

lemma load_all:
  assumes "shm_ready shm s" and "\<forall>p \<in> set ps. unat (fst (snd p)) < length (shm_cells shm s)"
    and "mallocs s = []"
  shows "run_all (load_register shm) ps s = Fin () (loaded (shm_cells shm s) ps s)"
  using assms
proof (induction ps arbitrary: s)
  case Nil
  then show ?case by (simp add: run_simps loaded_def)
next
  case (Cons p ps)
  obtain r off i where p: "p = (r, off, i)" by (cases p)
  then have "SharedMemory_read_uint32 shm off s = Fin (shm_cells shm s ! unat off) s"
    using Cons.prems shm.rd_ready [of shm s off] by (simp add: SharedMemory_uint32)
  with Cons.IH [of "set_id r i (set_reg r (shm_cells shm s ! unat off) s)"] Cons.prems p show ?case
    by (simp add: run_simps load_register_def loaded_def set_id_def set_reg_def)
qed

section \<open>From one run to the next\<close>

text \<open>
  The reserved bits of \<open>eflags\<close> as \<open>registers$init\<close> sets them, and the memory of a new process
  before \<open>registers$init\<close>.
\<close>

definition reserved :: "u32 \<Rightarrow> u32" where
  "reserved f = put_bit 15 False (put_bit 5 False (put_bit 3 False (put_bit 1 True f)))"

definition next_run :: "nat \<Rightarrow> (reg \<Rightarrow> register32) \<Rightarrow> 'z emu_os_scheme \<Rightarrow> 'z emu_os_scheme" where
  "next_run p g s = (exit_process s)\<lparr>pid_self := p, em_regs := g, em_shmem := None\<rparr>"

text \<open>
  The process has its registers' segment attached through an object whose mutex is free, and has
  recorded no adjustment for it.
\<close>

definition registers_open :: "SharedMemory \<Rightarrow> int \<Rightarrow> segment \<Rightarrow> int \<Rightarrow> semset \<Rightarrow> 'z emu_os_scheme \<Rightarrow> bool" where
  "registers_open shm i sg j gs s \<longleftrightarrow> em_shmem s = Some shm \<and>
     names_seg SHMEM_KEY i sg s \<and> names_set (guard_key SHMEM_KEY) j gs s \<and>
     seg_at (shm_addr shm) s = Some (i, sg) \<and> length (sg_data sg) = 20 \<and> \<not> sg_dest sg \<and>
     (\<exists>sm. shm_sem shm = Obj sm \<and> sem_id sm = j \<and> sem_size sm = 1) \<and>
     ss_vals gs = [1] \<and> ss_adj gs (pid_self s) 0 = 0 \<and> 1 \<le> semvmx (ker s)"

lemma registers_open_ready: "registers_open shm i sg j gs s \<Longrightarrow> shm_ready shm s"
  by (auto simp: registers_open_def shm_ready_def mutex_free_def sem_ok_def has_sem_def sem_value_def names_set_def)

text \<open>After the segment was written and the process has ended, its names still stand.\<close>

lemma names_next_run:
  assumes r: "registers_open shm i sg j gs s" and d: "same_but_data shm s t"
  shows "\<exists>sg' gs'. names_seg SHMEM_KEY i sg' (next_run p g t) \<and> names_set (guard_key SHMEM_KEY) j gs' (next_run p g t) \<and>
    ss_vals gs' = [1] \<and> cells (sg_data sg') = shm_cells shm t"
proof -
  note n = r [unfolded registers_open_def names_seg_def names_set_def]
  from d n obtain bs where t: "t = set_data shm bs s" by (auto simp: same_but_data_def)
  let ?k = "ker t" and ?e = "ker (next_run p g t)"
  have tabs: "segs ?k i = Some (sg\<lparr>sg_data := bs\<rparr>)" "sems ?k = sems (ker s)" "pid_self t = pid_self s"
    using n by (simp_all add: t set_data_def)
  have "segs (undo_all (pid_self t) ?k) i = Some (sg\<lparr>sg_data := bs\<rparr>)" using tabs by (simp add: undo_all_def)
  with n obtain m where seg: "segs ?e i = Some (sg\<lparr>sg_data := bs, sg_nattch := m\<rparr>)"
    using detach_upto_keeps by (fastforce simp: next_run_def exit_process_def)
  have "ss_vals (undo_set (semvmx ?k) (pid_self t) gs) = [1]"
    using n tabs by (simp add: undo_set_def t set_data_def)
  moreover have "sems ?e j = Some (undo_set (semvmx ?k) (pid_self t) gs)"
    using n tabs by (simp add: next_run_def exit_process_def undo_all_def)
  moreover have "cells bs = shm_cells shm t"
    using n by (simp add: t shm_cells_def seg_at_set_data)
  moreover have "shmkeys ?e = shmkeys (ker s)" "semkeys ?e = semkeys (ker s)" "script (next_run p g t) = script s"
    "mallocs (next_run p g t) = mallocs s" "ftok_of (next_run p g t) = ftok_of s"
    using n by (simp_all add: next_run_def exit_process_def undo_all_def t set_data_def)
  ultimately show ?thesis
    using seg n by (intro exI [of _ "sg\<lparr>sg_data := bs, sg_nattch := m\<rparr>"] exI [of _ "undo_set (semvmx ?k) (pid_self t) gs"])
      (simp add: names_seg_def names_set_def key_ok_def SEMKEY_def SHMKEY_def)
qed

lemma saved_offsets:
  assumes "length xs = 5"
  shows "saved val OFFSETS xs = map val [EFLAGS, EAX, EBX, ECX, EDX]"
proof -
  have upd: "[a, b, c, d, e][2 := v] = [a, b, v, d, e]" "[a, b, c, d, e][3 := v] = [a, b, c, v, e]"
    "[a, b, c, d, e][4 := v] = [a, b, c, d, v]" for a b c d e v :: u32
    by (simp_all add: eval_nat_numeral)
  obtain a b c d e where "xs = [a, b, c, d, e]"
    using assms by (auto simp: length_Suc_conv numeral_eq_Suc)
  then show ?thesis by (simp add: saved_def OFFSETS_def upd)
qed

lemma registers_init_loads:
  assumes "names_seg SHMEM_KEY i sg s" and "names_set (guard_key SHMEM_KEY) j gs s"
    and "ss_vals gs = [1]" and "1 \<le> semvmx (ker s)" and "cells (sg_data sg) = map val [EFLAGS, EAX, EBX, ECX, EDX]"
  shows "\<exists>t. registers_init s = Fin () t \<and>
    (\<forall>r. reg_value r t = (if r = EFLAGS then reserved (val EFLAGS) else val r))"
proof -
  let ?shm = "(attached_obj SHMEM_KEY i j s)\<lparr>shm_size := 20\<rparr>"
  let ?t = "((attach_seg i sg s)\<lparr>err := EEXIST\<rparr>)\<lparr>em_shmem := Some ?shm\<rparr>"
  have new: "SharedMemory_new SHMEM_KEY 20 True s = Fin (Some ?shm) ((attach_seg i sg s)\<lparr>err := EEXIST\<rparr>)"
    using SharedMemory_new_attaches [OF assms(1,2)] by blast
  have at: "seg_at (shm_addr ?shm) ?t = Some (i, sg\<lparr>sg_nattch := Suc (sg_nattch sg)\<rparr>)"
    by (simp add: attached_obj_def attach_seg_def seg_at_def)
  have cells: "shm_cells ?shm ?t = map val [EFLAGS, EAX, EBX, ECX, EDX]"
    using at assms(5) by (simp add: shm_cells_def)
  have ready: "shm_ready ?shm ?t"
    using assms at by (simp add: shm_ready_def mutex_free_def sem_ok_def has_sem_def sem_value_def names_set_def
        attached_obj_def)
  have mallocs: "mallocs ?t = []" using assms(1) by (simp add: names_seg_def)
  let ?xs = "map val [EFLAGS, EAX, EBX, ECX, EDX]"
  let ?f = "fix_eflags (loaded ?xs [hd OFFSETS] ?t)"
  have low: "\<forall>p \<in> set OFFSETS. unat (fst (snd p)) < length ?xs" by (simp add: OFFSETS_def)
  obtain g where g: "?f = ?t\<lparr>em_regs := g\<rparr>"
    by (simp add: fix_eflags_def loaded_def OFFSETS_def set_reg_def set_id_def)
  have "run_all (load_register ?shm) [hd OFFSETS] ?t = Fin () (loaded ?xs [hd OFFSETS] ?t)"
    using load_all [OF ready _ mallocs, of "[hd OFFSETS]"] low unfolding cells by (simp add: OFFSETS_def)
  then have one: "load_register ?shm (hd OFFSETS) ?t = Fin () (loaded ?xs [hd OFFSETS] ?t)"
    by (simp add: run_simps split: run.splits)
  have more: "run_all (load_register ?shm) (tl OFFSETS) ?f = Fin () (loaded ?xs (tl OFFSETS) ?f)"
    using load_all [of ?shm ?f "tl OFFSETS"] low ready cells mallocs unfolding g by (simp add: OFFSETS_def)
  have "registers_init s = Fin () (loaded ?xs (tl OFFSETS) ?f)"
    using new one more by (simp add: registers_init_def run_simps)
  moreover have "reg_value r (loaded ?xs (tl OFFSETS) ?f) = (if r = EFLAGS then reserved (val EFLAGS) else val r)" for r
    by (cases r) (simp_all add: loaded_def OFFSETS_def fix_eflags_def reserved_def update_values)
  ultimately show ?thesis by blast
qed

text \<open>
  C13: the register file lasts. What \<open>registers$delete\<close> saves at the end of a run, the next process'
  \<open>registers$init\<close> loads, whatever its memory held: every register has its value again, except that
  four reserved bits of \<open>eflags\<close> are forced.
\<close>

theorem registers_survive:
  assumes "registers_open shm i sg j gs s"
  shows "\<exists>t u. registers_delete s = Fin () t \<and> registers_init (next_run p g t) = Fin () u \<and>
    (\<forall>r. reg_value r u = (if r = EFLAGS then reserved (reg_value EFLAGS s) else reg_value r s))"
proof -
  note n = assms [unfolded registers_open_def]
  let ?val = "\<lambda>r. reg_value r s"
  have len: "length (shm_cells shm s) = 5" using n by (simp add: shm_cells_def)
  have "\<forall>p \<in> set OFFSETS. unat (fst (snd p)) < length (shm_cells shm s)"
    unfolding len by (simp add: OFFSETS_def)
  then obtain t where t: "run_all (save_register shm) OFFSETS s = Fin () t" "same_but_data shm s t"
      "shm_cells shm t = saved ?val OFFSETS (shm_cells shm s)"
    using save_all [OF registers_open_ready [OF assms]] by blast
  let ?t = "t\<lparr>em_shmem := None\<rparr>"
  have del: "registers_delete s = Fin () ?t"
    using n t(1) by (auto simp: registers_delete_def run_simps SharedMemory_delete_def deref_sem_def Semaphore_delete_def)
  have same: "next_run p g ?t = next_run p g t" by (simp add: next_run_def exit_process_def)
  obtain sg' gs' where "names_seg SHMEM_KEY i sg' (next_run p g t)" "names_set (guard_key SHMEM_KEY) j gs' (next_run p g t)"
      "ss_vals gs' = [1]" "cells (sg_data sg') = map ?val [EFLAGS, EAX, EBX, ECX, EDX]"
    using names_next_run [OF assms t(2)] t(3) saved_offsets [OF len] by metis
  moreover have "1 \<le> semvmx (ker (next_run p g t))"
    using n t(2) by (auto simp: next_run_def exit_process_def undo_all_def same_but_data_def set_data_def split: option.split)
  ultimately obtain u where "registers_init (next_run p g t) = Fin () u"
      "\<forall>r. reg_value r u = (if r = EFLAGS then reserved (?val EFLAGS) else ?val r)"
    using registers_init_loads [of i sg' "next_run p g t" j gs' ?val] by blast
  with del same show ?thesis by auto
qed

text \<open>The state after the first run's \<open>registers$init\<close> made the segment.\<close>

definition first_run :: "(reg \<Rightarrow> u32) \<Rightarrow> emu_os" where
  "first_run val = os.extend (made_shm SHMEM_KEY 20 boot_os)
     \<lparr>em_regs = (\<lambda>r. \<lparr>r_id = 0, r_dword = val r\<rparr>), em_shmem = Some (made_obj SHMEM_KEY 20 boot_os),
      em_buffer = 0, em_target = 0, em_registers = (\<lambda>_. None), em_operands = (\<lambda>_. None),
      em_immediate = 0, em_jump = False\<rparr>"

lemma first_run_open:
  "\<exists>i sg j gs. registers_open (made_obj SHMEM_KEY 20 boot_os) i sg j gs (first_run val)"
proof -
  have can: "shm_can_make SHMEM_KEY 20 boot_os"
    by (simp add: shm_can_make_def can_make_def key_ok_def SEMKEY_def SHMKEY_def boot_os_def boot_ipc_def
        IPC_PRIVATE_def guard_key_def SHMEM_KEY_def)
  have os: "ker (first_run val) = ker (made_shm SHMEM_KEY 20 boot_os)"
    "script (first_run val) = script (made_shm SHMEM_KEY 20 boot_os)"
    "mallocs (first_run val) = mallocs (made_shm SHMEM_KEY 20 boot_os)"
    "ftok_of (first_run val) = ftok_of (made_shm SHMEM_KEY 20 boot_os)"
    "attached (first_run val) = attached (made_shm SHMEM_KEY 20 boot_os)"
    "pid_self (first_run val) = pid_self (made_shm SHMEM_KEY 20 boot_os)"
    "em_shmem (first_run val) = Some (made_obj SHMEM_KEY 20 boot_os)"
    by (simp_all add: first_run_def os.defs)
  have seg: "seg_at a (first_run val) = seg_at a (made_shm SHMEM_KEY 20 boot_os)" for a
    by (simp add: seg_at_def os cong: option.case_cong address.case_cong)
  have "semvmx (ker (made_shm SHMEM_KEY 20 boot_os)) = 32767"
    by (simp add: made_shm_def Let_def boot_os_def boot_ipc_def)
  then have "registers_open (made_obj SHMEM_KEY 20 boot_os) (int (next_shm (ker boot_os)))
      ((made_seg SHMEM_KEY 20 boot_os)\<lparr>sg_nattch := 1\<rparr>) (int (next_sem (ker boot_os)))
      (made_set (guard_key SHMEM_KEY) 1 1 boot_os) (first_run val)"
    using made_shm_names [OF can] made_shm_ready(2) [OF can]
    by (simp add: registers_open_def os seg names_seg_def names_set_def key_ok_def SEMKEY_def SHMKEY_def
        made_seg_def made_obj_def made_set_def)
  then show ?thesis by blast
qed

lemma registers_survive_witness:
  "\<exists>t u. registers_delete (first_run (\<lambda>_. 7)) = Fin () t \<and>
     registers_init (next_run 2 (\<lambda>_. \<lparr>r_id = 0, r_dword = 0\<rparr>) t) = Fin () u \<and> reg_value ECX u = 7"
proof -
  obtain i sg j gs where "registers_open (made_obj SHMEM_KEY 20 boot_os) i sg j gs (first_run (\<lambda>_. 7))"
    using first_run_open by blast
  from registers_survive [OF this, of 2 "\<lambda>_. \<lparr>r_id = 0, r_dword = 0\<rparr>"] obtain t u where
    "registers_delete (first_run (\<lambda>_. 7)) = Fin () t"
    "registers_init (next_run 2 (\<lambda>_. \<lparr>r_id = 0, r_dword = 0\<rparr>) t) = Fin () u"
    "\<forall>r. reg_value r u = (if r = EFLAGS then reserved (reg_value EFLAGS (first_run (\<lambda>_. 7)))
      else reg_value r (first_run (\<lambda>_. 7)))"
    by blast
  then show ?thesis by (intro exI [of _ t] exI [of _ u]) (simp add: first_run_def os.defs)
qed

section \<open>Names\<close>

text \<open>
  register names. Every name of a 32-bit, 16-bit or 8-bit register selects the register of its letter, and
  the two halves \<open>al\<close> and \<open>ah\<close> select the same id: only the size is told apart, and no name
  reaches the ids \<open>REG16_GPR_AH\<close> to \<open>REG16_GPR_DH\<close>.
\<close>

theorem registers_names:
  shows "list_all (\<lambda>(l, r). registers_register_by_name [CHR ''e'', l, CHR ''x''] s = Fin r (set_id r (name_id [CHR ''e'', l, CHR ''x'']) s) \<and>
      registers_register_by_name [l, CHR ''x''] s = Fin r (set_id r (name_id [l, CHR ''x'']) s) \<and>
      registers_register_by_name [l, CHR ''l''] s = Fin r (set_id r (name_id [l, CHR ''l'']) s) \<and>
      registers_register_by_name [l, CHR ''h''] s = registers_register_by_name [l, CHR ''l''] s \<and>
      name_id [CHR ''e'', l, CHR ''x''] AND FILTER_SIZE = 4 \<and> name_id [l, CHR ''x''] AND FILTER_SIZE = 2 \<and>
      name_id [l, CHR ''l''] AND FILTER_SIZE = 1)
    [(CHR ''a'', EAX), (CHR ''b'', EBX), (CHR ''c'', ECX), (CHR ''d'', EDX)]"
  by (simp add: registers_register_by_name_def name_id_def signed_char_def code_of_def registers_register_def
      strncmp_eq_whole REGISTERS_def reg_ids FILTER_SIZE_def)

end
