(* ===== verification/Register_Views.thy ===== *)
theory Register_Views
  imports Registers
begin

text \<open>
  The unions of \<open>src/src/registers.h\<close> that show a register as its parts: \<open>AX\<close>, \<open>AL\<close> and \<open>AH\<close> of a general
  register, the flags of \<open>EFLAGS\<close>; and those of \<open>src/src/bits.h\<close> that name every bit of a number. A union is a list of layouts of the same word; a layout is the list of the bit fields
  of a structure with their widths, from the least significant bit on (as the compiler for IA-32 places them).
\<close>

section \<open>Bit fields\<close>

type_synonym layout = "(string \<times> nat) list"

fun field_names :: "layout \<Rightarrow> string list" where
  "field_names [] = []"
| "field_names ((g, w) # fs) = g # field_names fs"

fun field_offset :: "layout \<Rightarrow> string \<Rightarrow> nat" where
  "field_offset [] f = 0"
| "field_offset ((g, w) # fs) f = (if g = f then 0 else w + field_offset fs f)"

definition field_width :: "layout \<Rightarrow> string \<Rightarrow> nat" where
  "field_width fs f = (case map_of fs f of None \<Rightarrow> 0 | Some w \<Rightarrow> w)"

definition read_field :: "layout \<Rightarrow> string \<Rightarrow> 'a :: len word \<Rightarrow> 'a word" where
  "read_field fs f v = take_bit (field_width fs f) (drop_bit (field_offset fs f) v)"

text \<open>Assigning to a field keeps the bits around it; what does not fit is cut off.\<close>

definition write_field :: "layout \<Rightarrow> string \<Rightarrow> 'a :: len word \<Rightarrow> 'a word \<Rightarrow> 'a word" where
  "write_field fs f x v =
     (let o' = field_offset fs f; w = field_width fs f in
      (v AND NOT (push_bit o' (mask w))) OR push_bit o' (take_bit w x))"

section \<open>The types\<close>

definition register32_t :: "layout list" where
  "register32_t = [[(''dword'', 32)], [(''value'', 32)]]"

definition gpr32_t :: "layout list" where
  "gpr32_t = [[(''dword'', 32)], [(''value'', 32)], [(''x'', 16), ('''', 16)], [(''l'', 8), (''h'', 8), ('''', 16)]]"

definition gpr16_t :: "layout list" where
  "gpr16_t = [[(''dword'', 32)], [(''value'', 16), ('''', 16)], [(''x'', 16), ('''', 16)],
     [(''l'', 8), (''h'', 8), ('''', 16)]]"

text \<open>A structure with two fields without a name has them under two.\<close>

definition gpr8l_t :: "layout list" where
  "gpr8l_t = [[(''dword'', 32)], [(''x'', 16), ('''', 16)], [(''value'', 8), ('''', 8), ('' '', 16)],
     [(''l'', 8), (''h'', 8), ('''', 16)]]"

definition gpr8h_t :: "layout list" where
  "gpr8h_t = [[(''dword'', 32)], [(''x'', 16), ('''', 16)], [('''', 8), (''value'', 8), ('' '', 16)],
     [(''l'', 8), (''h'', 8), ('''', 16)]]"

definition eflags32_t :: "layout list" where
  "eflags32_t = [[(''dword'', 32)],
     [(''CF'', 1), (''r$0x01'', 1), (''PF'', 1), (''r$0x03'', 1), (''AF'', 1), (''r$0x05'', 1), (''ZF'', 1), (''SF'', 1),
      (''TF'', 1), (''IF'', 1), (''DF'', 1), (''OF'', 1), (''IOPL'', 2), (''NT'', 1), (''r$0x0F'', 1),
      (''RF'', 1), (''VM'', 1), (''AC'', 1), (''VIF'', 1), (''VIP'', 1), (''ID'', 1), (''r$0x16'', 10)]]"

definition register_types :: "layout list list" where
  "register_types = [register32_t, gpr32_t, gpr16_t, gpr8l_t, gpr8h_t, eflags32_t]"

lemmas register_type_defs = register_types_def register32_t_def gpr32_t_def gpr16_t_def gpr8l_t_def gpr8h_t_def eflags32_t_def

text \<open>The unions of \<open>bits.h\<close>.\<close>

definition byte_t :: "layout list" where
  "byte_t = [[(''BYTE'', 8)],
     [(''b00'', 1), (''b01'', 1), (''b02'', 1), (''b03'', 1), (''b04'', 1), (''b05'', 1), (''b06'', 1), (''b07'', 1)]]"

definition word_t :: "layout list" where
  "word_t = [[(''WORD'', 16)],
     [(''b00'', 1), (''b01'', 1), (''b02'', 1), (''b03'', 1), (''b04'', 1), (''b05'', 1), (''b06'', 1), (''b07'', 1),
      (''b08'', 1), (''b09'', 1), (''b0A'', 1), (''b0B'', 1), (''b0C'', 1), (''b0D'', 1), (''b0E'', 1), (''b0F'', 1)]]"

definition dword_t :: "layout list" where
  "dword_t = [[(''DWORD'', 32)],
     [(''b00'', 1), (''b01'', 1), (''b02'', 1), (''b03'', 1), (''b04'', 1), (''b05'', 1), (''b06'', 1), (''b07'', 1),
      (''b08'', 1), (''b09'', 1), (''b0A'', 1), (''b0B'', 1), (''b0C'', 1), (''b0D'', 1), (''b0E'', 1), (''b0F'', 1),
      (''b10'', 1), (''b11'', 1), (''b12'', 1), (''b13'', 1), (''b14'', 1), (''b15'', 1), (''b16'', 1), (''b17'', 1),
      (''b18'', 1), (''b19'', 1), (''b1A'', 1), (''b1B'', 1), (''b1C'', 1), (''b1D'', 1), (''b1E'', 1), (''b1F'', 1)]]"

lemmas bit_type_defs = byte_t_def word_t_def dword_t_def

section \<open>Fields of a well-formed layout\<close>

text \<open>The names differ and the fields fill the word.\<close>

definition fills :: "nat \<Rightarrow> layout \<Rightarrow> bool" where
  "fills n fs \<longleftrightarrow> distinct (field_names fs) \<and> sum_list (map snd fs) = n"

definition field_bits :: "layout \<Rightarrow> string \<Rightarrow> nat set" where
  "field_bits fs f = {field_offset fs f ..< field_offset fs f + field_width fs f}"

lemma width_Cons: "field_width ((g, w) # fs) f = (if g = f then w else field_width fs f)"
  by (simp add: field_width_def)

lemma field_end: "f \<in> set (field_names fs) \<Longrightarrow> field_offset fs f + field_width fs f \<le> sum_list (map snd fs)"
  by (induction fs f rule: field_offset.induct) (auto simp: width_Cons)

lemma field_apart:
  "f \<in> set (field_names fs) \<Longrightarrow> g \<in> set (field_names fs) \<Longrightarrow> f \<noteq> g \<Longrightarrow> field_bits fs f \<inter> field_bits fs g = {}"
proof (induction fs)
  case (Cons p fs)
  obtain h w where p: "p = (h, w)" by force
  have shift: "k \<in> field_bits (p # fs) x \<longleftrightarrow> w \<le> k \<and> k - w \<in> field_bits fs x" if "x \<noteq> h" for k x
    using that by (auto simp: field_bits_def width_Cons p)
  have first: "k < w" if "k \<in> field_bits (p # fs) h" for k
    using that by (simp add: field_bits_def width_Cons p)
  show ?case
  proof (cases "f = h \<or> g = h")
    case True
    with Cons.prems(3) shift first show ?thesis by fastforce
  next
    case False
    with Cons p have "field_bits fs f \<inter> field_bits fs g = {}" by simp
    with False shift show ?thesis by blast
  qed
qed simp

lemma fields_cover:
  "k < sum_list (map snd fs) \<Longrightarrow> distinct (field_names fs) \<Longrightarrow> \<exists>f. f \<in> set (field_names fs) \<and> k \<in> field_bits fs f"
proof (induction fs arbitrary: k)
  case (Cons p fs)
  obtain g w where p: "p = (g, w)" by force
  show ?case
  proof (cases "k < w")
    case True
    with p show ?thesis by (intro exI [of _ g]) (simp add: field_bits_def width_Cons)
  next
    case False
    with Cons.prems p have "k - w < sum_list (map snd fs)" by auto
    with Cons.IH Cons.prems(2) p obtain f where "f \<in> set (field_names fs)" "k - w \<in> field_bits fs f" by auto
    with Cons.prems False p show ?thesis by (intro exI [of _ f]) (auto simp: field_bits_def width_Cons)
  qed
qed simp

lemma bit_read_field: "bit (read_field fs f v) k \<longleftrightarrow> k < field_width fs f \<and> bit v (field_offset fs f + k)"
  by (auto simp: read_field_def bit_simps)

lemma bit_write_field:
  "bit (write_field fs f x (v :: 'a :: len word)) k \<longleftrightarrow> k < LENGTH('a) \<and>
    (if k \<in> field_bits fs f then bit x (k - field_offset fs f) else bit v k)"
  by (auto simp: write_field_def field_bits_def Let_def bit_simps dest: bit_imp_le_length)

lemma layout_views:
  fixes x v :: "'a :: len word"
  assumes fills: "fills LENGTH('a) fs" and f: "f \<in> set (field_names fs)"
  shows "(\<forall>k < LENGTH('a). \<exists>!h. h \<in> set (field_names fs) \<and> k \<in> field_bits fs h) \<and>
    read_field fs f (write_field fs f x v) = take_bit (field_width fs f) x \<and>
    (\<forall>g \<in> set (field_names fs). g \<noteq> f \<longrightarrow> read_field fs g (write_field fs f x v) = read_field fs g v) \<and>
    write_field fs f (read_field fs f v) v = v"
proof (intro conjI ballI impI)
  have room: "field_offset fs g + field_width fs g \<le> LENGTH('a)" if "g \<in> set (field_names fs)" for g
    using field_end [OF that] fills by (simp add: fills_def)
  show "\<forall>k < LENGTH('a). \<exists>!h. h \<in> set (field_names fs) \<and> k \<in> field_bits fs h"
    using fields_cover [of _ fs] field_apart [of _ fs] fills unfolding fills_def
    by (metis disjoint_iff)
  show "read_field fs f (write_field fs f x v) = take_bit (field_width fs f) x"
    using room [OF f]
    by (intro bit_word_eqI) (auto simp: bit_read_field bit_write_field field_bits_def bit_simps)
  show "write_field fs f (read_field fs f v) v = v"
    by (intro bit_word_eqI) (auto simp: bit_read_field bit_write_field field_bits_def)
  fix g assume g: "g \<in> set (field_names fs)" "g \<noteq> f"
  have "field_offset fs g + k \<notin> field_bits fs f" if "k < field_width fs g" for k
    using field_apart [OF g(1) f g(2)] that by (auto simp: field_bits_def disjoint_iff)
  with room [OF g(1)] show "read_field fs g (write_field fs f x v) = read_field fs g v"
    by (intro bit_word_eqI) (auto simp: bit_read_field bit_write_field)
qed

section \<open>Properties\<close>



text \<open>
  The two halves of \<open>x\<close> are \<open>l\<close> and \<open>h\<close>, in every type that shows them, and the flags have the places
  that the emulator uses.
\<close>

lemma halves:
  "read_field (gpr32_t ! 2) ''x'' (v :: u32) = push_bit 8 (read_field (gpr32_t ! 3) ''h'' v) OR read_field (gpr32_t ! 3) ''l'' v"
  by (rule bit_word_eqI) (auto simp: gpr32_t_def bit_read_field field_width_def bit_simps)

lemma flag_places:
  "map (field_offset (eflags32_t ! 1)) [''CF'', ''PF'', ''AF'', ''ZF'', ''SF'', ''DF'', ''OF''] = [CF, PF, AF, ZF, SF, DF, OF]"
  by (simp add: eflags32_t_def CF_def PF_def AF_def ZF_def SF_def DF_def OF_def)

text \<open>
  The unions of \<open>bits.h\<close>: each bit has its name, and the three macros for parity, which add the named bits, count the bits
  that are set.
\<close>

definition named_bits :: "layout \<Rightarrow> 'a :: len word \<Rightarrow> bool list" where
  "named_bits fs v = map (\<lambda>f. read_field fs f v = 1) (field_names fs)"

lemma bit_types_fill: "list_all (fills 8) byte_t" "list_all (fills 16) word_t" "list_all (fills 32) dword_t"
  by (simp_all add: bit_type_defs fills_def)

lemma read_bit: "field_width fs f = 1 \<Longrightarrow> read_field fs f v = 1 \<longleftrightarrow> bit v (field_offset fs f)"
  by (auto simp: read_field_def bit_iff_odd_drop_bit odd_iff_mod_2_eq_one take_bit_Suc)

lemma named_bits:
  "named_bits (byte_t ! 1) (b :: u8) = map (bit b) [0..<8]"
  "named_bits (word_t ! 1) (w :: u16) = map (bit w) [0..<16]"
  "named_bits (dword_t ! 1) (d :: u32) = map (bit d) [0..<32]"
  by (simp_all add: named_bits_def bit_type_defs read_bit field_width_def upt_rec)

lemma fields_xor_fold: "fields_xor n w = fold (\<noteq>) (map (bit w) [0..<n]) False"
  unfolding fields_xor_def fold_map comp_def by (intro fold_cong) auto

lemma parity_of_named_bits:
  "BitwiseXNOR8 b = (\<not> fold (\<noteq>) (named_bits (byte_t ! 1) b) False)"
  "BitwiseXNOR16 w = (\<not> fold (\<noteq>) (named_bits (word_t ! 1) w) False)"
  "BitwiseXNOR32 d = (\<not> fold (\<noteq>) (named_bits (dword_t ! 1) d) False)"
  unfolding named_bits fields_xor_fold [symmetric]
  by (simp_all only: BitwiseXNOR8_def BitwiseXNOR16_def BitwiseXNOR32_def)

text \<open>What holds of the views of a register holds of these.\<close>

lemma bit_views:
  "fs \<in> set byte_t \<Longrightarrow> f \<in> set (field_names fs) \<Longrightarrow> read_field fs f (write_field fs f x (b :: u8)) = take_bit (field_width fs f) x"
  "fs \<in> set word_t \<Longrightarrow> f \<in> set (field_names fs) \<Longrightarrow> read_field fs f (write_field fs f y (w :: u16)) = take_bit (field_width fs f) y"
  "fs \<in> set dword_t \<Longrightarrow> f \<in> set (field_names fs) \<Longrightarrow> read_field fs f (write_field fs f z (d :: u32)) = take_bit (field_width fs f) z"
  using bit_types_fill layout_views [of fs f x b] layout_views [of fs f y w] layout_views [of fs f z d]
  by (auto simp: list_all_iff)

end
