(* ===== verification/Ia32emu.thy ===== *)
theory Ia32emu
  imports Registers
begin

text \<open>
  The instruction emulator \<open>src/src/ia32emu.c\<close>: one run executes one instruction on the register
  file kept in shared memory. Error messages on \<open>stderr\<close> are not modelled.
\<close>

section \<open>Opcodes\<close>

datatype OPCODE =
  I_SAL | I_SAR | I_SHL | I_SHR | I_MOV | I_ADD | I_SUB | I_OR | I_AND | I_XOR
| I_JA | I_JAE | I_JB | I_JBE | I_JC | I_JCXZ | I_JECXZ | I_JE | I_JG | I_JGE | I_JL | I_JLE
| I_JNA | I_JNAE | I_JNB | I_JNBE | I_JNC | I_JNE | I_JNG | I_JNGE | I_JNL | I_JNLE | I_JNO
| I_JNP | I_JNS | I_JNZ | I_JO | I_JP | I_JPE | I_JPO | I_JS | I_JZ | I_TEST | I_CMP

text \<open>The comparisons of \<open>set_instruction\<close>, in their order.\<close>

definition instructions :: "(string \<times> OPCODE) list" where
  "instructions =
    [(''SAL'', I_SAL), (''SAR'', I_SAR), (''SHL'', I_SHL), (''SHR'', I_SHR), (''JA'', I_JA),
     (''JAE'', I_JAE), (''JB'', I_JB), (''JBE'', I_JBE), (''JC'', I_JC), (''JCXZ'', I_JCXZ),
     (''JECXZ'', I_JECXZ), (''JE'', I_JE), (''JG'', I_JG), (''JGE'', I_JGE), (''JL'', I_JL),
     (''JLE'', I_JLE), (''JNA'', I_JNA), (''JNAE'', I_JNAE), (''JNB'', I_JNB), (''JNBE'', I_JNBE),
     (''JNC'', I_JNC), (''JNE'', I_JNE), (''JNG'', I_JNG), (''JNGE'', I_JNGE), (''JNL'', I_JNL),
     (''JNLE'', I_JNLE), (''JNO'', I_JNO), (''JNP'', I_JNP), (''JNS'', I_JNS), (''JNZ'', I_JNZ),
     (''JO'', I_JO), (''JP'', I_JP), (''JPE'', I_JPE), (''JPO'', I_JPO), (''JS'', I_JS), (''JZ'', I_JZ),
     (''MOV'', I_MOV), (''AND'', I_AND), (''XOR'', I_XOR), (''OR'', I_OR), (''ADD'', I_ADD),
     (''SUB'', I_SUB), (''TEST'', I_TEST)]"

definition IS :: "string \<Rightarrow> string \<Rightarrow> bool" where
  "IS optarg name = strncmp_eq optarg name (length name + 1)"

text \<open>The opcode and the error code; an unknown name leaves opcode 0, which is \<open>SAL\<close>.\<close>

definition set_instruction :: "string \<Rightarrow> OPCODE \<times> int" where
  "set_instruction opcodestr = (case find (\<lambda>(n, c). IS opcodestr n) instructions of
     Some (n, c) \<Rightarrow> (c, EXIT_SUCCESS)
   | None \<Rightarrow> (I_SAL, EXIT_FAILURE))"

definition is_shift :: "OPCODE \<Rightarrow> bool" where
  "is_shift c \<longleftrightarrow> c = I_SAR \<or> c = I_SHR \<or> c = I_SAL \<or> c = I_SHL"

section \<open>Shifts\<close>

definition EFLAGS_RESET :: u32 where "EFLAGS_RESET = 0x00000020"

text \<open>One turn of the loop of \<open>shift\<close>, on the destination and the flags.\<close>

definition shift_step :: "OPCODE \<Rightarrow> u32 \<times> u32 \<Rightarrow> u32 \<times> u32" where
  "shift_step ins p = (case p of (dst, f) \<Rightarrow>
     if ins = I_SAL \<or> ins = I_SHL then (push_bit 1 dst, put_bit CF (bit (MSB dst) 0) f)
     else
       (if ins = I_SAR then
          (let signum = dst AND 0x80000000; d = drop_bit 1 dst in d OR signum)
        else drop_bit 1 dst,
        put_bit CF (bit (LSB dst) 0) f))"

primrec shift_loop :: "OPCODE \<Rightarrow> nat \<Rightarrow> u32 \<times> u32 \<Rightarrow> u32 \<times> u32" where
  "shift_loop ins 0 p = p"
| "shift_loop ins (Suc n) p = shift_loop ins n (shift_step ins p)"

definition shift :: "OPCODE \<Rightarrow> u32 \<Rightarrow> u32 \<Rightarrow> u32 \<Rightarrow> u32 \<times> u32" where
  "shift ins dst cnt f =
     (let cnt_tmp = cnt AND 0x1F; (dst, f) = shift_loop ins (unat cnt_tmp) (dst, f) in
      (dst,
       if cnt AND 0x1F = 1 then
         (if ins = I_SAL \<or> ins = I_SHL then put_bit OF (bit (MSB dst) 0 \<noteq> bit f CF) f
          else if ins = I_SAR then put_bit OF False f
          else put_bit OF (bit (MSB dst) 0) f)
       else f))"

section \<open>Operands\<close>

definition op_value :: "operand \<Rightarrow> 'z emu_os_scheme \<Rightarrow> u32" where
  "op_value p s = (case p of Op_reg r \<Rightarrow> reg_value r s | Op_imm \<Rightarrow> em_immediate s | Op_buf \<Rightarrow> em_buffer s)"

definition op_store :: "operand \<Rightarrow> u32 \<Rightarrow> 'z emu_os_scheme \<Rightarrow> 'z emu_os_scheme" where
  "op_store p v s = (case p of Op_reg r \<Rightarrow> set_reg r v s | Op_imm \<Rightarrow> s\<lparr>em_immediate := v\<rparr>
     | Op_buf \<Rightarrow> s\<lparr>em_buffer := v\<rparr>)"

text \<open>\<open>*operands[n]\<close>, read and written; a null pointer is not tested.\<close>

definition load_op :: "nat \<Rightarrow> 'z emu_os_scheme \<Rightarrow> ('z emu_os_scheme, u32) run" where
  "load_op n s = (case em_operands s n of None \<Rightarrow> Stop Undefined s | Some p \<Rightarrow> Fin (op_value p s) s)"

definition store_op :: "nat \<Rightarrow> u32 \<Rightarrow> 'z emu_os_scheme \<Rightarrow> ('z emu_os_scheme, unit) run" where
  "store_op n v s = (case em_operands s n of None \<Rightarrow> Stop Undefined s | Some p \<Rightarrow> Fin () (op_store p v s))"

definition set_flag :: "nat \<Rightarrow> bool \<Rightarrow> 'z emu_os_scheme \<Rightarrow> ('z emu_os_scheme, unit) run" where
  "set_flag k b = modify (\<lambda>s. set_reg EFLAGS (put_bit k b (reg_value EFLAGS s)) s)"

text \<open>\<open>ADD\<close> falls through to \<open>TEST\<close>.\<close>

definition test_flags :: "'z emu_os_scheme \<Rightarrow> ('z emu_os_scheme, unit) run" where
  "test_flags =
     bindr (set_flag CF False) (\<lambda>_.
     bindr (set_flag OF False) (\<lambda>_.
     bindr (load_op OPERAND_BUF) (\<lambda>v.
     bindr (set_flag SF (bit (MSB v) 0)) (\<lambda>_.
     bindr (load_op OPERAND_BUF) (\<lambda>v.
     bindr (set_flag ZF (v = 0)) (\<lambda>_.
     bindr (load_op OPERAND_BUF) (\<lambda>v.
     set_flag PF (BitwiseXNOR32 v))))))))"

definition setEFLAGS :: "OPCODE \<Rightarrow> 'z emu_os_scheme \<Rightarrow> ('z emu_os_scheme, unit) run" where
  "setEFLAGS opcode =
     bindr (if opcode = I_SUB \<or> opcode = I_CMP then
              bindr (load_op OPERAND_DST) (\<lambda>d. bindr (load_op OPERAND_SRC) (\<lambda>v.
              if d < v then set_flag CF True else retr ()))
            else if opcode = I_ADD then
              bindr (load_op OPERAND_BUF) (\<lambda>b. bindr (load_op OPERAND_DST) (\<lambda>d.
              bindr (if b < d then set_flag CF True else retr ()) (\<lambda>_. test_flags)))
            else if opcode = I_TEST then test_flags
            else retr ()) (\<lambda>_.
     bindr (load_op OPERAND_BUF) (\<lambda>v. set_flag ZF (v = 0)))"

definition commit :: "'z emu_os_scheme \<Rightarrow> ('z emu_os_scheme, unit) run" where
  "commit = bindr (load_op OPERAND_BUF) (\<lambda>v. bindr (store_op OPERAND_DST v) (\<lambda>_. store_op OPERAND_BUF 0xFFFFFFFF))"

definition size_of :: "nat \<Rightarrow> 'z emu_os_scheme \<Rightarrow> ('z emu_os_scheme, u8) run" where
  "size_of n s = (case em_registers s n of None \<Rightarrow> Stop Undefined s
     | Some r \<Rightarrow> Fin (registers_size (em_regs s r)) s)"

definition check_operands :: "OPCODE \<Rightarrow> 'z emu_os_scheme \<Rightarrow> ('z emu_os_scheme, int) run" where
  "check_operands opcode =
     bindr (gets em_operands) (\<lambda>ops.
     if is_shift opcode then retr (if ops OPERAND_DST = None then EXIT_FAILURE else EXIT_SUCCESS)
     else if ops OPERAND_DST = None \<or> ops OPERAND_SRC = None then retr EXIT_FAILURE
     else
       bindr (size_of OPERAND_SRC) (\<lambda>dsize.
       bindr (size_of OPERAND_DST) (\<lambda>ssize.
       retr (if dsize \<noteq> ssize then EXIT_FAILURE else EXIT_SUCCESS))))"

section \<open>Executing an instruction\<close>

definition guarded_op :: "OPCODE \<Rightarrow> ('z emu_os_scheme \<Rightarrow> ('z emu_os_scheme, unit) run) \<Rightarrow>
    'z emu_os_scheme \<Rightarrow> ('z emu_os_scheme, int) run" where
  "guarded_op opcode body =
     bindr (check_operands opcode) (\<lambda>e. if e = EXIT_SUCCESS then bindr body (\<lambda>_. retr e) else retr e)"

definition jump_if :: "bool \<Rightarrow> 'z emu_os_scheme \<Rightarrow> ('z emu_os_scheme, int) run" where
  "jump_if j =
     bindr (modify (\<lambda>s. s\<lparr>em_jump := j\<rparr>)) (\<lambda>_.
     bindr (printf (if j then ''Instruction will jump.'' else ''Instruction will not jump.'') []) (\<lambda>_.
     retr 0))"

definition flag_jump :: "(u32 \<Rightarrow> bool) \<Rightarrow> 'z emu_os_scheme \<Rightarrow> ('z emu_os_scheme, int) run" where
  "flag_jump c = bindr (gets (reg_value EFLAGS)) (\<lambda>f. jump_if (c f))"

text \<open>
  The switch of \<open>main\<close>. A shift of any kind calls \<open>shift\<close> with \<open>SAR\<close>; the two-operand instructions
  except \<open>MOV\<close>, \<open>AND\<close> and \<open>TEST\<close> start from what the buffer holds; \<open>JCXZ\<close> looks at a pointer that
  only \<open>JECXZ\<close> sets.
\<close>

definition execute :: "OPCODE \<Rightarrow> u8 \<Rightarrow> 'z emu_os_scheme \<Rightarrow> ('z emu_os_scheme, int) run" where
  "execute opcode cnt = (case opcode of
     I_MOV \<Rightarrow> guarded_op opcode
       (bindr (load_op OPERAND_SRC) (\<lambda>v. bindr (store_op OPERAND_BUF v) (\<lambda>_.
        bindr (setEFLAGS opcode) (\<lambda>_. commit))))
   | I_SUB \<Rightarrow> guarded_op opcode
       (bindr (load_op OPERAND_BUF) (\<lambda>b. bindr (load_op OPERAND_SRC) (\<lambda>v.
        bindr (store_op OPERAND_BUF (b - v)) (\<lambda>_. bindr (setEFLAGS opcode) (\<lambda>_. commit)))))
   | I_CMP \<Rightarrow> guarded_op opcode
       (bindr (load_op OPERAND_BUF) (\<lambda>b. bindr (load_op OPERAND_SRC) (\<lambda>v.
        bindr (store_op OPERAND_BUF (b - v)) (\<lambda>_. setEFLAGS opcode))))
   | I_AND \<Rightarrow> guarded_op opcode
       (bindr (load_op OPERAND_DST) (\<lambda>d. bindr (load_op OPERAND_SRC) (\<lambda>v.
        bindr (store_op OPERAND_BUF (d AND v)) (\<lambda>_. bindr (setEFLAGS opcode) (\<lambda>_. commit)))))
   | I_TEST \<Rightarrow> guarded_op opcode
       (bindr (load_op OPERAND_DST) (\<lambda>d. bindr (load_op OPERAND_SRC) (\<lambda>v.
        bindr (store_op OPERAND_BUF (d AND v)) (\<lambda>_. setEFLAGS opcode))))
   | I_ADD \<Rightarrow> guarded_op opcode
       (bindr (load_op OPERAND_BUF) (\<lambda>b. bindr (load_op OPERAND_SRC) (\<lambda>v.
        bindr (store_op OPERAND_BUF (b + v)) (\<lambda>_. bindr (setEFLAGS opcode) (\<lambda>_. commit)))))
   | I_OR \<Rightarrow> guarded_op opcode
       (bindr (load_op OPERAND_BUF) (\<lambda>b. bindr (load_op OPERAND_SRC) (\<lambda>v.
        bindr (store_op OPERAND_BUF (b OR v)) (\<lambda>_. bindr (setEFLAGS opcode) (\<lambda>_. commit)))))
   | I_XOR \<Rightarrow> guarded_op opcode
       (bindr (load_op OPERAND_BUF) (\<lambda>b. bindr (load_op OPERAND_SRC) (\<lambda>v.
        bindr (store_op OPERAND_BUF (b XOR v)) (\<lambda>_. bindr (setEFLAGS opcode) (\<lambda>_. commit)))))
   | I_JCXZ \<Rightarrow> bindr (registers_register REG16_GPR_CX) (\<lambda>_. stop Undefined)
   | I_JECXZ \<Rightarrow> bindr (registers_register REG32_GPR_ECX) (\<lambda>r.
       bindr (gets (reg_value r)) (\<lambda>v. jump_if (v = 0)))
   | I_JNB \<Rightarrow> flag_jump (\<lambda>f. \<not> bit f CF) | I_JNC \<Rightarrow> flag_jump (\<lambda>f. \<not> bit f CF)
   | I_JAE \<Rightarrow> flag_jump (\<lambda>f. \<not> bit f CF)
   | I_JNO \<Rightarrow> flag_jump (\<lambda>f. \<not> bit f OF)
   | I_JPO \<Rightarrow> flag_jump (\<lambda>f. \<not> bit f PF) | I_JNP \<Rightarrow> flag_jump (\<lambda>f. \<not> bit f PF)
   | I_JNS \<Rightarrow> flag_jump (\<lambda>f. \<not> bit f SF)
   | I_JNE \<Rightarrow> flag_jump (\<lambda>f. \<not> bit f ZF) | I_JNZ \<Rightarrow> flag_jump (\<lambda>f. \<not> bit f ZF)
   | I_JC \<Rightarrow> flag_jump (\<lambda>f. bit f CF) | I_JNAE \<Rightarrow> flag_jump (\<lambda>f. bit f CF)
   | I_JB \<Rightarrow> flag_jump (\<lambda>f. bit f CF)
   | I_JO \<Rightarrow> flag_jump (\<lambda>f. bit f OF)
   | I_JPE \<Rightarrow> flag_jump (\<lambda>f. bit f PF) | I_JP \<Rightarrow> flag_jump (\<lambda>f. bit f PF)
   | I_JS \<Rightarrow> flag_jump (\<lambda>f. bit f SF)
   | I_JE \<Rightarrow> flag_jump (\<lambda>f. bit f ZF) | I_JZ \<Rightarrow> flag_jump (\<lambda>f. bit f ZF)
   | I_JNBE \<Rightarrow> flag_jump (\<lambda>f. \<not> bit f CF \<and> \<not> bit f ZF) | I_JA \<Rightarrow> flag_jump (\<lambda>f. \<not> bit f CF \<and> \<not> bit f ZF)
   | I_JBE \<Rightarrow> flag_jump (\<lambda>f. bit f CF \<or> bit f ZF) | I_JNA \<Rightarrow> flag_jump (\<lambda>f. bit f CF \<or> bit f ZF)
   | I_JNLE \<Rightarrow> flag_jump (\<lambda>f. \<not> bit f ZF \<and> bit f SF = bit f OF)
   | I_JG \<Rightarrow> flag_jump (\<lambda>f. \<not> bit f ZF \<and> bit f SF = bit f OF)
   | I_JNG \<Rightarrow> flag_jump (\<lambda>f. bit f ZF \<or> bit f SF \<noteq> bit f OF)
   | I_JLE \<Rightarrow> flag_jump (\<lambda>f. bit f ZF \<or> bit f SF \<noteq> bit f OF)
   | I_JNL \<Rightarrow> flag_jump (\<lambda>f. bit f SF = bit f OF) | I_JGE \<Rightarrow> flag_jump (\<lambda>f. bit f SF = bit f OF)
   | I_JNGE \<Rightarrow> flag_jump (\<lambda>f. bit f SF \<noteq> bit f OF) | I_JL \<Rightarrow> flag_jump (\<lambda>f. bit f SF \<noteq> bit f OF)
   | _ \<Rightarrow> guarded_op opcode
       (bindr (load_op OPERAND_DST) (\<lambda>d. bindr (gets (reg_value EFLAGS)) (\<lambda>f.
        let (v, f') = shift I_SAR d (ucast cnt) f in
        bindr (modify (set_reg EFLAGS f')) (\<lambda>_.
        bindr (store_op OPERAND_BUF v) (\<lambda>_. bindr (setEFLAGS opcode) (\<lambda>_. commit)))))))"


section \<open>The command line\<close>

definition emu_shortopts :: string where "emu_shortopts = ''hsdir:v:''"

text \<open>
  The long option \<open>help\<close> sets the flag \<open>h_f\<close> itself and is reported as character 0; the others
  are reported by their letter.
\<close>

definition emu_longopts :: "long_option list" where
  "emu_longopts =
    [\<lparr>lo_name = ''help'', lo_arg = False, lo_val = CHR 0x00\<rparr>,
     \<lparr>lo_name = ''src'', lo_arg = False, lo_val = CHR ''s''\<rparr>,
     \<lparr>lo_name = ''dst'', lo_arg = False, lo_val = CHR ''d''\<rparr>,
     \<lparr>lo_name = ''immediate'', lo_arg = False, lo_val = CHR ''i''\<rparr>,
     \<lparr>lo_name = ''register'', lo_arg = True, lo_val = CHR ''r''\<rparr>,
     \<lparr>lo_name = ''value'', lo_arg = True, lo_val = CHR ''v''\<rparr>]"

record emu_args =
  ea_h_f :: bool
  ea_e :: int
  ea_ptr :: "nat option"

text \<open>The loop that reads a value in hexadecimal; the text is not empty.\<close>

fun hex_loop :: "u32 \<Rightarrow> string \<Rightarrow> u32" where
  "hex_loop v [] = v"
| "hex_loop v (c # cs) =
     (let v = v OR ucast (hctoc (of_nat (code_of c))) in
      if cs \<noteq> [] then hex_loop (push_bit 4 v) cs else v)"

text \<open>The case of \<open>-v\<close>: the value to be stored and the error code.\<close>

definition read_value :: "operand \<Rightarrow> string \<Rightarrow> int \<Rightarrow> 'z emu_os_scheme \<Rightarrow> ('z emu_os_scheme, u32 \<times> int) run" where
  "read_value p optarg e =
     (if \<not> strncmp_eq optarg ''RST'' 4 then
        (let (n, ptr) = strtoul0 optarg; operand_val = of_nat n in
         bindr (gets em_target) (\<lambda>target.
         bindr (size_of target) (\<lambda>size.
         if unat operand_val \<le> 2 ^ unat size then
           retr (if ptr \<noteq> [] then hex_loop 0 optarg else operand_val, e)
         else retr (operand_val, EXIT_FAILURE))))
      else if p = Op_reg EFLAGS then retr (EFLAGS_RESET, e)
      else bindr (gets junk) (\<lambda>j. retr (of_nat j, e)))"

fun emu_option :: "opt \<Rightarrow> emu_args \<Rightarrow> 'z emu_os_scheme \<Rightarrow> ('z emu_os_scheme, emu_args) run" where
  "emu_option (Opt c optarg) a =
     (if c = CHR 0x00 \<or> c = CHR ''h'' then retr (a\<lparr>ea_h_f := True\<rparr>)
      else if c = CHR ''d'' \<or> c = CHR ''s'' then
        (let target = (if c = CHR ''d'' then OPERAND_DST else OPERAND_SRC) in
         bindr (modify (\<lambda>s. s\<lparr>em_target := target\<rparr>)) (\<lambda>_. retr (a\<lparr>ea_ptr := Some target\<rparr>)))
      else if c = CHR ''i'' then
        bindr (gets em_target) (\<lambda>target.
        if target = OPERAND_SRC then
          (case ea_ptr a of
             None \<Rightarrow> stop Undefined
           | Some k \<Rightarrow> bindr (modify (\<lambda>s. s\<lparr>em_operands := (em_operands s)(k \<mapsto> Op_imm)\<rparr>)) (\<lambda>_. retr a))
        else retr (a\<lparr>ea_e := 1\<rparr>))
      else if c = CHR ''r'' then
        (case ea_ptr a of
           None \<Rightarrow> retr (a\<lparr>ea_e := 1\<rparr>)
         | Some k \<Rightarrow>
             bindr (registers_register_by_name optarg) (\<lambda>r.
             bindr (modify (\<lambda>s. s\<lparr>em_operands := (em_operands s)(k \<mapsto> Op_reg r),
                 em_registers := (em_registers s)(em_target s \<mapsto> r)\<rparr>)) (\<lambda>_. retr a)))
      else if c = CHR ''v'' then
        (case ea_ptr a of
           None \<Rightarrow> stop Undefined
         | Some k \<Rightarrow>
             bindr (gets em_operands) (\<lambda>ops.
             case ops k of
               None \<Rightarrow> retr (a\<lparr>ea_e := EXIT_FAILURE\<rparr>)
             | Some p \<Rightarrow>
                 bindr (read_value p optarg (ea_e a)) (\<lambda>(v, e).
                 bindr (modify (op_store p v)) (\<lambda>_. retr (a\<lparr>ea_e := e\<rparr>)))))
      else retr (a\<lparr>ea_e := EXIT_FAILURE\<rparr>))"

primrec emu_options :: "opt list \<Rightarrow> emu_args \<Rightarrow> 'z emu_os_scheme \<Rightarrow> ('z emu_os_scheme, emu_args) run" where
  "emu_options [] a = retr a"
| "emu_options (x # xs) a = bindr (emu_option x a) (emu_options xs)"

text \<open>The instruction and its count; the error code and whether the usage is shown.\<close>

definition parse_instruction :: "int \<Rightarrow> bool \<Rightarrow> string list \<Rightarrow> int \<times> bool \<times> OPCODE \<times> u8" where
  "parse_instruction e h_f rest =
     (if e = EXIT_SUCCESS \<and> rest \<noteq> [] then
        (let (opcode, e) = set_instruction (hd rest) in
         if e = EXIT_SUCCESS then
           (if is_shift opcode \<and> length rest = 2 then
              (let (n, ptr) = strtoul0 (last rest) in
               (if ptr \<noteq> [] then EXIT_FAILURE else e, h_f, opcode, of_nat n))
            else (if length rest \<noteq> 1 then EXIT_FAILURE else e, h_f, opcode, 1))
         else (e, True, opcode, 1))
      else (EXIT_FAILURE, h_f, I_SAL, 1))"

definition emu_usage :: "'z emu_os_scheme \<Rightarrow> ('z emu_os_scheme, unit) run" where
  "emu_usage = modify (\<lambda>s. s\<lparr>out := out s @ map (\<lambda>l. (l, []))
     [''Usage: %s <options> <opcode>'', ''Options:'', '' -h|--help'',
      '' -r|--register eax|ebx|ecx|edx|eflags'', '' -v|--value    RST | <BAADBEEF>'']\<rparr>)"

definition emu_main :: "string list \<Rightarrow> 'z emu_os_scheme \<Rightarrow> ('z emu_os_scheme, int) run" where
  "emu_main argv =
     bindr registers_init (\<lambda>_.
     bindr (registers_register REG32_EFLAGS) (\<lambda>_.
     let (opts, rest) = getopt_long emu_shortopts emu_longopts argv in
     bindr (emu_options opts \<lparr>ea_h_f = False, ea_e = 0, ea_ptr = None\<rparr>) (\<lambda>a.
     let (e, h_f, opcode, cnt) = parse_instruction (ea_e a) (ea_h_f a) rest in
     bindr (if h_f then emu_usage
            else if e = 0 then
              bindr (execute opcode cnt) (\<lambda>e.
              if e = EXIT_SUCCESS then bindr (gets em_immediate) registers_print else retr ())
            else retr ()) (\<lambda>_.
     bindr registers_delete (\<lambda>_.
     retr 0)))))"

end
