(* ===== verification/Ia32emu_Props.thy ===== *)
theory Ia32emu_Props
  imports Ia32emu
begin

text \<open>
  What the emulator computes: the shift loop against its closed form, the instruction and
  register names, the effect of each group of instructions, and the register file between runs.
\<close>

section \<open>Flags\<close>

lemma bit_put_bit: "k < 32 \<Longrightarrow> bit (put_bit k b w) j \<longleftrightarrow> (if j = k then b else bit w j)"
  by (auto simp: put_bit_def bit_set_bit_iff bit_unset_bit_iff dest: bit_imp_le_length)

lemma put_bit_same [simp]: "put_bit k b (put_bit k c w) = put_bit k b w"
  by (rule bit_word_eqI) (auto simp: put_bit_def bit_set_bit_iff bit_unset_bit_iff)

lemma flag_bounds [simp]: "CF < 32" "PF < 32" "AF < 32" "ZF < 32" "SF < 32" "DF < 32" "OF < 32"
  by (simp_all add: CF_def PF_def AF_def ZF_def SF_def DF_def OF_def)

lemma flag_distinct [simp]: "distinct [CF, PF, AF, ZF, SF, DF, OF]"
  by (simp add: CF_def PF_def AF_def ZF_def SF_def DF_def OF_def)

lemma MSB_0: "bit (MSB v) 0 = bit v 31" and LSB_0: "bit (LSB v) 0 = bit v 0"
  by (simp_all add: MSB_bit LSB_bit)

section \<open>The shift loop\<close>

text \<open>What a shift by \<open>n\<close> does, in one step.\<close>

definition sar :: "nat \<Rightarrow> u32 \<Rightarrow> u32" where
  "sar n v = word_of_int (sint v div 2 ^ n)"

definition shifted :: "OPCODE \<Rightarrow> nat \<Rightarrow> u32 \<Rightarrow> u32" where
  "shifted ins n v = (if ins = I_SAL \<or> ins = I_SHL then push_bit n v
     else if ins = I_SAR then sar n v else drop_bit n v)"

definition last_out :: "OPCODE \<Rightarrow> nat \<Rightarrow> u32 \<Rightarrow> bool" where
  "last_out ins n v = (if ins = I_SAL \<or> ins = I_SHL then bit v (32 - n)
     else if ins = I_SAR then bit v (min 31 (n - 1)) else bit v (n - 1))"

lemma bit_sint32: "bit (sint (v :: u32)) j = bit v (min 31 j)"
  by (cases "j < 32"; cases "j = 31") (auto simp: bit_sint_iff dest: bit_imp_le_length)

lemma bit_sar: "bit (sar n v) k \<longleftrightarrow> k < 32 \<and> bit v (min 31 (k + n))"
proof -
  have "bit (sint v div 2 ^ n) k = bit (sint v) (n + k)"
    by (simp add: drop_bit_eq_div [symmetric] bit_drop_bit_eq)
  then have b: "bit (sint v div 2 ^ n) k = bit v (min 31 (k + n))" by (simp add: bit_sint32 add.commute)
  have len: "LENGTH(32) = 32" by simp
  show ?thesis unfolding sar_def bit_word_of_int_iff b len ..
qed

lemma bit_sign_mask: "bit (0x80000000 :: u32) k \<longleftrightarrow> k = 31"
proof -
  have m: "(0x80000000 :: u32) = push_bit 31 1" by simp
  show ?thesis unfolding m by (simp only: bit_push_bit_iff bit_1_iff) auto
qed

lemma sar_step:
  "(drop_bit 1 v OR (v AND 0x80000000)) = sar 1 v"
proof (rule bit_word_eqI)
  fix k assume k: "k < LENGTH(32)"
  have m: "bit (v AND 0x80000000) k \<longleftrightarrow> k = 31 \<and> bit v 31"
    by (auto simp only: bit_and_iff bit_sign_mask)
  have d: "bit (drop_bit 1 v) k \<longleftrightarrow> k \<noteq> 31 \<and> bit v (k + 1)"
    using bit_imp_le_length [of v "k + 1"] by (auto simp: bit_drop_bit_eq)
  have "min 31 (k + 1) = (if k = 31 then 31 else k + 1)" using k by simp
  then show "bit (drop_bit 1 v OR (v AND 0x80000000)) k = bit (sar 1 v) k"
    unfolding bit_or_iff m d bit_sar using k by simp
qed

lemma shift_step_shifted:
  "shift_step ins (v, f) = (shifted ins 1 v, put_bit CF (last_out ins 1 v) f)"
  using sar_step [of v]
  by (simp add: shift_step_def shifted_def last_out_def MSB_0 LSB_0 Let_def)

lemma shifted_add: "shifted ins n (shifted ins m v) = shifted ins (m + n) v"
proof -
  have "sar n (sar m v) = sar (m + n) v"
    by (rule bit_word_eqI) (auto simp: bit_sar min_def algebra_simps)
  then show ?thesis by (simp add: shifted_def add.commute)
qed

lemma last_out_add: "0 < n \<Longrightarrow> m + n \<le> 32 \<Longrightarrow> last_out ins n (shifted ins m v) = last_out ins (m + n) v"
  by (auto simp: last_out_def shifted_def bit_sar bit_simps min_def algebra_simps)

lemma shift_loop_closed:
  "n \<le> 32 \<Longrightarrow> shift_loop ins n (v, f) = (shifted ins n v, if n = 0 then f else put_bit CF (last_out ins n v) f)"
proof (induction n arbitrary: v f)
  case 0
  then show ?case by (simp add: shifted_def sar_def)
next
  case (Suc n)
  then have IH: "shift_loop ins n (shifted ins 1 v, put_bit CF (last_out ins 1 v) f) =
      (shifted ins n (shifted ins 1 v), if n = 0 then put_bit CF (last_out ins 1 v) f
       else put_bit CF (last_out ins n (shifted ins 1 v)) (put_bit CF (last_out ins 1 v) f))"
    by simp
  show ?case
    using Suc.prems last_out_add [of n 1 ins v]
    by (cases "n = 0") (simp_all add: shift_step_shifted IH shifted_add del: One_nat_def, simp_all)
qed


text \<open>The same in arithmetic: the result, and the last bit that was shifted out.\<close>

definition spec_shift :: "OPCODE \<Rightarrow> nat \<Rightarrow> u32 \<Rightarrow> u32" where
  "spec_shift ins n v = (if ins = I_SAL \<or> ins = I_SHL then word_of_int (uint v * 2 ^ n)
     else if ins = I_SAR then word_of_int (sint v div 2 ^ n)
     else word_of_int (uint v div 2 ^ n))"

definition spec_carry :: "OPCODE \<Rightarrow> nat \<Rightarrow> u32 \<Rightarrow> bool" where
  "spec_carry ins n v = (if ins = I_SAL \<or> ins = I_SHL then odd (uint v * 2 ^ n div 2 ^ 32)
     else if ins = I_SAR then odd (sint v div 2 ^ (n - 1))
     else odd (uint v div 2 ^ (n - 1)))"

lemma spec_shift_eq: "spec_shift ins n v = shifted ins n v"
proof -
  have "bit (word_of_int (uint v div 2 ^ n) :: u32) k = bit (drop_bit n v) k" if "k < 32" for k
    using that bit_imp_le_length [of v "n + k"]
    by (auto simp: bit_word_of_int_iff drop_bit_eq_div [symmetric] bit_drop_bit_eq bit_uint_iff)
  then have "(word_of_int (uint v div 2 ^ n) :: u32) = drop_bit n v"
    by (intro bit_word_eqI) simp
  moreover have "(word_of_int (uint v * 2 ^ n) :: u32) = push_bit n v"
    by (simp add: push_bit_eq_mult wi_hom_syms [symmetric])
  ultimately show ?thesis by (simp add: spec_shift_def shifted_def sar_def)
qed

lemma shifted_out: "n \<le> 32 \<Longrightarrow> odd (uint (v :: u32) * 2 ^ n div 2 ^ 32) = bit v (32 - n)"
  unfolding bit_iff_odd [symmetric] push_bit_eq_mult [symmetric]
  by (auto simp: bit_push_bit_iff bit_uint_iff dest: bit_imp_le_length)

lemma spec_carry_eq:
  assumes "0 < n" and "n \<le> 32"
  shows "spec_carry ins n v = last_out ins n v"
proof -
  have "odd (uint v div 2 ^ (n - 1)) = bit v (n - 1)" "odd (sint v div 2 ^ (n - 1)) = bit v (min 31 (n - 1))"
    unfolding bit_iff_odd [symmetric] bit_sint32 by (auto simp: bit_uint_iff dest: bit_imp_le_length)
  with assms shifted_out [OF assms(2), of v] show ?thesis
    by (simp add: spec_carry_def last_out_def)
qed

lemma sign_bit: "sint (v :: u32) < 0 \<longleftrightarrow> bit v 31"
  using bit_last_iff [of v] by simp

lemma count_bound: "unat (cnt AND 0x1F :: u32) < 32"
  using word_and_le1 [of cnt "0x1F"] by (simp add: word_le_nat_alt)

text \<open>
  C2: shifting. For every instruction, count and operand the loop of \<open>shift\<close> computes what
  arithmetic says with the count modulo 32: multiplication by a power of two modulo \<open>2 ^ 32\<close>, or
  division rounding down of the signed (\<open>SAR\<close>) or unsigned (\<open>SHR\<close>) number; the carry flag is the last
  bit shifted out; for a count of 1 the overflow flag tells whether a left shift changed the sign,
  and is cleared by every right shift.
\<close>

theorem shift_correct:
  shows "shift ins v cnt f = (let n = unat (cnt AND 0x1F); r = spec_shift ins n v;
      g = put_bit CF (spec_carry ins n v) f in
    (r, if n = 0 then f
        else if n = 1 then put_bit OF ((ins = I_SAL \<or> ins = I_SHL) \<and> (sint v < 0) \<noteq> (sint r < 0)) g
        else g))"
proof -
  let ?n = "unat (cnt AND 0x1F)" and ?r = "shifted ins (unat (cnt AND 0x1F)) v"
  have one: "cnt AND 0x1F = 1 \<longleftrightarrow> ?n = 1"
    by (simp add: word_unat_eq_iff)
  have msb: "?n = 1 \<Longrightarrow> bit (MSB ?r) 0 = bit ?r 31" by (simp add: MSB_0)
  have shr: "\<not> bit (drop_bit (Suc 0) v) 31"
    using bit_imp_le_length [of v 32] by (auto simp: bit_drop_bit_eq)
  have loop: "shift_loop ins ?n (v, f) = (?r, if ?n = 0 then f else put_bit CF (last_out ins ?n v) f)"
    using shift_loop_closed count_bound [of cnt] by simp
  have out: "last_out ins 1 v = bit v 31" if "ins = I_SAL \<or> ins = I_SHL"
    using that by (auto simp: last_out_def)
  show ?thesis
    using count_bound [of cnt] out shr
    by (auto simp: shift_def Let_def loop one spec_shift_eq spec_carry_eq sign_bit MSB_0 bit_put_bit shifted_def)
qed

section \<open>Instructions on registers\<close>

text \<open>
  The operands of an instruction as the options \<open>-d -r\<close> and \<open>-s -r\<close> leave them in a fresh
  process: two general registers of one size, and the buffer, which is zero.
\<close>

definition reg_operands :: "reg \<Rightarrow> reg \<Rightarrow> 'z emu_os_scheme \<Rightarrow> bool" where
  "reg_operands d r s \<longleftrightarrow> em_operands s OPERAND_DST = Some (Op_reg d) \<and>
     em_operands s OPERAND_SRC = Some (Op_reg r) \<and> em_operands s OPERAND_BUF = Some Op_buf \<and>
     em_registers s OPERAND_DST = Some d \<and> em_registers s OPERAND_SRC = Some r \<and> em_buffer s = 0 \<and>
     registers_size (em_regs s d) = registers_size (em_regs s r) \<and> d \<noteq> EFLAGS \<and> r \<noteq> EFLAGS"

text \<open>What the instructions leave in the destination, and in the flags.\<close>

fun emu_result :: "OPCODE \<Rightarrow> u32 \<Rightarrow> u32 \<Rightarrow> u32" where
  "emu_result I_AND d v = d AND v"
| "emu_result I_TEST d v = d"
| "emu_result I_SUB d v = - v"
| "emu_result c d v = v"

fun emu_flags :: "OPCODE \<Rightarrow> u32 \<Rightarrow> u32 \<Rightarrow> u32 \<Rightarrow> u32" where
  "emu_flags I_SUB d v f = put_bit ZF (v = 0) (if d < v then put_bit CF True f else f)"
| "emu_flags I_ADD d v f = put_bit PF (even (card {k. bit v k})) (put_bit ZF (v = 0)
     (put_bit SF (sint v < 0) (put_bit OF False (put_bit CF False f))))"
| "emu_flags I_TEST d v f = put_bit PF (even (card {k. bit (d AND v) k})) (put_bit ZF (d AND v = 0)
     (put_bit SF (sint (d AND v) < 0) (put_bit OF False (put_bit CF False f))))"
| "emu_flags I_AND d v f = put_bit ZF (d AND v = 0) f"
| "emu_flags c d v f = put_bit ZF (v = 0) f"

lemma put_bit_commute: "j \<noteq> k \<Longrightarrow> put_bit j a (put_bit k b w) = put_bit k b (put_bit j a w)"
  by (rule bit_word_eqI) (auto simp: put_bit_def bit_set_bit_iff bit_unset_bit_iff)

lemma set_reg_simps [simp]:
  "reg_value x (set_reg r v s) = (if x = r then v else reg_value x s)"
  "em_operands (set_reg r v s) = em_operands s" "em_registers (set_reg r v s) = em_registers s"
  "em_buffer (set_reg r v s) = em_buffer s" "ker (set_reg r v s) = ker s"
  "em_immediate (set_reg r v s) = em_immediate s"
  by (simp_all add: set_reg_def)

lemmas step_defs = load_op_def store_op_def op_value_def op_store_def set_flag_def run_simps

lemma check_operands_regs: "reg_operands d r s \<Longrightarrow> \<not> is_shift c \<Longrightarrow> check_operands c s = Fin 0 s"
  by (simp add: check_operands_def reg_operands_def size_of_def run_simps)

lemma operand_numbers [simp]: "OPERAND_DST = 0" "OPERAND_SRC = 1" "OPERAND_BUF = 2"
  by (simp_all add: OPERAND_DST_def OPERAND_SRC_def OPERAND_BUF_def)

lemma xnor32_card: "BitwiseXNOR32 v = even (card {k. bit v k})"
proof -
  have "{k. k < 32 \<and> bit v k} = {k. bit v k}" by (auto dest: bit_imp_le_length)
  then show ?thesis by (simp add: BitwiseXNOR32_def fields_xor_card)
qed

text \<open>
  C16: the instructions on two registers. What each leaves in the destination and in the flags, with every
  other register and the kernel unchanged: \<open>MOV\<close>, \<open>AND\<close> and \<open>TEST\<close> compute what they are
  named after, but \<open>ADD\<close>, \<open>OR\<close> and \<open>XOR\<close> put the source into the destination and \<open>SUB\<close> its
  negation, because they combine the source with the empty buffer instead of the destination; \<open>ADD\<close>
  falls through to the flags of \<open>TEST\<close> and always clears the carry.
\<close>

theorem emu_instructions:
  assumes "reg_operands d r s" and "c \<in> {I_MOV, I_ADD, I_SUB, I_OR, I_AND, I_XOR, I_TEST}"
  shows "\<exists>t. execute c cnt s = Fin 0 t \<and>
    reg_value d t = emu_result c (reg_value d s) (reg_value r s) \<and>
    reg_value EFLAGS t = emu_flags c (reg_value d s) (reg_value r s) (reg_value EFLAGS s) \<and>
    (\<forall>x. x = d \<or> x = EFLAGS \<or> reg_value x t = reg_value x s) \<and> ker t = ker s"
proof -
  have chk: "check_operands c s = Fin 0 s"
    using assms by (intro check_operands_regs) (auto simp: is_shift_def)
  note o = assms(1) [unfolded reg_operands_def]
  have zp: "put_bit ZF a (put_bit PF b w) = put_bit PF b (put_bit ZF a w)" for a b w
    by (rule put_bit_commute) (simp add: ZF_def PF_def)
  show ?thesis
    using assms(2) chk o
    by (auto simp: zp execute_def guarded_op_def setEFLAGS_def test_flags_def commit_def step_defs
        xnor32_card sign_bit MSB_0)
qed

text \<open>A process of the emulator whose registers hold given values, before any option is read.\<close>

definition boot_emu :: "(reg \<Rightarrow> u32) \<Rightarrow> emu_os" where
  "boot_emu vals = os.extend boot_os
     \<lparr>em_regs = (\<lambda>r. \<lparr>r_id = (if r = EFLAGS then REG32_EFLAGS else REG32_GPR_EAX), r_dword = vals r\<rparr>),
      em_shmem = None, em_buffer = 0, em_target = 0, em_registers = (\<lambda>_. None),
      em_operands = (\<lambda>n. if n = 2 then Some Op_buf else None), em_immediate = 0, em_jump = False\<rparr>"

definition with_operands :: "reg \<Rightarrow> reg \<Rightarrow> 'z emu_os_scheme \<Rightarrow> 'z emu_os_scheme" where
  "with_operands d r s = s
     \<lparr>em_operands := (em_operands s)(0 \<mapsto> Op_reg d, 1 \<mapsto> Op_reg r),
      em_registers := (em_registers s)(0 \<mapsto> d, 1 \<mapsto> r)\<rparr>"

lemma with_operands_regs:
  "d \<noteq> EFLAGS \<Longrightarrow> r \<noteq> EFLAGS \<Longrightarrow> reg_operands d r (with_operands d r (boot_emu vals))"
  by (simp add: reg_operands_def with_operands_def boot_emu_def os.defs registers_size_def)

lemma boot_emu_value [simp]: "reg_value r (with_operands d x (boot_emu vals)) = vals r"
  by (simp add: with_operands_def boot_emu_def os.defs)

lemma emu_instructions_witness:
  "\<exists>t. execute I_ADD 1 (with_operands EAX EBX (boot_emu (\<lambda>r. if r = EAX then 5 else if r = EBX then 3 else 1))) = Fin 0 t \<and>
    reg_value EAX t = 3"
proof -
  let ?s = "with_operands EAX EBX (boot_emu (\<lambda>r. if r = EAX then 5 else if r = EBX then 3 else 1))"
  have "reg_operands EAX EBX ?s" by (rule with_operands_regs) simp_all
  from emu_instructions [OF this, of I_ADD 1] show ?thesis by auto
qed



section \<open>Jumps\<close>

text \<open>The flags that comparing \<open>a\<close> with \<open>b\<close> is documented to leave.\<close>

definition compared :: "u32 \<Rightarrow> u32 \<Rightarrow> u32 \<Rightarrow> bool" where
  "compared a b f \<longleftrightarrow> (bit f CF \<longleftrightarrow> a < b) \<and> (bit f ZF \<longleftrightarrow> a = b) \<and> (bit f SF \<longleftrightarrow> sint (a - b) < 0) \<and>
     (bit f OF \<longleftrightarrow> sint (a - b) \<noteq> sint a - sint b)"

text \<open>What the jumps after a comparison mean.\<close>

fun jump_means :: "OPCODE \<Rightarrow> u32 \<Rightarrow> u32 \<Rightarrow> bool option" where
  "jump_means I_JA a b = Some (a > b)" | "jump_means I_JNBE a b = Some (a > b)"
| "jump_means I_JAE a b = Some (a \<ge> b)" | "jump_means I_JNB a b = Some (a \<ge> b)"
| "jump_means I_JNC a b = Some (a \<ge> b)"
| "jump_means I_JB a b = Some (a < b)" | "jump_means I_JNAE a b = Some (a < b)"
| "jump_means I_JC a b = Some (a < b)"
| "jump_means I_JBE a b = Some (a \<le> b)" | "jump_means I_JNA a b = Some (a \<le> b)"
| "jump_means I_JE a b = Some (a = b)" | "jump_means I_JZ a b = Some (a = b)"
| "jump_means I_JNE a b = Some (a \<noteq> b)" | "jump_means I_JNZ a b = Some (a \<noteq> b)"
| "jump_means I_JG a b = Some (sint a > sint b)" | "jump_means I_JNLE a b = Some (sint a > sint b)"
| "jump_means I_JGE a b = Some (sint a \<ge> sint b)" | "jump_means I_JNL a b = Some (sint a \<ge> sint b)"
| "jump_means I_JL a b = Some (sint a < sint b)" | "jump_means I_JNGE a b = Some (sint a < sint b)"
| "jump_means I_JLE a b = Some (sint a \<le> sint b)" | "jump_means I_JNG a b = Some (sint a \<le> sint b)"
| "jump_means _ a b = None"

lemma sint_diff:
  obtains k where "sint (a - b :: u32) = sint a - sint b + k * 2 ^ 32" and "k \<in> {- 1, 0, 1}"
proof -
  have "\<exists>k. sint (a - b) = sint a - sint b + k * 2 ^ 32"
    unfolding sint_word_diff
    by (rule exI [of _ "- ((sint a - sint b + 2 ^ 31) div 2 ^ 32)"])
      (simp add: signed_take_bit_eq_take_bit_shift take_bit_eq_mod minus_div_mult_eq_mod [symmetric])
  then obtain k where k: "sint (a - b) = sint a - sint b + k * 2 ^ 32" ..
  have r: "- 2147483648 \<le> sint w" "sint w < 2147483648" for w :: u32
    using sint_ge [of w] sint_lt [of w] by simp_all
  have "sint (a - b) = sint a - sint b + k * 4294967296" using k by simp
  then have "- 2 < k" "k < 2" using r [of a] r [of b] r [of "a - b"] by linarith+
  then have "k \<in> {- 1, 0, 1}" by auto
  with k show thesis by (rule that)
qed

lemma signed_less: "(sint (a - b :: u32) < 0) \<noteq> (sint (a - b) \<noteq> sint a - sint b) \<longleftrightarrow> sint a < sint b"
proof -
  obtain k where "sint (a - b) = sint a - sint b + k * 2 ^ 32" "k \<in> {- 1, 0, 1}" by (rule sint_diff)
  moreover have "- (2 ^ 31) \<le> sint w \<and> sint w < 2 ^ 31" for w :: u32
    using sint_ge [of w] sint_lt [of w] by simp
  note this [of a] this [of b] this [of "a - b"]
  ultimately show ?thesis by auto
qed

text \<open>
  C18: the conditional jumps. After flags that a comparison of \<open>a\<close> with \<open>b\<close> leaves, each jump is
  taken exactly when the relation it is named after holds, above and below for unsigned numbers, greater and
  less for signed ones, and nothing but the jump variable and the printed line changes.
\<close>

theorem emu_jumps:
  assumes "compared a b (reg_value EFLAGS s)" and "jump_means c a b = Some taken"
  shows "execute c cnt s = Fin 0 (s\<lparr>em_jump := taken,
    out := out s @ [(if taken then ''Instruction will jump.'' else ''Instruction will not jump.'', [])]\<rparr>)"
proof -
  note f = assms(1) [unfolded compared_def]
  have less: "bit (reg_value EFLAGS s) SF = bit (reg_value EFLAGS s) OF \<longleftrightarrow> sint a \<ge> sint b"
    using f signed_less [of a b] by auto
  have jump: "jump_if j s = Fin 0 (s\<lparr>em_jump := j,
    out := out s @ [(if j then ''Instruction will jump.'' else ''Instruction will not jump.'', [])]\<rparr>)" for j
    by (simp add: jump_if_def printf_def run_simps)
  have inj: "a = b \<longleftrightarrow> sint a = sint b" by (simp add: word_eq_iff_signed)
  have rel: "b \<le> a \<and> a \<noteq> b \<longleftrightarrow> b < a" "a < b \<or> a = b \<longleftrightarrow> a \<le> b"
    by auto
  have srel: "a \<noteq> b \<and> sint b \<le> sint a \<longleftrightarrow> sint b < sint a" "a = b \<or> sint a < sint b \<longleftrightarrow> sint a \<le> sint b"
    unfolding inj by auto
  have nless: "bit (reg_value EFLAGS s) SF = (\<not> bit (reg_value EFLAGS s) OF) \<longleftrightarrow> sint a < sint b"
    using less by auto
  note cf = f [THEN conjunct1] and zf = f [THEN conjunct2, THEN conjunct1]
  have "\<exists>p. execute c cnt s = flag_jump p s \<and> p (reg_value EFLAGS s) = taken"
    using assms(2)
    by (cases c) (simp_all add: execute_def, (rule exI, rule conjI, rule refl, simp add: cf zf less nless rel srel not_less not_le)+)
  then show ?thesis by (auto simp: flag_jump_def run_simps jump)
qed

lemma emu_jumps_witness:
  "compared 2 1 0 \<and> execute I_JA 1 (boot_emu (\<lambda>_. 0)) =
     Fin 0 ((boot_emu (\<lambda>_. 0))\<lparr>em_jump := True, out := [(''Instruction will jump.'', [])]\<rparr>)"
proof -
  have c: "compared 2 1 0" by (simp add: compared_def)
  have "reg_value EFLAGS (boot_emu (\<lambda>_. 0)) = 0" "out (boot_emu (\<lambda>_. 0)) = []"
    by (simp_all add: boot_emu_def os.defs boot_os_def)
  with emu_jumps [of 2 1 "boot_emu (\<lambda>_. 0)" I_JA True 1] c show ?thesis by simp
qed

section \<open>Hexadecimal values\<close>

definition hex_text :: "bool \<Rightarrow> u8 list \<Rightarrow> string" where
  "hex_text upper ds = map (\<lambda>d. char_of (unat (hex_char upper d))) ds"

fun hex_number :: "nat \<Rightarrow> u8 list \<Rightarrow> nat" where
  "hex_number acc [] = acc"
| "hex_number acc (d # ds) = hex_number (16 * acc + unat d) ds"

lemma unat_byte: "unat (w :: u8) < 256"
proof -
  have "unat w < 2 ^ LENGTH(8)" by (rule unsigned_less)
  then show ?thesis by simp
qed

lemma digit_code: "d < 16 \<Longrightarrow> hctoc (of_nat (code_of (char_of (unat (hex_char upper d))))) = d"
  using hctoc_hex [of d upper] unat_byte [of "hex_char upper d"] by (simp add: code_of_def)

lemma append_digit:
  assumes "unat w < 2 ^ 28" and "d < (16 :: u8)"
  shows "unat (push_bit 4 (w :: u32) OR ucast d) = 16 * unat w + unat d"
proof -
  have d: "unat (ucast d :: u32) = unat d" using unat_byte [of d] by (simp add: unsigned_ucast_eq take_bit_nat_eq_self)
  have "\<not> bit d k" if "4 \<le> k" for k
  proof -
    have "take_bit 4 d = d"
      using assms(2) by (simp add: word_less_nat_alt word_unat_eq_iff unsigned_take_bit_eq take_bit_nat_eq_self)
    then show ?thesis using that by (metis bit_take_bit_iff not_le)
  qed
  then have "push_bit 4 w OR ucast d = push_bit 4 w + ucast d"
    by (intro disjunctive_add_eq_or [symmetric] bit_word_eqI) (auto simp: bit_simps not_le)
  also have "unat \<dots> = 16 * unat w + unat d"
    using assms d by (simp add: push_bit_eq_mult unat_word_ariths word_less_nat_alt)
  finally show ?thesis .
qed

lemma hex_loop_number:
  assumes "ds \<noteq> []" and "length ds \<le> 8" and "\<forall>d \<in> set ds. d < 16" and "unat w < 16 ^ (8 - length ds)"
  shows "unat (hex_loop (push_bit 4 w) (hex_text upper ds)) = hex_number (unat w) ds"
  using assms
proof (induction ds arbitrary: w)
  case (Cons d ds)
  have "16 ^ (8 - length (d # ds)) \<le> (16 :: nat) ^ 7" by (rule power_increasing) simp_all
  with Cons.prems have "unat w < 2 ^ 28" by simp
  with Cons.prems have v: "unat (push_bit 4 w OR ucast d) = 16 * unat w + unat d"
    by (intro append_digit) simp_all
  have "16 ^ (8 - length ds) = 16 * (16 :: nat) ^ (8 - length (d # ds))"
    using Cons.prems(2) by (simp add: power_Suc [symmetric] Suc_diff_le [symmetric])
  then have b: "16 * unat w + unat d < 16 ^ (8 - length ds)"
    using Cons.prems by (simp add: word_less_nat_alt)
  show ?case
  proof (cases "ds = []")
    case True
    with Cons.prems v show ?thesis by (simp add: hex_text_def digit_code)
  next
    case False
    with Cons.IH [of "push_bit 4 w OR ucast d"] Cons.prems b v show ?thesis
      by (simp add: hex_text_def digit_code)
  qed
qed simp

text \<open>
  a value in hexadecimal. The digit loop of option \<open>-v\<close> reads back, for up to eight digits in
  upper or lower case, the number they denote.
\<close>

theorem hex_value:
  assumes "ds \<noteq> []" and "length ds \<le> 8" and "\<forall>d \<in> set ds. d < 16"
  shows "unat (hex_loop 0 (hex_text upper ds)) = hex_number 0 ds"
  using hex_loop_number [OF assms, of 0] by simp

lemma hex_value_witness: "hex_loop 0 ''1f'' = 31"
proof -
  have "unat (hex_loop 0 (hex_text False [1, 15])) = 31"
    using hex_value [of "[1, 15]" False] by simp
  moreover have "hex_text False [1, 15] = ''1f''" by code_simp
  ultimately show ?thesis by (simp add: word_unat_eq_iff)
qed

section \<open>The emulator and the kernel\<close>

lemma wf_os_emu_upd [simp]:
  "wf_os (s\<lparr>em_regs := a\<rparr>) = wf_os s" "wf_os (s\<lparr>em_shmem := b\<rparr>) = wf_os s"
  "wf_os (s\<lparr>em_buffer := c\<rparr>) = wf_os s" "wf_os (s\<lparr>em_target := d\<rparr>) = wf_os s"
  "wf_os (s\<lparr>em_registers := e\<rparr>) = wf_os s" "wf_os (s\<lparr>em_operands := f\<rparr>) = wf_os s"
  "wf_os (s\<lparr>em_immediate := g\<rparr>) = wf_os s" "wf_os (s\<lparr>em_jump := h\<rparr>) = wf_os s"
  "wf_os (set_reg r v s) = wf_os s" "wf_os (set_id r i s) = wf_os s" "wf_os (fix_eflags s) = wf_os s"
  "wf_os (op_store p v s) = wf_os s"
  by (simp_all add: wf_os_def set_reg_def set_id_def fix_eflags_def op_store_def split: operand.split)

lemma keeps_run_all [keeps]: "(\<And>x. keeps (f x) I) \<Longrightarrow> keeps (run_all f xs) I"
  by (induction xs) (auto intro: keeps)

lemma keeps_load_register [keeps]: "keeps (load_register shm p) wf_os"
  unfolding load_register_def split_def by (intro keeps keeps_modify) simp

lemma keeps_save_register [keeps]: "keeps (save_register shm p) wf_os"
  unfolding save_register_def split_def by (intro keeps)

lemma keeps_registers_init [keeps]: "keeps registers_init wf_os"
  unfolding registers_init_def by (intro keeps keeps_modify) simp_all

lemma keeps_registers_delete [keeps]: "keeps registers_delete wf_os"
  unfolding registers_delete_def by (intro keeps keeps_modify) simp

lemma keeps_registers_register [keeps]: "keeps (registers_register i) wf_os"
  by (rule keepsI) (simp add: registers_register_def split: option.split)

lemma keeps_by_name [keeps]: "keeps (registers_register_by_name n) wf_os"
  unfolding registers_register_by_name_def by (intro keeps)

lemma keeps_op [keeps]: "keeps (load_op n) wf_os" "keeps (store_op n v) wf_os"
  "keeps (size_of n) wf_os" "keeps (set_flag k b) wf_os"
  by (auto intro!: keepsI simp: load_op_def store_op_def size_of_def set_flag_def run_simps split: option.split)

lemma keeps_setEFLAGS [keeps]: "keeps (setEFLAGS c) wf_os"
  unfolding setEFLAGS_def test_flags_def by (intro keeps)

lemma keeps_commit [keeps]: "keeps commit wf_os"
  unfolding commit_def by (intro keeps)

lemma keeps_guarded [keeps]: "keeps m wf_os \<Longrightarrow> keeps (guarded_op c m) wf_os"
  unfolding guarded_op_def check_operands_def by (intro keeps)

lemma keeps_jump [keeps]: "keeps (flag_jump c) wf_os" "keeps (jump_if j) wf_os"
  unfolding flag_jump_def jump_if_def by (intro keeps keeps_modify; simp)+

lemma keeps_execute [keeps]: "keeps (execute c n) wf_os"
  unfolding execute_def Let_def split_def by (cases c) (simp_all, (intro keeps keeps_modify; simp)+)

lemma keeps_registers_print [keeps]: "keeps (registers_print i) wf_os"
  unfolding registers_print_def printGPR_def Let_def by (intro keeps)

lemma keeps_read_value [keeps]: "keeps (read_value p x e) wf_os"
  unfolding read_value_def Let_def split_def by (intro keeps)

lemma keeps_emu_option [keeps]: "keeps (emu_option q a) wf_os"
  by (cases q) (simp only: emu_option.simps Let_def split_def, intro keeps keeps_modify, simp_all)

lemma keeps_emu_options [keeps]: "keeps (emu_options qs a) wf_os"
  by (induction qs arbitrary: a) (auto intro: keeps)

lemma keeps_emu_usage [keeps]: "keeps emu_usage wf_os"
  unfolding emu_usage_def by (rule keeps_modify) simp

text \<open>
  the emulator and the kernel. Whatever the command line, other processes and failing calls, a
  run keeps the kernel's tables well-formed, and if it finishes its exit code is 0, also after an error.
\<close>

theorem emu_main_wf:
  assumes "wf_os s"
  shows "wf_os (final (emu_main argv s)) \<and> (\<forall>e t. emu_main argv s = Fin e t \<longrightarrow> e = 0)"
proof
  have "keeps (emu_main argv) wf_os"
    unfolding emu_main_def Let_def split_def by (intro keeps)
  with assms show "wf_os (final (emu_main argv s))" by (auto dest: keepsD simp: every_def)
  show "\<forall>e t. emu_main argv s = Fin e t \<longrightarrow> e = 0"
    by (auto simp: emu_main_def run_simps Let_def split_def split: run.splits)
qed

lemma emu_main_wf_witness: "wf_os (final (emu_main [''ADD''] (boot_emu (\<lambda>_. 0))))"
  using emu_main_wf [of "boot_emu (\<lambda>_. 0)"] wf_boot by (simp add: boot_emu_def os.defs wf_os_def boot_os_def)

section \<open>Instruction names\<close>

lemma IS_name: "IS x n \<longleftrightarrow> x = n"
  by (simp add: IS_def strncmp_eq_whole)

lemma find_name: "find (\<lambda>(n, c). IS x n) xs = map_option (\<lambda>c. (x, c)) (map_of xs x)"
  by (induction xs) (auto simp: IS_name)

lemma instruction_codes: "distinct (map fst instructions)" "set (map snd instructions) = - {I_CMP}"
proof -
  show "distinct (map fst instructions)" by (simp add: instructions_def)
  have "c \<in> set (map snd instructions) \<longleftrightarrow> c \<noteq> I_CMP" for c
    by (cases c) (simp_all add: instructions_def)
  then show "set (map snd instructions) = - {I_CMP}" by auto
qed

text \<open>
  instruction names. A name is accepted exactly when it is in the table, complete and in upper
  case, and selects the opcode beside it; every opcode but \<open>CMP\<close>, which \<open>main\<close> implements, has a
  name.
\<close>

theorem set_instruction_exact:
  shows "set_instruction x = (case map_of instructions x of Some c \<Rightarrow> (c, EXIT_SUCCESS) | None \<Rightarrow> (I_SAL, EXIT_FAILURE)) \<and>
    (\<exists>y. set_instruction y = (c, EXIT_SUCCESS)) = (c \<noteq> I_CMP)"
proof
  have ex: "set_instruction x = (case map_of instructions x of Some c \<Rightarrow> (c, EXIT_SUCCESS) | None \<Rightarrow> (I_SAL, EXIT_FAILURE))" for x
    by (simp add: set_instruction_def find_name split: option.split)
  then show "set_instruction x = (case map_of instructions x of Some c \<Rightarrow> (c, EXIT_SUCCESS) | None \<Rightarrow> (I_SAL, EXIT_FAILURE))" .
  have "set_instruction y = (c, EXIT_SUCCESS) \<longleftrightarrow> map_of instructions y = Some c" for y
    by (simp add: ex split: option.split)
  then have "(\<exists>y. set_instruction y = (c, EXIT_SUCCESS)) \<longleftrightarrow> (\<exists>y. (y, c) \<in> set instructions)"
    using map_of_eq_Some_iff [OF instruction_codes(1)] by metis
  also have "\<dots> \<longleftrightarrow> c \<in> set (map snd instructions)" by force
  finally show "(\<exists>y. set_instruction y = (c, EXIT_SUCCESS)) = (c \<noteq> I_CMP)"
    using instruction_codes(2) by simp
qed

end
