(* ===== verification/Processes.thy ===== *)
theory Processes
  imports Xsi_Kernel
begin

text \<open>
  Processes and signals, as the program uses them: \<open>fork\<close>, \<open>execvp\<close>, \<open>kill\<close>,
  \<open>sigaction\<close>, \<open>waitpid\<close> and a \<open>sleep\<close> that a signal may end. The model follows one
  process: what \<open>fork\<close> answers is data, so the path of the parent and the path of the child
  are two runs. The signals that reach the process do so while it waits or sleeps.
\<close>

section \<open>State\<close>

datatype signal = SIGHUP | SIGINT | SIGUSR1 | SIGUSR2 | SIGALRM | SIGTERM | SIGCHLD

datatype fork_answer = Parent_of nat | Child nat | No_process errno

text \<open>How a waited-for process changed (the \<open>status\<close> of \<open>waitpid\<close>).\<close>

datatype wait_status = W_exited int | W_signaled int | W_stopped int | W_continued | W_other int

text \<open>What happens to a process that waits: a child changes, the call fails, or a signal comes.\<close>

datatype wait_event = Status wait_status | Wait_fails | Signalled signal

text \<open>
  The answers of \<open>fork\<close>, what happens in the next waits and in the next sleeps, which
  targets a signal can be sent to, the signals sent, whether signals are blocked, whether
  \<open>setjmp\<close> restores the signal mask on this system (the standard leaves it open), which
  signals are ignored, the open file descriptors and their limit (none when infinite), and why
  the command cannot be executed, if it cannot.
\<close>

record proc_os = os +
  pr_forks :: "fork_answer list"
  pr_waits :: "wait_event list"
  pr_naps :: "signal option list"
  pr_target :: "int \<Rightarrow> bool"
  pr_sent :: "(int \<times> signal) list"
  pr_blocked :: bool
  pr_jump_unblocks :: bool
  pr_ignored :: "signal list"
  pr_fds :: "nat \<Rightarrow> bool"
  pr_fd_limit :: "nat option"
  pr_exec :: "errno option"

section \<open>Calls\<close>

text \<open>A new process shares the attachments of its parent.\<close>

definition attach_again :: "int \<Rightarrow> ipc \<Rightarrow> ipc" where
  "attach_again i k = (case segs k i of None \<Rightarrow> k
     | Some sg \<Rightarrow> k\<lparr>segs := (segs k)(i \<mapsto> sg\<lparr>sg_nattch := Suc (sg_nattch sg)\<rparr>)\<rparr>)"

primrec attach_upto :: "nat \<Rightarrow> (nat \<Rightarrow> int option) \<Rightarrow> ipc \<Rightarrow> ipc" where
  "attach_upto 0 att k = k"
| "attach_upto (Suc n) att k = attach_upto n att (case att n of None \<Rightarrow> k | Some i \<Rightarrow> attach_again i k)"

definition shared :: "'z proc_os_scheme \<Rightarrow> 'z proc_os_scheme" where
  "shared s = s\<lparr>ker := attach_upto (next_addr s) (attached s) (ker s)\<rparr>"

definition fork :: "'z proc_os_scheme \<Rightarrow> ('z proc_os_scheme, int) run" where
  "fork s = (case pr_forks s of
     [] \<Rightarrow> fails EAGAIN (- 1) s
   | No_process e # fs \<Rightarrow> fails e (- 1) (s\<lparr>pr_forks := fs\<rparr>)
   | Parent_of p # fs \<Rightarrow> Fin (int p) ((shared s)\<lparr>pr_forks := fs\<rparr>)
   | Child p # fs \<Rightarrow> Fin 0 ((shared s)\<lparr>pr_forks := fs, pid_self := p\<rparr>))"

text \<open>
  \<open>kill\<close>: a target above zero is a process, 0 the caller's own group, -1 every process. Signal
  0, here no signal, only asks whether the target can be signalled.
\<close>

definition kill :: "int \<Rightarrow> signal option \<Rightarrow> 'z proc_os_scheme \<Rightarrow> ('z proc_os_scheme, int) run" where
  "kill pid sg = syscall (- 1) (\<lambda>s.
     if pid \<noteq> 0 \<and> \<not> pr_target s pid then fails ESRCH (- 1) s
     else Fin 0 (case sg of None \<Rightarrow> s | Some g \<Rightarrow> s\<lparr>pr_sent := pr_sent s @ [(pid, g)]\<rparr>))"

definition execvp :: "'z proc_os_scheme \<Rightarrow> ('z proc_os_scheme, int) run" where
  "execvp = syscall (- 1) (\<lambda>s. case pr_exec s of None \<Rightarrow> Stop Replaced s | Some e \<Rightarrow> fails e (- 1) s)"

text \<open>\<open>sigaction\<close> with a handler makes the signal count again; with \<open>SIG_IGN\<close> it is dropped.\<close>

definition sigaction_handle :: "signal \<Rightarrow> 'z proc_os_scheme \<Rightarrow> ('z proc_os_scheme, int) run" where
  "sigaction_handle g = syscall (- 1) (\<lambda>s. Fin 0 (s\<lparr>pr_ignored := removeAll g (pr_ignored s)\<rparr>))"

definition sigaction_ignore :: "signal \<Rightarrow> 'z proc_os_scheme \<Rightarrow> 'z proc_os_scheme" where
  "sigaction_ignore g s = s\<lparr>pr_ignored := g # pr_ignored s\<rparr>"

definition delivered :: "signal \<Rightarrow> 'z proc_os_scheme \<Rightarrow> bool" where
  "delivered g s \<longleftrightarrow> \<not> pr_blocked s \<and> g \<notin> set (pr_ignored s)"

text \<open>
  Waiting for a child and sleeping, with the handler to run when a signal is delivered; others act, and time passes,
  meanwhile. A
  signal that is blocked or ignored does not end the wait. When \<open>waitpid\<close> fails its
  \<open>status\<close> stays indeterminate.
\<close>

primrec waitpid_events :: "wait_event list \<Rightarrow> (signal \<Rightarrow> 'z proc_os_scheme \<Rightarrow> 'z proc_os_scheme) \<Rightarrow>
    'z proc_os_scheme \<Rightarrow> ('z proc_os_scheme, signal + wait_status option) run" where
  "waitpid_events [] h s = Stop Hangs s"
| "waitpid_events (ev # evs) h s =
     (let t = s\<lparr>pr_waits := evs\<rparr> in
      case ev of
        Status st \<Rightarrow> Fin (Inr (Some st)) t
      | Wait_fails \<Rightarrow> fails ECHILD (Inr None) t
      | Signalled g \<Rightarrow> if delivered g t then Fin (Inl g) (h g t) else waitpid_events evs h t)"

definition waitpid :: "(signal \<Rightarrow> 'z proc_os_scheme \<Rightarrow> 'z proc_os_scheme) \<Rightarrow>
    'z proc_os_scheme \<Rightarrow> ('z proc_os_scheme, signal + wait_status option) run" where
  "waitpid h s = waitpid_events (pr_waits s) h (snd (interact s))"

definition nap :: "nat \<Rightarrow> (signal \<Rightarrow> 'z proc_os_scheme \<Rightarrow> 'z proc_os_scheme) \<Rightarrow>
    'z proc_os_scheme \<Rightarrow> ('z proc_os_scheme, signal option) run" where
  "nap n h s = (case pr_naps s of
     [] \<Rightarrow> bindr (sleep n) (\<lambda>_. retr None) s
   | p # ps \<Rightarrow>
       (let t = s\<lparr>pr_naps := ps\<rparr> in
        case p of
          None \<Rightarrow> bindr (sleep n) (\<lambda>_. retr None) t
        | Some g \<Rightarrow> if delivered g t then Fin (Some g) (h g t) else bindr (sleep n) (\<lambda>_. retr None) t))"

definition getrlimit_nofile :: "'z proc_os_scheme \<Rightarrow> ('z proc_os_scheme, int \<times> nat option) run" where
  "getrlimit_nofile = syscall (- 1, None) (\<lambda>s. Fin (0, pr_fd_limit s) s)"

definition close_below :: "nat \<Rightarrow> 'z proc_os_scheme \<Rightarrow> 'z proc_os_scheme" where
  "close_below m s = s\<lparr>pr_fds := (\<lambda>i. m \<le> i \<and> pr_fds s i)\<rparr>"

section \<open>The kernel stays well-formed\<close>

lemma wf_os_proc_upd [simp]:
  "wf_os (s\<lparr>pr_forks := a\<rparr>) = wf_os s" "wf_os (s\<lparr>pr_waits := b\<rparr>) = wf_os s"
  "wf_os (s\<lparr>pr_naps := c\<rparr>) = wf_os s" "wf_os (s\<lparr>pr_sent := d\<rparr>) = wf_os s"
  "wf_os (s\<lparr>pr_blocked := e\<rparr>) = wf_os s" "wf_os (s\<lparr>pr_ignored := f\<rparr>) = wf_os s"
  "wf_os (s\<lparr>pr_fds := g\<rparr>) = wf_os s" "wf_os (s\<lparr>pid_self := p\<rparr>) = wf_os s"
  "wf_os (sigaction_ignore sg s) = wf_os s" "wf_os (close_below m s) = wf_os s"
  by (simp_all add: wf_os_def sigaction_ignore_def close_below_def)

lemma wf_ipc_attach: "wf_ipc k \<Longrightarrow> wf_ipc (attach_again i k)"
  by (auto simp: attach_again_def intro: wf_ipc_seg_update split: option.split)

lemma wf_ipc_attach_upto: "wf_ipc k \<Longrightarrow> wf_ipc (attach_upto n att k)"
proof (induction n arbitrary: k)
  case (Suc n)
  then show ?case by (auto split: option.split intro: Suc.IH wf_ipc_attach)
qed simp

lemma wf_os_shared: "wf_os s \<Longrightarrow> wf_os (shared s)"
  by (simp add: shared_def wf_os_def wf_ipc_attach_upto)

lemma keeps_fork [keeps]: "keeps fork wf_os"
  by (rule keepsI) (auto simp: fork_def fails_def wf_os_shared split: list.split fork_answer.split)

lemma keeps_kill [keeps]: "keeps (kill p g) wf_os"
  unfolding kill_def by (intro keeps keepsI) (simp add: fails_def split: option.split)

lemma keeps_execvp [keeps]: "keeps execvp wf_os"
  unfolding execvp_def by (intro keeps keepsI) (simp add: fails_def split: option.split)

lemma keeps_sigaction [keeps]: "keeps (sigaction_handle g) wf_os"
  unfolding sigaction_handle_def by (intro keeps keepsI) simp

lemma keeps_getrlimit [keeps]: "keeps getrlimit_nofile wf_os"
  unfolding getrlimit_nofile_def by (intro keeps keepsI) simp

lemma waitpid_events_wf: "(\<And>g t. wf_os t \<Longrightarrow> wf_os (h g t)) \<Longrightarrow> wf_os s \<Longrightarrow> every (waitpid_events evs h s) wf_os"
  by (induction evs arbitrary: s) (auto simp: Let_def fails_def split: wait_event.split)

lemma keeps_waitpid: "(\<And>g t. wf_os t \<Longrightarrow> wf_os (h g t)) \<Longrightarrow> keeps (waitpid h) wf_os"
  by (rule keepsI) (simp add: waitpid_def waitpid_events_wf wf_os_interact)

lemma keeps_nap:
  fixes h :: "signal \<Rightarrow> 'z proc_os_scheme \<Rightarrow> 'z proc_os_scheme"
  assumes "\<And>g t. wf_os t \<Longrightarrow> wf_os (h g t)"
  shows "keeps (nap n h) wf_os"
proof (rule keepsI)
  fix s :: "'z proc_os_scheme" assume s: "wf_os s"
  have "every (bindr (sleep n) (\<lambda>_. retr (None :: signal option)) t) wf_os" if "wf_os t" for t :: "'z proc_os_scheme"
    by (rule keepsD [where I = wf_os], intro keeps, rule that)
  with s assms show "every (nap n h s) wf_os"
    by (simp add: nap_def Let_def split: list.split option.split)
qed

end
