(* ===== verification/Daemonize.thy ===== *)
theory Daemonize
  imports SharedMemory C_Library Processes
begin

text \<open>
  The command \<open>daemonize\<close> of \<open>src/src/daemonize.h\<close> and \<open>src/src/daemonize.c\<close>: it runs
  a program as a daemon and starts it again when it fails, with its records (whether it is
  active, the ids of the daemon and of its child, how often it was started) in a segment of
  shared memory under the channel's key. What goes to \<open>syslog\<close> and \<open>stderr\<close> is left out,
  but for the accesses to the segment that its arguments make.
\<close>

section \<open>State\<close>

text \<open>The local variables of \<open>daemonize\<close> that live across its loop.\<close>

record dm_os = proc_os +
  dm_timer :: nat
  dm_failure :: int
  dm_exec :: int

definition OFFSET_ACTIVE :: u16 where "OFFSET_ACTIVE = 0"
definition OFFSET_PID :: u16 where "OFFSET_PID = 1"
definition OFFSET_CPID :: u16 where "OFFSET_CPID = 2"
definition OFFSET_COUNT :: u16 where "OFFSET_COUNT = 3"
definition SHMEM_SIZE :: nat where "SHMEM_SIZE = 4 * 4"

lemmas offsets = OFFSET_ACTIVE_def OFFSET_PID_def OFFSET_CPID_def OFFSET_COUNT_def

text \<open>
  The functions take a pointer to the shared memory object; a null pointer, or one that dangles
  after the object was freed, is not noticed except where the code compares it with \<open>NULL\<close>.
\<close>

type_synonym shmem = "SharedMemory pointer"

definition deref_shm :: "shmem \<Rightarrow> (SharedMemory \<Rightarrow> 'z os_scheme \<Rightarrow> ('z os_scheme, 'a) run) \<Rightarrow>
    'z os_scheme \<Rightarrow> ('z os_scheme, 'a) run" where
  "deref_shm p f = (case p of Obj shm \<Rightarrow> f shm | _ \<Rightarrow> stop Undefined)"

definition activate :: "shmem \<Rightarrow> 'z os_scheme \<Rightarrow> ('z os_scheme, unit) run" where
  "activate shmem = deref_shm shmem (\<lambda>shm. SharedMemory_write_uint shm OFFSET_ACTIVE 1)"

definition deactivate :: "shmem \<Rightarrow> 'z os_scheme \<Rightarrow> ('z os_scheme, unit) run" where
  "deactivate shmem = deref_shm shmem (\<lambda>shm. SharedMemory_write_uint shm OFFSET_ACTIVE 0)"

definition active :: "shmem \<Rightarrow> 'z os_scheme \<Rightarrow> ('z os_scheme, bool) run" where
  "active shmem = deref_shm shmem (\<lambda>shm. bindr (SharedMemory_read_uint shm OFFSET_ACTIVE) (\<lambda>v. retr (v \<noteq> 0)))"

definition set_pid :: "shmem \<Rightarrow> int \<Rightarrow> 'z os_scheme \<Rightarrow> ('z os_scheme, unit) run" where
  "set_pid shmem pid = deref_shm shmem (\<lambda>shm. SharedMemory_write_uint shm OFFSET_PID (word_of_int pid))"

definition get_pid :: "shmem \<Rightarrow> 'z os_scheme \<Rightarrow> ('z os_scheme, int) run" where
  "get_pid shmem = (if shmem = Null then retr 0
     else deref_shm shmem (\<lambda>shm. bindr (SharedMemory_read_uint shm OFFSET_PID) (\<lambda>v. retr (sint v))))"

definition set_cpid :: "shmem \<Rightarrow> int \<Rightarrow> 'z os_scheme \<Rightarrow> ('z os_scheme, unit) run" where
  "set_cpid shmem cpid = deref_shm shmem (\<lambda>shm. SharedMemory_write_uint shm OFFSET_CPID (word_of_int cpid))"

definition get_cpid :: "shmem \<Rightarrow> 'z os_scheme \<Rightarrow> ('z os_scheme, int) run" where
  "get_cpid shmem = (if shmem = Null then retr 0
     else deref_shm shmem (\<lambda>shm. bindr (SharedMemory_read_uint shm OFFSET_CPID) (\<lambda>v. retr (sint v))))"

definition get_count :: "shmem \<Rightarrow> 'z os_scheme \<Rightarrow> ('z os_scheme, int) run" where
  "get_count shmem = (if shmem = Null then retr 0
     else deref_shm shmem (\<lambda>shm. bindr (SharedMemory_read_uint shm OFFSET_COUNT) (\<lambda>v. retr (sint v))))"

text \<open>The sum is an \<open>int\<close>, whose overflow is undefined.\<close>

definition inc_count :: "shmem \<Rightarrow> 'z os_scheme \<Rightarrow> ('z os_scheme, unit) run" where
  "inc_count shmem =
     bindr (get_count shmem) (\<lambda>c.
     if c = 2 ^ 31 - 1 then stop Undefined
     else deref_shm shmem (\<lambda>shm. SharedMemory_write_uint shm OFFSET_COUNT (word_of_int (c + 1))))"

section \<open>Ending\<close>

definition shm_delete :: "shmem \<Rightarrow> bool \<Rightarrow> 'z os_scheme \<Rightarrow> ('z os_scheme, unit) run" where
  "shm_delete shmem b = deref_shm shmem (\<lambda>shm. SharedMemory_delete shm b)"

text \<open>\<open>cleanup\<close> frees the object of its caller, whose pointer dangles from then on.\<close>

definition cleanup :: "shmem \<Rightarrow> 'z os_scheme \<Rightarrow> ('z os_scheme, unit) run" where
  "cleanup shmem =
     bindr (set_pid shmem 0) (\<lambda>_.
     bindr (set_cpid shmem 0) (\<lambda>_.
     shm_delete shmem True))"

definition die :: "shmem \<Rightarrow> 'z os_scheme \<Rightarrow> ('z os_scheme, 'a) run" where
  "die shmem =
     bindr (set_pid shmem 0) (\<lambda>_.
     bindr (set_cpid shmem 0) (\<lambda>_.
     bindr (if shmem \<noteq> Null then bindr (deactivate shmem) (\<lambda>_. shm_delete shmem True) else retr ()) (\<lambda>_.
     stop (Exited EXIT_FAILURE))))"

text \<open>The handler ignores its signal from now on and jumps; it never returns to its caller.\<close>

definition handler :: "signal \<Rightarrow> 'z dm_os_scheme \<Rightarrow> 'z dm_os_scheme" where
  "handler g s = (sigaction_ignore g s)\<lparr>pr_blocked := \<not> pr_jump_unblocks s\<rparr>"

section \<open>The daemon\<close>

definition close_file_descriptors :: "'z proc_os_scheme \<Rightarrow> ('z proc_os_scheme, unit) run" where
  "close_file_descriptors =
     bindr getrlimit_nofile (\<lambda>(r, lim).
     if r < 0 then die Null
     else let m = (case lim of None \<Rightarrow> 1024 | Some m \<Rightarrow> m) in
       if 2 ^ 31 \<le> m then stop Undefined else modify (close_below m))"

text \<open>
  The loop over the status ends at once when the child has ended and never otherwise, since the
  status does not change in it. The status after a failed \<open>waitpid\<close> is indeterminate. The
  result is the signal that ended the wait, if one did; \<open>exec_time\<close> was set since
  \<open>setjmp\<close>, so after the jump it is indeterminate.
\<close>

definition wait_for_signal :: "int \<Rightarrow> 'z dm_os_scheme \<Rightarrow> ('z dm_os_scheme, signal option) run" where
  "wait_for_signal cpid =
     bindr (waitpid (\<lambda>g s. (handler g s)\<lparr>dm_exec := int (junk s)\<rparr>)) (\<lambda>r.
     case r of
       Inl g \<Rightarrow> retr (Some g)
     | Inr None \<Rightarrow> stop Undefined
     | Inr (Some status) \<Rightarrow>
         (case status of
            W_exited _ \<Rightarrow> retr None
          | W_signaled _ \<Rightarrow> retr None
          | W_stopped _ \<Rightarrow> stop Hangs
          | W_continued \<Rightarrow> stop Hangs
          | W_other _ \<Rightarrow> stop Hangs))"

definition handled_signals :: "signal list" where
  "handled_signals = [SIGTERM, SIGUSR1, SIGUSR2, SIGINT, SIGHUP, SIGCHLD, SIGALRM]"

primrec install_handlers :: "shmem \<Rightarrow> signal list \<Rightarrow> 'z proc_os_scheme \<Rightarrow> ('z proc_os_scheme, unit) run" where
  "install_handlers shmem [] = retr ()"
| "install_handlers shmem (g # gs) =
     bindr (sigaction_handle g) (\<lambda>r. if r \<noteq> 0 then die shmem else install_handlers shmem gs)"

text \<open>
  The number of seconds \<open>exp(timer) - 1\<close>, cut to \<open>unsigned int\<close>; from 23 on it does not fit,
  and the conversion is undefined.
\<close>

definition exp_seconds :: "nat list" where
  "exp_seconds = [0, 1, 6, 19, 53, 147, 402, 1095, 2979, 8102, 22025, 59873, 162753, 442412, 1202603,
     3269016, 8886109, 24154951, 65659968, 178482299, 485165194, 1318815733, 3584912845]"

text \<open>How a turn of the loop ends: by a jump to its start, or at its condition with the pointer it leaves.\<close>

datatype turn = Jumped signal | Ended shmem

text \<open>The branch for a normal start: the signal that came while the daemon waited, if any.\<close>

definition run_command :: "shmem \<Rightarrow> 'z dm_os_scheme \<Rightarrow> ('z dm_os_scheme, signal option) run" where
  "run_command shmem =
     bindr (modify (\<lambda>s. if dm_failure s - dm_exec s > 5 then s\<lparr>dm_timer := 0\<rparr> else s)) (\<lambda>_.
     bindr (install_handlers shmem handled_signals) (\<lambda>_.
     bindr time_now (\<lambda>now.
     bindr (modify (\<lambda>s. s\<lparr>dm_exec := now\<rparr>)) (\<lambda>_.
     bindr fork (\<lambda>cpid.
     if cpid = 0 then
       bindr (inc_count shmem) (\<lambda>_.
       bindr (get_count shmem) (\<lambda>_.
       bindr execvp (\<lambda>_. die shmem)))
     else
       bindr (set_cpid shmem cpid) (\<lambda>_.
       bindr (activate shmem) (\<lambda>_.
       bindr (wait_for_signal cpid) (\<lambda>j.
       case j of
         Some g \<Rightarrow> retr (Some g)
       | None \<Rightarrow> bindr time_now (\<lambda>now. bindr (modify (\<lambda>s. s\<lparr>dm_failure := now\<rparr>)) (\<lambda>_. retr None))))))))))"

text \<open>The branches for a signal.\<close>

definition on_signal :: "shmem \<Rightarrow> signal \<Rightarrow> 'z dm_os_scheme \<Rightarrow> ('z dm_os_scheme, unit) run" where
  "on_signal shmem g =
     (if g = SIGUSR1 then
        bindr (get_cpid shmem) (\<lambda>cpid. bindr (kill cpid (Some g)) (\<lambda>_. die shmem))
      else if g = SIGUSR2 then die shmem
      else bindr (get_cpid shmem) (\<lambda>cpid. bindr (kill cpid (Some g)) (\<lambda>_. retr ())))"

text \<open>
  The end of a turn: remove everything when the daemon is not active, or sleep, longer every time.
  After a jump out of the sleep \<open>timer\<close>, changed since \<open>setjmp\<close>, is indeterminate.
\<close>

definition end_of_turn :: "shmem \<Rightarrow> 'z dm_os_scheme \<Rightarrow> ('z dm_os_scheme, turn) run" where
  "end_of_turn shmem =
     bindr (active shmem) (\<lambda>_.
     bindr (active shmem) (\<lambda>a.
     if \<not> a then bindr (cleanup shmem) (\<lambda>_. retr (Ended Wild))
     else
       bindr (gets dm_timer) (\<lambda>t.
       bindr (modify (\<lambda>s. s\<lparr>dm_timer := Suc t\<rparr>)) (\<lambda>_.
       if length exp_seconds \<le> t then stop Undefined
       else
         bindr (nap (exp_seconds ! t) (\<lambda>g s. (handler g s)\<lparr>dm_timer := junk s\<rparr>)) (\<lambda>j.
         retr (case j of Some g \<Rightarrow> Jumped g | None \<Rightarrow> Ended shmem))))))"

definition daemon_turn :: "shmem \<Rightarrow> signal option \<Rightarrow> 'z dm_os_scheme \<Rightarrow> ('z dm_os_scheme, turn) run" where
  "daemon_turn shmem sig_rcvd =
     bindr (case sig_rcvd of None \<Rightarrow> run_command shmem
            | Some g \<Rightarrow> bindr (on_signal shmem g) (\<lambda>_. retr None)) (\<lambda>j.
     case j of Some g \<Rightarrow> retr (Jumped g) | None \<Rightarrow> end_of_turn shmem)"

text \<open>
  The loop; the number bounds its turns (every two turns take an event of a wait or of a sleep, so
  the number below is never used up).
\<close>

primrec daemon_loop :: "nat \<Rightarrow> shmem \<Rightarrow> signal option \<Rightarrow> 'z dm_os_scheme \<Rightarrow> ('z dm_os_scheme, unit) run" where
  "daemon_loop 0 shmem sig_rcvd = stop Hangs"
| "daemon_loop (Suc n) shmem sig_rcvd =
     bindr (daemon_turn shmem sig_rcvd) (\<lambda>r.
     case r of
       Jumped g \<Rightarrow> daemon_loop n shmem (Some g)
     | Ended shmem' \<Rightarrow> bindr (active shmem') (\<lambda>a. if a then daemon_loop n shmem' None else retr ()))"

definition turns :: "'z proc_os_scheme \<Rightarrow> nat" where
  "turns s = Suc (2 * (length (pr_waits s) + length (pr_naps s)))"

text \<open>
  \<open>daemonize\<close>: a failed \<open>fork\<close> is reported, and the caller goes on as if it were the child.
  \<open>umask\<close>, \<open>setsid\<close>, \<open>chdir\<close> and \<open>openlog\<close> change nothing the model can tell.
\<close>

definition daemonize :: "shmem \<Rightarrow> 'z dm_os_scheme \<Rightarrow> ('z dm_os_scheme, unit) run" where
  "daemonize shmem =
     bindr fork (\<lambda>pid.
     if pid > 0 then retr ()
     else
       bindr fork (\<lambda>pid.
       if pid > 0 then bindr (set_pid shmem pid) (\<lambda>_. stop (Exited 0))
       else
         bindr close_file_descriptors (\<lambda>_.
         bindr (modify (\<lambda>s. s\<lparr>dm_timer := 0, dm_failure := 0, dm_exec := 0\<rparr>)) (\<lambda>_.
         bindr (gets turns) (\<lambda>n. daemon_loop n shmem None)))))"

section \<open>The commands\<close>

text \<open>The text \<open>daemonstr\<close> leaves in the buffer, by its arguments.\<close>

definition daemonstr :: "int \<Rightarrow> int \<Rightarrow> int \<Rightarrow> int \<Rightarrow> 'z proc_os_scheme \<Rightarrow> ('z proc_os_scheme, int list) run" where
  "daemonstr key pid cpid count =
     bindr (kill pid None) (\<lambda>p.
     bindr (kill cpid None) (\<lambda>c.
     retr [key, int (code_of (if p \<noteq> 0 then CHR ''p'' else CHR ''P'')), pid,
           int (code_of (if c \<noteq> 0 then CHR ''c'' else CHR ''C'')), cpid, count]))"

primrec await_daemon :: "shmem \<Rightarrow> nat \<Rightarrow> int \<times> int \<Rightarrow> 'z os_scheme \<Rightarrow> ('z os_scheme, int \<times> int) run" where
  "await_daemon shmem 0 p = retr p"
| "await_daemon shmem (Suc n) p =
     bindr (get_pid shmem) (\<lambda>pid.
     bindr (get_cpid shmem) (\<lambda>cpid.
     if pid \<noteq> 0 \<and> cpid \<noteq> 0 then retr (pid, cpid)
     else bindr (sleep 1) (\<lambda>_. await_daemon shmem n (pid, cpid))))"

text \<open>The object's key, for the messages.\<close>

definition key_of :: "shmem \<Rightarrow> 'z os_scheme \<Rightarrow> ('z os_scheme, int) run" where
  "key_of shmem = deref_shm shmem (\<lambda>shm. retr (sint (shm_key shm)))"

definition start :: "shmem \<Rightarrow> 'z dm_os_scheme \<Rightarrow> ('z dm_os_scheme, int) run" where
  "start shmem =
     bindr (get_pid shmem) (\<lambda>pid.
     bindr (get_cpid shmem) (\<lambda>cpid.
     bindr (get_count shmem) (\<lambda>count.
     bindr (key_of shmem) (\<lambda>key.
     if cpid \<noteq> 0 \<and> pid \<noteq> 0 then
       bindr (daemonstr key pid cpid count) (\<lambda>buffer.
       bindr (printf ''Daemon%s already running.'' buffer) (\<lambda>_.
       retr (- 1)))
     else
       bindr (printf ''Daemonizing...'' []) (\<lambda>_.
       bindr (daemonize shmem) (\<lambda>_.
       bindr (await_daemon shmem 5 (pid, cpid)) (\<lambda>(pid, cpid).
       bindr (key_of shmem) (\<lambda>key.
       bindr (daemonstr key pid cpid count) (\<lambda>buffer.
       bindr (printf ''Done%s'' buffer) (\<lambda>_.
       retr 0))))))))))"

definition stop_daemon :: "shmem \<Rightarrow> 'z dm_os_scheme \<Rightarrow> ('z dm_os_scheme, int) run" where
  "stop_daemon shmem =
     bindr (get_pid shmem) (\<lambda>pid.
     bindr (get_cpid shmem) (\<lambda>cpid.
     bindr (get_count shmem) (\<lambda>count.
     bindr (key_of shmem) (\<lambda>key.
     bindr (daemonstr key pid cpid count) (\<lambda>buffer.
     if pid \<noteq> 0 \<and> cpid \<noteq> 0 then
       bindr (printf ''Killing child daemon%s(%d)...'' (buffer @ [pid])) (\<lambda>_.
       bindr (kill cpid (Some SIGUSR1)) (\<lambda>r.
       if r \<noteq> 0 then bindr (printf ''FAIL'' []) (\<lambda>_. retr 2)
       else
         bindr (printf ''DONE'' []) (\<lambda>_.
         bindr (printf ''Killing parent daemon%s(%d)...'' (buffer @ [pid])) (\<lambda>_.
         bindr (kill pid (Some SIGUSR1)) (\<lambda>r.
         if r \<noteq> 0 then bindr (printf ''FAIL'' []) (\<lambda>_. retr 3)
         else
           bindr (printf ''DONE'' []) (\<lambda>_.
           bindr (cleanup shmem) (\<lambda>_.
           retr 0)))))))
     else bindr (printf ''No daemon%s.'' buffer) (\<lambda>_. retr 1))))))"

definition daemon_status :: "shmem \<Rightarrow> int \<Rightarrow> 'z dm_os_scheme \<Rightarrow> ('z dm_os_scheme, int) run" where
  "daemon_status shmem key =
     bindr (get_pid shmem) (\<lambda>pid.
     bindr (get_cpid shmem) (\<lambda>cpid.
     bindr (get_count shmem) (\<lambda>count.
     bindr (daemonstr key pid cpid count) (\<lambda>buffer.
     bindr (if pid \<noteq> 0 \<and> cpid \<noteq> 0 then
              bindr (kill pid None) (\<lambda>r.
              if r \<noteq> 0 then printf ''%s Dead'' buffer
              else
                bindr (kill cpid None) (\<lambda>r.
                if r \<noteq> 0 then printf ''%s Recovering'' buffer
                else printf ''%s Alive'' buffer))
            else printf ''%s Missing'' buffer) (\<lambda>_.
     retr 0)))))"

section \<open>The command line\<close>

definition daemon_usage :: "'z os_scheme \<Rightarrow> ('z os_scheme, unit) run" where
  "daemon_usage = modify (\<lambda>s. s\<lparr>out := out s @ map (\<lambda>l. (l, []))
     [''Usage:'',
      ''    %s -S|--start  <channel> -- <command> <arguments>'',
      ''    %s -K|--stop   <channel>'',
      ''    %s -s|--status <channel>'',
      '''',
      ''Note:'',
      ''    Any signal sent to the daemon that can be caught is passed through to the'',
      ''    encapsulated process, so to kill the daemon itself, send it USR1, or USR2.'',
      '''',
      ''    While SIGUSR1 does a complete die (killing the encapsulated processes, and then'',
      ''    the daemon wrapper, SIGUSR2 only kills the daemon process, and leaves the child'',
      ''    to be adopted by init.'']\<rparr>)"

definition daemon_shortopts :: string where "daemon_shortopts = ''S:K:s:h-''"

definition daemon_longopts :: "long_option list" where
  "daemon_longopts =
    [\<lparr>lo_name = ''start'', lo_arg = True, lo_val = CHR ''S''\<rparr>,
     \<lparr>lo_name = ''stop'', lo_arg = True, lo_val = CHR ''K''\<rparr>,
     \<lparr>lo_name = ''status'', lo_arg = True, lo_val = CHR ''s''\<rparr>,
     \<lparr>lo_name = ''help'', lo_arg = False, lo_val = CHR ''h''\<rparr>,
     \<lparr>lo_name = ''command'', lo_arg = False, lo_val = CHR ''-''\<rparr>]"

text \<open>The variables that the option loop sets; \<open>options\<close> is a set of bits.\<close>

record daemon_args =
  da_e :: int
  da_options :: u32
  da_key :: int

definition DAEMON_HELP :: u32 where "DAEMON_HELP = push_bit 0 2"
definition DAEMON_STOP :: u32 where "DAEMON_STOP = push_bit 1 2"
definition DAEMON_START :: u32 where "DAEMON_START = push_bit 2 2"
definition DAEMON_STATUS :: u32 where "DAEMON_STATUS = push_bit 3 2"

definition channel_option :: "u32 \<Rightarrow> string \<Rightarrow> daemon_args \<Rightarrow> daemon_args" where
  "channel_option flag optarg a =
     a\<lparr>da_options := da_options a OR flag, da_key := atoi optarg,
       da_e := (if atoi optarg > 0 then 0 else da_e a)\<rparr>"

fun daemon_option :: "opt \<Rightarrow> daemon_args \<Rightarrow> daemon_args" where
  "daemon_option (Opt c optarg) a =
     (if c = CHR ''S'' then channel_option DAEMON_START optarg a
      else if c = CHR ''K'' then channel_option DAEMON_STOP optarg a
      else if c = CHR ''s'' then channel_option DAEMON_STATUS optarg a
      else if c = CHR ''h'' then a\<lparr>da_options := da_options a OR DAEMON_HELP\<rparr>
      else if c = CHR ''-'' then a
      else a\<lparr>da_e := 1\<rparr>)"

text \<open>
  The loop ends early at the option \<open>-\<close>. Then \<open>getopt_long\<close> has not moved the other
  arguments before it to the end yet, so they are lost, and when the option is not the last
  one of its argument, that argument is not passed over.
\<close>

definition is_opt :: "char \<Rightarrow> opt \<Rightarrow> bool" where
  "is_opt c p = (case p of Opt d _ \<Rightarrow> d = c)"

definition upto_stop :: "opt list \<Rightarrow> opt list" where
  "upto_stop ps = takeWhile (\<lambda>p. \<not> is_opt (CHR ''-'') p) ps"

function getopt_until :: "string \<Rightarrow> long_option list \<Rightarrow> string list \<Rightarrow> opt list \<times> string list \<times> bool" where
  "getopt_until spec longs [] = ([], [], False)"
| "getopt_until spec longs (a # args) =
     (if a = ''--'' then ([], args, False)
      else if take 2 a = ''--'' then
        (let r = long_opt longs (drop 2 a) args in
         if list_ex (is_opt (CHR ''-'')) (fst r) then ([], snd r, True)
         else let q = getopt_until spec longs (snd r) in (fst r @ fst q, snd q))
      else if take 1 a = ''-'' \<and> 1 < length a then
        (let r = short_opts spec (drop 1 a) args; ps = upto_stop (fst r) in
         if list_ex (is_opt (CHR ''-'')) (fst r) then
           (ps, if Suc (length ps) = length (fst r) then snd r else a # args, True)
         else let q = getopt_until spec longs (snd r) in (fst r @ fst q, snd q))
      else
        (let q = getopt_until spec longs args in
         (fst q, if snd (snd q) then snd q else (a # fst (snd q), False))))"
  by pat_completeness auto
termination
  by (relation "measure (\<lambda>(spec, longs, args). length args)")
    (auto simp: le_imp_less_Suc [OF long_opt_rest] le_imp_less_Suc [OF short_opts_rest])

definition daemon_dispatch :: "daemon_args \<Rightarrow> string list \<Rightarrow> 'z dm_os_scheme \<Rightarrow> ('z dm_os_scheme, int) run" where
  "daemon_dispatch a argv =
     (let key = da_key a; channel = word_of_int \<bar>key\<bar>; opts = da_options a in
      if opts AND DAEMON_HELP \<noteq> 0 then bindr daemon_usage (\<lambda>_. retr 0)
      else if opts AND DAEMON_START = DAEMON_START \<and> argv \<noteq> [] then
        (if key = - (2 ^ 31) then stop Undefined
         else bindr (SharedMemory_new channel SHMEM_SIZE True) (\<lambda>p.
              if p \<noteq> None then start (pointer_of p) else retr (- 1)))
      else if opts AND DAEMON_STOP = DAEMON_STOP \<and> argv = [] then
        (if key = - (2 ^ 31) then stop Undefined
         else bindr (SharedMemory_attach channel) (\<lambda>p.
              if p \<noteq> None then stop_daemon (pointer_of p)
              else bindr (printf ''Failed to attach to shmem(key=%d)'' [\<bar>key\<bar>]) (\<lambda>_. retr (- 1))))
      else if opts AND DAEMON_STATUS = DAEMON_STATUS \<and> argv = [] then
        (if key = - (2 ^ 31) then stop Undefined
         else bindr (SharedMemory_attach channel) (\<lambda>p. daemon_status (pointer_of p) key))
      else bindr daemon_usage (\<lambda>_. retr (- 1)))"

definition daemonize_main :: "string list \<Rightarrow> 'z dm_os_scheme \<Rightarrow> ('z dm_os_scheme, int) run" where
  "daemonize_main argv =
     (if length argv + 1 > 2 then
        (let (opts, rest, _) = getopt_until daemon_shortopts daemon_longopts argv;
             a = fold daemon_option opts \<lparr>da_e = - 1, da_options = 0, da_key = 0\<rparr> in
         if da_e a = 0 then daemon_dispatch a rest
         else bindr daemon_usage (\<lambda>_. retr (- 1)))
      else bindr daemon_usage (\<lambda>_. retr 0))"

end
