(* ===== verification/Forked.thy ===== *)
theory Forked
  imports SharedMemory Processes
begin

text \<open>
  Shared memory across \<open>fork\<close>: whichever side a process is on, an object stays ready and its cells stay as they
  were; only the number of attachments of a segment grows.
\<close>

lemma attach_upto_keeps:
  "segs k i = Some sg \<Longrightarrow> \<exists>m. segs (attach_upto n att k) i = Some (sg\<lparr>sg_nattch := m\<rparr>)"
proof (induction n arbitrary: k sg)
  case 0
  then show ?case by (intro exI [of _ "sg_nattch sg"]) simp
next
  case (Suc n)
  have "\<exists>m. segs (attach_again j k) i = Some (sg\<lparr>sg_nattch := m\<rparr>)" for j
  proof (cases "i = j")
    case True
    with Suc.prems show ?thesis by (auto simp: attach_again_def)
  next
    case False
    then have "segs (attach_again j k) i = Some (sg\<lparr>sg_nattch := sg_nattch sg\<rparr>)"
      using Suc.prems by (simp add: attach_again_def split: option.split)
    then show ?thesis ..
  qed
  with Suc.IH Suc.prems show ?case by (fastforce split: option.split)
qed

lemma attach_upto_segs: "\<exists>g. attach_upto n att k = k\<lparr>segs := g\<rparr>"
proof (induction n arbitrary: k)
  case 0
  show ?case by (intro exI [of _ "segs k"]) simp
next
  case (Suc n)
  have "\<exists>g. attach_again i k = k\<lparr>segs := g\<rparr>" for i
    by (cases "segs k i") (auto simp: attach_again_def intro: exI [of _ "segs k"])
  then have "\<exists>g. (case att n of None \<Rightarrow> k | Some i \<Rightarrow> attach_again i k) = k\<lparr>segs := g\<rparr>"
    by (cases "att n") (auto intro: exI [of _ "segs k"])
  then obtain g where "attach_upto (Suc n) att k = attach_upto n att (k\<lparr>segs := g\<rparr>)" by auto
  with Suc.IH [of "k\<lparr>segs := g\<rparr>"] show ?case by auto
qed

lemma attach_upto_frame [simp]:
  "sems (attach_upto n att k) = sems k" "semkeys (attach_upto n att k) = semkeys k"
  "semvmx (attach_upto n att k) = semvmx k" "clock (attach_upto n att k) = clock k"
  "shmkeys (attach_upto n att k) = shmkeys k"
  by (induction n arbitrary: k) (simp_all add: attach_again_def split: option.split)

lemma seg_at_shared:
  assumes "seg_at a s = Some (i, sg)"
  shows "\<exists>m. seg_at a (shared s) = Some (i, sg\<lparr>sg_nattch := m\<rparr>)"
proof -
  from assms have "segs (ker s) i = Some sg" by (rule seg_at_Some_segs)
  then obtain m where "segs (ker (shared s)) i = Some (sg\<lparr>sg_nattch := m\<rparr>)"
    using attach_upto_keeps by (force simp: shared_def)
  with assms show ?thesis
    by (auto simp: seg_at_def shared_def split: address.splits option.splits)
qed

text \<open>Only the kernel, the script and the attachments count; writing changes the segments only.\<close>

lemma shm_frame_cong:
  assumes "ker t = ker s" and "script t = script s" and "attached t = attached s"
  shows "shm_ready this t = shm_ready this s" and "shm_cells this t = shm_cells this s"
proof -
  have "seg_at x t = seg_at x s" for x
    using assms by (simp add: seg_at_def cong: option.case_cong address.case_cong)
  with assms show "shm_ready this t = shm_ready this s" "shm_cells this t = shm_cells this s"
    by (simp_all add: shm_ready_def mutex_free_def sem_ok_def shm_cells_def cong: option.case_cong)
qed

lemma shm_clock:
  "shm_ready this (s\<lparr>ker := (ker s)\<lparr>clock := x\<rparr>\<rparr>) = shm_ready this s"
  "shm_cells this (s\<lparr>ker := (ker s)\<lparr>clock := x\<rparr>\<rparr>) = shm_cells this s"
proof -
  have "seg_at q (s\<lparr>ker := (ker s)\<lparr>clock := x\<rparr>\<rparr>) = seg_at q s" for q
    by (simp add: seg_at_def cong: option.case_cong address.case_cong)
  then show "shm_ready this (s\<lparr>ker := (ker s)\<lparr>clock := x\<rparr>\<rparr>) = shm_ready this s"
    "shm_cells this (s\<lparr>ker := (ker s)\<lparr>clock := x\<rparr>\<rparr>) = shm_cells this s"
    by (simp_all add: shm_ready_def mutex_free_def sem_ok_def has_sem_def sem_value_def shm_cells_def)
qed

lemma same_but_data_segs:
  assumes "same_but_data this s t"
  obtains f where "t = s\<lparr>ker := (ker s)\<lparr>segs := f\<rparr>\<rparr>"
  using assms by (cases "seg_at (shm_addr this) s")
    (auto simp: same_but_data_def set_data_def intro: that that [of "segs (ker s)"])

lemma shm_ready_shared:
  assumes "shm_ready this s"
  shows "shm_ready this (shared s)"
proof -
  from assms obtain i sg where "seg_at (shm_addr this) s = Some (i, sg)" by (auto simp: shm_ready_def)
  from seg_at_shared [OF this] obtain m where "seg_at (shm_addr this) (shared s) = Some (i, sg\<lparr>sg_nattch := m\<rparr>)" ..
  with assms show ?thesis
    by (simp add: shm_ready_def mutex_free_def sem_ok_def has_sem_def sem_value_def) (simp add: shared_def)
qed

lemma shm_cells_shared:
  assumes "shm_ready this s"
  shows "shm_cells this (shared s) = shm_cells this s"
proof -
  from assms obtain i sg where seg: "seg_at (shm_addr this) s = Some (i, sg)" by (auto simp: shm_ready_def)
  from seg_at_shared [OF this] obtain m where "seg_at (shm_addr this) (shared s) = Some (i, sg\<lparr>sg_nattch := m\<rparr>)" ..
  with seg show ?thesis by (simp add: shm_cells_def)
qed

text \<open>The object can be removed: its segment is its own and at least as long as it says.\<close>

definition removable :: "SharedMemory \<Rightarrow> 'z os_scheme \<Rightarrow> bool" where
  "removable shm s \<longleftrightarrow> (\<exists>m sg. seg_at (shm_addr shm) s = Some (m, sg) \<and> shm_id shm = m \<and>
     shm_size shm \<le> length (sg_data sg) \<and> \<not> sg_dest sg)"

lemma same_but_data_removable:
  assumes "same_but_data shm s t" and "removable shm s"
  shows "removable shm t"
  using assms by (auto simp: same_but_data_def removable_def seg_at_set_data)

lemma removable_cong:
  assumes "segs (ker t) = segs (ker s)" and "attached t = attached s"
  shows "removable shm t = removable shm s"
  using assms by (simp add: removable_def seg_at_def cong: option.case_cong address.case_cong)

lemma removable_shared:
  assumes "removable shm s"
  shows "removable shm (shared s)"
  using assms seg_at_shared [of "shm_addr shm" s] by (fastforce simp: removable_def)

lemma delete_removable:
  assumes "shm_ready this s" and "removable this s"
  shows "\<exists>k at. SharedMemory_delete this True s = Fin () (s\<lparr>ker := k, attached := at\<rparr>) \<and>
    gone this (s\<lparr>ker := k, attached := at\<rparr>) \<and> clock k = clock (ker s) \<and>
    shmkeys k = (\<lambda>q. if shmkeys (ker s) q = Some (shm_id this) then None else shmkeys (ker s) q)"
proof -
  from assms(2) obtain m sg where "seg_at (shm_addr this) s = Some (m, sg)" "shm_id this = m"
      "shm_size this \<le> length (sg_data sg)" "\<not> sg_dest sg"
    by (auto simp: removable_def)
  from SharedMemory_delete_gone [OF assms(1) this] show ?thesis .
qed

end
