(* ===== verification/Daemonize_Props.thy ===== *)
theory Daemonize_Props
  imports Daemonize Forked
begin

text \<open>
  What \<open>daemonize\<close> does: the kernel stays well-formed whatever happens; the three commands in a quiet
  system; and the daemon's loop under signals, failing children and failing calls.
\<close>

section \<open>Every command keeps the kernel state well-formed\<close>

lemma wf_os_dm_upd [simp]:
  "wf_os (s\<lparr>dm_timer := a\<rparr>) = wf_os s" "wf_os (s\<lparr>dm_failure := b\<rparr>) = wf_os s"
  "wf_os (s\<lparr>dm_exec := c\<rparr>) = wf_os s" "wf_os (handler g s) = wf_os s"
  by (simp_all add: wf_os_def handler_def sigaction_ignore_def)

lemma keeps_deref_shm [keeps]: "(\<And>shm. keeps (f shm) I) \<Longrightarrow> keeps (deref_shm p f) I"
  unfolding deref_shm_def by (cases p) (auto intro: keeps)

lemma keeps_records [keeps]:
  "keeps (activate p) wf_os" "keeps (deactivate p) wf_os" "keeps (active p) wf_os"
  "keeps (set_pid p v) wf_os" "keeps (get_pid p) wf_os" "keeps (set_cpid p v) wf_os" "keeps (get_cpid p) wf_os"
  "keeps (get_count p) wf_os" "keeps (inc_count p) wf_os" "keeps (shm_delete p b) wf_os" "keeps (key_of p) wf_os"
  unfolding activate_def deactivate_def active_def set_pid_def get_pid_def set_cpid_def get_cpid_def
    get_count_def inc_count_def shm_delete_def key_of_def
  by (intro keeps)+

lemma keeps_ending [keeps]: "keeps (cleanup p) wf_os" "keeps (die p) wf_os"
  unfolding cleanup_def die_def by (intro keeps)+

lemma keeps_close_fds [keeps]: "keeps close_file_descriptors wf_os"
  unfolding close_file_descriptors_def Let_def split_def by (intro keeps keeps_modify) simp

lemma keeps_case_wait [keeps]:
  assumes "\<And>g. keeps (a g) I" and "keeps b I" and "\<And>st. keeps (c st) I"
  shows "keeps (case r of Inl g \<Rightarrow> a g | Inr None \<Rightarrow> b | Inr (Some st) \<Rightarrow> c st) I"
  using assms by (auto split: sum.split option.split)

lemma keeps_case_status [keeps]:
  "keeps m I \<Longrightarrow> keeps m' I \<Longrightarrow> keeps (case st of W_exited _ \<Rightarrow> m | W_signaled _ \<Rightarrow> m
     | W_stopped _ \<Rightarrow> m' | W_continued \<Rightarrow> m' | W_other _ \<Rightarrow> m') I"
  by (cases st) simp_all

lemma keeps_wait [keeps]: "keeps (wait_for_signal p) wf_os"
  unfolding wait_for_signal_def by (intro keeps keeps_waitpid) (simp add: wf_os_def handler_def sigaction_ignore_def)

lemma keeps_install [keeps]: "keeps (install_handlers p gs) wf_os"
  by (induction gs) (auto intro: keeps)

lemma keeps_run_command [keeps]: "keeps (run_command p) wf_os"
  unfolding run_command_def by (intro keeps keeps_modify) simp_all

lemma keeps_on_signal [keeps]: "keeps (on_signal p g) wf_os"
  unfolding on_signal_def by (intro keeps)

lemma keeps_end_of_turn [keeps]: "keeps (end_of_turn p) wf_os"
  unfolding end_of_turn_def
  by (intro keeps keeps_modify keeps_nap) (simp_all add: wf_os_def handler_def sigaction_ignore_def)

lemma keeps_turn [keeps]: "keeps (daemon_turn p g) wf_os"
  unfolding daemon_turn_def by (intro keeps)

lemma keeps_case_turn [keeps]:
  "(\<And>g. keeps (a g) I) \<Longrightarrow> (\<And>q. keeps (b q) I) \<Longrightarrow> keeps (case r of Jumped g \<Rightarrow> a g | Ended q \<Rightarrow> b q) I"
  by (cases r) simp_all

lemma keeps_loop [keeps]: "keeps (daemon_loop n p g) wf_os"
  by (induction n arbitrary: p g) (auto intro!: keeps)

lemma keeps_daemonize [keeps]: "keeps (daemonize p) wf_os"
  unfolding daemonize_def by (intro keeps keeps_modify) simp

lemma keeps_daemonstr [keeps]: "keeps (daemonstr k p c n) wf_os"
  unfolding daemonstr_def by (intro keeps)

lemma keeps_await [keeps]: "keeps (await_daemon p n x) wf_os"
  by (induction n arbitrary: x) (auto intro!: keeps)

lemma keeps_commands [keeps]:
  "keeps (start p) wf_os" "keeps (stop_daemon p) wf_os" "keeps (daemon_status p k) wf_os"
  unfolding start_def stop_daemon_def daemon_status_def split_def by (intro keeps)+

lemma keeps_daemon_usage [keeps]: "keeps daemon_usage wf_os"
  unfolding daemon_usage_def by (rule keeps_modify) simp

lemma keeps_daemon_dispatch [keeps]: "keeps (daemon_dispatch a argv) wf_os"
  unfolding daemon_dispatch_def Let_def by (intro keeps)


section \<open>The records\<close>

text \<open>
  The object is ready and its segment holds the four records: whether the daemon is active, the
  ids of the daemon and of its child, and the number of starts.
\<close>

definition records :: "SharedMemory \<Rightarrow> u32 \<Rightarrow> u32 \<Rightarrow> u32 \<Rightarrow> u32 \<Rightarrow> 'z os_scheme \<Rightarrow> bool" where
  "records shm a p c n s \<longleftrightarrow> shm_ready shm s \<and> shm_cells shm s = [a, p, c, n]"

lemma records_script: "records shm a p c n s \<Longrightarrow> script s = []"
  by (auto simp: records_def shm_ready_def mutex_free_def sem_ok_def)

lemma records_cong:
  assumes "ker t = ker s" and "script t = script s" and "attached t = attached s"
  shows "records shm a p c n t = records shm a p c n s"
  by (simp add: records_def shm_frame_cong [OF assms])

lemma records_upd [simp]:
  "records shm a p c n (s\<lparr>err := e\<rparr>) = records shm a p c n s"
  "records shm a p c n (s\<lparr>out := q\<rparr>) = records shm a p c n s"
  by (rule records_cong; simp)+

lemma records_proc_upd [simp]:
  "records shm a p c n (s\<lparr>pr_forks := f\<rparr>) = records shm a p c n s"
  "records shm a p c n (s\<lparr>pr_waits := w\<rparr>) = records shm a p c n s"
  "records shm a p c n (s\<lparr>pr_naps := q\<rparr>) = records shm a p c n s"
  "records shm a p c n (s\<lparr>pr_sent := g\<rparr>) = records shm a p c n s"
  "records shm a p c n (s\<lparr>pr_blocked := b\<rparr>) = records shm a p c n s"
  "records shm a p c n (s\<lparr>pr_ignored := l\<rparr>) = records shm a p c n s"
  by (rule records_cong; simp)+

lemma records_dm_upd [simp]:
  "records shm a p c n (s\<lparr>dm_timer := k\<rparr>) = records shm a p c n s"
  "records shm a p c n (s\<lparr>dm_failure := i\<rparr>) = records shm a p c n s"
  "records shm a p c n (s\<lparr>dm_exec := i\<rparr>) = records shm a p c n s"
  by (rule records_cong; simp)+

lemma read_record:
  assumes "records shm a p c n s"
  shows "SharedMemory_read_uint shm 0 s = Fin a s" "SharedMemory_read_uint shm 1 s = Fin p s"
    "SharedMemory_read_uint shm 2 s = Fin c s" "SharedMemory_read_uint shm 3 s = Fin n s"
  using assms shm.rd_ready [of shm s 0] shm.rd_ready [of shm s 1] shm.rd_ready [of shm s 2] shm.rd_ready [of shm s 3]
  by (simp_all add: records_def)

text \<open>Reading through the accessors.\<close>

lemma get_records:
  assumes "records shm a p c n s"
  shows "get_pid (Obj shm) s = Fin (sint p) s" "get_cpid (Obj shm) s = Fin (sint c) s"
    "get_count (Obj shm) s = Fin (sint n) s" "active (Obj shm) s = Fin (a \<noteq> 0) s"
    "key_of (Obj shm) s = Fin (sint (shm_key shm)) s"
  using read_record [OF assms]
  by (simp_all add: get_pid_def get_cpid_def get_count_def active_def key_of_def deref_shm_def offsets run_simps)

text \<open>Writing changes the segments, and only one record.\<close>

lemma write_record:
  assumes "records shm a p c n s" and "unat i < 4" and "[a, p, c, n][unat i := v] = [a', p', c', n']"
  obtains f where "SharedMemory_write_uint shm i v s = Fin () (s\<lparr>ker := (ker s)\<lparr>segs := f\<rparr>\<rparr>)"
    and "records shm a' p' c' n' (s\<lparr>ker := (ker s)\<lparr>segs := f\<rparr>\<rparr>)"
    and "removable shm s \<Longrightarrow> removable shm (s\<lparr>ker := (ker s)\<lparr>segs := f\<rparr>\<rparr>)"
proof -
  have ready: "shm_ready shm s" and len: "unat i < length (shm_cells shm s)"
    using assms by (simp_all add: records_def)
  obtain t where t: "SharedMemory_write_uint shm i v s = Fin () t" "shm_ready shm t"
      "shm_cells shm t = (shm_cells shm s)[unat i := v]" "same_but_data shm s t"
    by (rule shm.wrE [OF ready len])
  from t(4) obtain f where f: "t = s\<lparr>ker := (ker s)\<lparr>segs := f\<rparr>\<rparr>" by (rule same_but_data_segs)
  from t(4) have "removable shm s \<Longrightarrow> removable shm t" by (rule same_but_data_removable)
  with t assms f show thesis by (intro that [of f]) (simp_all add: records_def)
qed

text \<open>The two ids are set through the accessors.\<close>

lemma set_ids:
  assumes "records shm a p c n s"
  obtains f where "set_pid (Obj shm) v s = Fin () (s\<lparr>ker := (ker s)\<lparr>segs := f\<rparr>\<rparr>)"
    and "records shm a (word_of_int v) c n (s\<lparr>ker := (ker s)\<lparr>segs := f\<rparr>\<rparr>)"
    and "removable shm s \<Longrightarrow> removable shm (s\<lparr>ker := (ker s)\<lparr>segs := f\<rparr>\<rparr>)"
  using assms by (rule write_record [of _ _ _ _ _ _ 1 "word_of_int v" a "word_of_int v" c n])
    (simp_all add: set_pid_def deref_shm_def OFFSET_PID_def)

lemma set_cids:
  assumes "records shm a p c n s"
  obtains f where "set_cpid (Obj shm) v s = Fin () (s\<lparr>ker := (ker s)\<lparr>segs := f\<rparr>\<rparr>)"
    and "records shm a p (word_of_int v) n (s\<lparr>ker := (ker s)\<lparr>segs := f\<rparr>\<rparr>)"
    and "removable shm s \<Longrightarrow> removable shm (s\<lparr>ker := (ker s)\<lparr>segs := f\<rparr>\<rparr>)"
  using assms by (rule write_record [of _ _ _ _ _ _ 2 "word_of_int v" a p "word_of_int v" n])
    (simp_all add: set_cpid_def deref_shm_def OFFSET_CPID_def)

lemma set_active:
  assumes "records shm a p c n s"
  obtains f where "(if b then activate (Obj shm) else deactivate (Obj shm)) s = Fin () (s\<lparr>ker := (ker s)\<lparr>segs := f\<rparr>\<rparr>)"
    and "records shm (of_bool b) p c n (s\<lparr>ker := (ker s)\<lparr>segs := f\<rparr>\<rparr>)"
    and "removable shm s \<Longrightarrow> removable shm (s\<lparr>ker := (ker s)\<lparr>segs := f\<rparr>\<rparr>)"
  using assms by (rule write_record [of _ _ _ _ _ _ 0 "of_bool b" "of_bool b" p c n])
    (cases b; simp add: activate_def deactivate_def deref_shm_def OFFSET_ACTIVE_def)+

text \<open>A new process keeps the records, whichever side of \<open>fork\<close> it is on.\<close>

lemma records_shared: "records shm a p c n s \<Longrightarrow> records shm a p c n (shared s)"
  by (simp add: records_def shm_ready_shared shm_cells_shared)

lemma records_handler [simp]: "records shm a p c n (handler g s) = records shm a p c n s"
  by (rule records_cong) (simp_all add: handler_def sigaction_ignore_def)

section \<open>Status and stop\<close>

definition reachable :: "int \<Rightarrow> 'z proc_os_scheme \<Rightarrow> bool" where
  "reachable pid s \<longleftrightarrow> pid = 0 \<or> pr_target s pid"

lemma reachable_upd [simp]:
  "reachable x (s\<lparr>err := e\<rparr>) = reachable x s" "reachable x (s\<lparr>out := q\<rparr>) = reachable x s"
  "reachable x (s\<lparr>pr_sent := g\<rparr>) = reachable x s" "reachable x (s\<lparr>ker := k\<rparr>) = reachable x s"
  "reachable x (s\<lparr>attached := at\<rparr>) = reachable x s" "reachable x (s\<lparr>next_addr := na\<rparr>) = reachable x s"
  by (simp_all add: reachable_def)

lemma kill_quiet:
  assumes "script s = []"
  shows "kill pid sg s = (if reachable pid s
     then Fin 0 (case sg of None \<Rightarrow> s | Some g \<Rightarrow> s\<lparr>pr_sent := pr_sent s @ [(pid, g)]\<rparr>)
     else Fin (- 1) (s\<lparr>err := ESRCH\<rparr>))"
  using assms by (auto simp: kill_def reachable_def run_simps)

text \<open>The text of \<open>daemonstr\<close>: a process that does not answer has its letter in lower case.\<close>

definition buffer_text :: "int \<Rightarrow> int \<Rightarrow> int \<Rightarrow> int \<Rightarrow> 'z proc_os_scheme \<Rightarrow> int list" where
  "buffer_text key p c n s =
     [key, int (code_of (if reachable p s then CHR ''P'' else CHR ''p'')), p,
      int (code_of (if reachable c s then CHR ''C'' else CHR ''c'')), c, n]"

lemma daemonstr_quiet:
  assumes "script s = []"
  obtains e where "daemonstr key p c n s = Fin (buffer_text key p c n s) (s\<lparr>err := e\<rparr>)"
proof -
  have "daemonstr key p c n s = Fin (buffer_text key p c n s)
      (if reachable p s \<and> reachable c s then s else s\<lparr>err := ESRCH\<rparr>)"
    using assms by (simp add: daemonstr_def kill_quiet run_simps buffer_text_def)
  then show thesis
    using that [of "err s"] that [of ESRCH] by (simp split: if_splits)
qed

definition status_text :: "int \<Rightarrow> int \<Rightarrow> 'z proc_os_scheme \<Rightarrow> string" where
  "status_text p c s =
     (if p = 0 \<or> c = 0 then ''%s Missing'' else if \<not> reachable p s then ''%s Dead''
      else if \<not> reachable c s then ''%s Recovering'' else ''%s Alive'')"

lemma daemon_status_quiet:
  assumes "records shm a p c n s"
  shows "\<exists>e. daemon_status (Obj shm) key s = Fin 0 (s\<lparr>err := e,
    out := out s @ [(status_text (sint p) (sint c) s, buffer_text key (sint p) (sint c) (sint n) s)]\<rparr>)"
proof -
  have q: "script s = []" using assms by (rule records_script)
  then obtain e where "daemonstr key (sint p) (sint c) (sint n) s =
      Fin (buffer_text key (sint p) (sint c) (sint n) s) (s\<lparr>err := e\<rparr>)"
    by (rule daemonstr_quiet)
  then show ?thesis
    using get_records [OF assms] q
    by (cases "p = 0 \<or> c = 0"; cases "reachable (sint p) s"; cases "reachable (sint c) s")
      (auto simp: daemon_status_def run_simps kill_quiet printf_def status_text_def)
qed

text \<open>What \<open>stop\<close> answers, and the signals it has sent by then.\<close>

definition stop_answer :: "int \<Rightarrow> int \<Rightarrow> 'z proc_os_scheme \<Rightarrow> int" where
  "stop_answer p c s = (if p = 0 \<or> c = 0 then 1 else if \<not> reachable c s then 2
     else if \<not> reachable p s then 3 else 0)"

definition stop_sent :: "int \<Rightarrow> int \<Rightarrow> 'z proc_os_scheme \<Rightarrow> (int \<times> signal) list" where
  "stop_sent p c s = (if stop_answer p c s = 0 then [(c, SIGUSR1), (p, SIGUSR1)]
     else if stop_answer p c s = 3 then [(c, SIGUSR1)] else [])"

text \<open>Clearing the two ids and removing the object, as \<open>cleanup\<close> and \<open>die\<close> do.\<close>

lemma removable_upd [simp]:
  "removable shm (s\<lparr>err := e\<rparr>) = removable shm s" "removable shm (s\<lparr>out := q\<rparr>) = removable shm s"
  by (rule removable_cong; simp)+

lemma removable_proc_upd [simp]:
  "removable shm (s\<lparr>pr_forks := f\<rparr>) = removable shm s" "removable shm (s\<lparr>pr_waits := w\<rparr>) = removable shm s"
  "removable shm (s\<lparr>pr_sent := g\<rparr>) = removable shm s" "removable shm (s\<lparr>pr_blocked := b\<rparr>) = removable shm s"
  "removable shm (s\<lparr>pr_ignored := l\<rparr>) = removable shm s"
  by (rule removable_cong; simp)+

lemma removable_dm_upd [simp]:
  "removable shm (s\<lparr>dm_timer := k\<rparr>) = removable shm s" "removable shm (s\<lparr>dm_exec := i\<rparr>) = removable shm s"
  by (rule removable_cong; simp)+

lemma removable_handler [simp]: "removable shm (handler g s) = removable shm s"
  by (rule removable_cong) (simp_all add: handler_def sigaction_ignore_def)

lemma clear_ids:
  assumes r: "records shm a p c n s" and rem: "removable shm s"
  obtains k where "bindr (set_pid (Obj shm) 0) (\<lambda>_. bindr (set_cpid (Obj shm) 0) m) s = m () (s\<lparr>ker := k\<rparr>)"
    and "records shm a 0 0 n (s\<lparr>ker := k\<rparr>)" and "removable shm (s\<lparr>ker := k\<rparr>)" and "shmkeys k = shmkeys (ker s)"
proof -
  obtain f where f: "set_pid (Obj shm) 0 s = Fin () (s\<lparr>ker := (ker s)\<lparr>segs := f\<rparr>\<rparr>)"
      "records shm a 0 c n (s\<lparr>ker := (ker s)\<lparr>segs := f\<rparr>\<rparr>)" "removable shm (s\<lparr>ker := (ker s)\<lparr>segs := f\<rparr>\<rparr>)"
    using set_ids [OF r, of 0] rem by auto
  obtain g where "set_cpid (Obj shm) 0 (s\<lparr>ker := (ker s)\<lparr>segs := f\<rparr>\<rparr>) = Fin () (s\<lparr>ker := (ker s)\<lparr>segs := g\<rparr>\<rparr>)"
      "records shm a 0 0 n (s\<lparr>ker := (ker s)\<lparr>segs := g\<rparr>\<rparr>)" "removable shm (s\<lparr>ker := (ker s)\<lparr>segs := g\<rparr>\<rparr>)"
    using set_cids [OF f(2), of 0] f(3) by auto
  with f(1) show thesis by (intro that [of "(ker s)\<lparr>segs := g\<rparr>"]) (simp_all add: run_simps)
qed

definition without_seg :: "int \<Rightarrow> ipc \<Rightarrow> ipc \<Rightarrow> bool" where
  "without_seg i k k' \<longleftrightarrow> shmkeys k' = (\<lambda>q. if shmkeys k q = Some i then None else shmkeys k q)"

lemma without_seg_from: "shmkeys k = shmkeys l \<Longrightarrow> without_seg i k k' \<Longrightarrow> without_seg i l k'"
  by (auto simp: without_seg_def fun_eq_iff)

lemma delete_gone:
  assumes "records shm a p c n s" and "removable shm s"
  shows "\<exists>k at. shm_delete (Obj shm) True s = Fin () (s\<lparr>ker := k, attached := at\<rparr>) \<and>
    gone shm (s\<lparr>ker := k, attached := at\<rparr>) \<and> without_seg (shm_id shm) (ker s) k"
  using delete_removable [of shm s] assms by (auto simp: records_def shm_delete_def deref_shm_def without_seg_def)

lemma cleanup_gone:
  assumes r: "records shm a p c n s" and rem: "removable shm s"
  shows "\<exists>k at. cleanup (Obj shm) s = Fin () (s\<lparr>ker := k, attached := at\<rparr>) \<and>
    gone shm (s\<lparr>ker := k, attached := at\<rparr>) \<and> without_seg (shm_id shm) (ker s) k"
proof -
  obtain k where k: "cleanup (Obj shm) s = shm_delete (Obj shm) True (s\<lparr>ker := k\<rparr>)"
      "records shm a 0 0 n (s\<lparr>ker := k\<rparr>)" "removable shm (s\<lparr>ker := k\<rparr>)" "shmkeys k = shmkeys (ker s)"
    unfolding cleanup_def using clear_ids [OF r rem, where m = "\<lambda>_. shm_delete (Obj shm) True"] by blast
  with delete_gone [OF k(2,3)] show ?thesis by (auto dest: without_seg_from)
qed

text \<open>What \<open>stop\<close> leaves: its answer, the signals, and the kernel, which changes only when it succeeds.\<close>

lemma stop_daemon_state:
  assumes r: "records shm a p c n s" and rem: "removable shm s"
  obtains e q k at where "stop_daemon (Obj shm) s = Fin (stop_answer (sint p) (sint c) s)
      (s\<lparr>err := e, pr_sent := pr_sent s @ stop_sent (sint p) (sint c) s, out := q, ker := k, attached := at\<rparr>)"
    and "if stop_answer (sint p) (sint c) s = 0
      then gone shm (s\<lparr>err := e, pr_sent := pr_sent s @ stop_sent (sint p) (sint c) s, out := q, ker := k, attached := at\<rparr>) \<and>
        without_seg (shm_id shm) (ker s) k
      else k = ker s \<and> at = attached s"
proof -
  have q: "script s = []" using r by (rule records_script)
  let ?b = "buffer_text (sint (shm_key shm)) (sint p) (sint c) (sint n) s"
  obtain e where d: "daemonstr (sint (shm_key shm)) (sint p) (sint c) (sint n) s = Fin ?b (s\<lparr>err := e\<rparr>)"
    using q by (rule daemonstr_quiet)
  show ?thesis
  proof (cases "stop_answer (sint p) (sint c) s = 0")
    case False
    let ?q3 = "out s @ [(''Killing child daemon%s(%d)...'', ?b @ [sint p]), (''DONE'', []),
      (''Killing parent daemon%s(%d)...'', ?b @ [sint p]), (''FAIL'', [])]"
    have "stop_answer (sint p) (sint c) s = 3 \<Longrightarrow> stop_daemon (Obj shm) s = Fin 3
        (s\<lparr>err := ESRCH, pr_sent := pr_sent s @ [(sint c, SIGUSR1)], out := ?q3\<rparr>)"
      using get_records [OF r] d q
      by (simp add: stop_daemon_def run_simps kill_quiet printf_def stop_answer_def split: if_splits)
    moreover have "stop_answer (sint p) (sint c) s \<noteq> 3 \<Longrightarrow> \<exists>e' q. stop_daemon (Obj shm) s =
        Fin (stop_answer (sint p) (sint c) s) (s\<lparr>err := e', out := q\<rparr>)"
      using get_records [OF r] d q False
      by (auto simp: stop_daemon_def run_simps kill_quiet printf_def stop_answer_def split: if_splits)
    ultimately have "\<exists>e' q. stop_daemon (Obj shm) s = Fin (stop_answer (sint p) (sint c) s)
        (s\<lparr>err := e', pr_sent := pr_sent s @ stop_sent (sint p) (sint c) s, out := q\<rparr>)"
      using False by (cases "stop_answer (sint p) (sint c) s = 3") (auto simp: stop_sent_def)
    with False show ?thesis using that [where k = "ker s" and at = "attached s"] by auto
  next
    case True
    let ?q = "out s @ [(''Killing child daemon%s(%d)...'', ?b @ [sint p]), (''DONE'', []),
      (''Killing parent daemon%s(%d)...'', ?b @ [sint p]), (''DONE'', [])]"
    let ?s = "s\<lparr>err := e, pr_sent := pr_sent s @ [(sint c, SIGUSR1), (sint p, SIGUSR1)], out := ?q\<rparr>"
    have "records shm a p c n ?s" "removable shm ?s" using r rem by simp_all
    from cleanup_gone [OF this] obtain k at where "cleanup (Obj shm) ?s = Fin () (?s\<lparr>ker := k, attached := at\<rparr>)"
      "gone shm (?s\<lparr>ker := k, attached := at\<rparr>)" "without_seg (shm_id shm) (ker s) k" by auto
    moreover have "stop_daemon (Obj shm) s = bindr (cleanup (Obj shm)) (\<lambda>_. retr 0) ?s"
      using get_records [OF r] d q True
      by (simp add: stop_daemon_def run_simps kill_quiet printf_def stop_answer_def split: if_splits)
    ultimately show ?thesis
      using True that [where e = e and q = ?q and k = k and at = at] by (simp add: run_simps stop_sent_def)
  qed
qed

lemma stop_daemon_quiet:
  assumes r: "records shm a p c n s" and rem: "removable shm s"
  shows "\<exists>t. stop_daemon (Obj shm) s = Fin (stop_answer (sint p) (sint c) s) t \<and>
    pr_sent t = pr_sent s @ stop_sent (sint p) (sint c) s \<and>
    (if stop_answer (sint p) (sint c) s = 0 then gone shm t else records shm a p c n t)"
  by (rule stop_daemon_state [OF r rem]) (use r in \<open>auto split: if_splits\<close>)

section \<open>The command line\<close>

lemma daemon_key:
  assumes "0 < k" and "k < 2 ^ 31"
  shows "atoi (decimal_int k) = k" "\<bar>k\<bar> = k" "k \<noteq> - (2 ^ 31)"
  using assms by (simp_all add: atoi_decimal)

lemma daemon_bits [simp]: "DAEMON_HELP = 2" "DAEMON_STOP = 4" "DAEMON_START = 8" "DAEMON_STATUS = 16"
  by (simp_all add: DAEMON_HELP_def DAEMON_STOP_def DAEMON_START_def DAEMON_STATUS_def)

lemma daemon_lines:
  assumes "0 < k" and "k < 2 ^ 31"
  shows "daemonize_main [''-s'', decimal_int k] s =
      bindr (SharedMemory_attach (word_of_int k)) (\<lambda>p. daemon_status (pointer_of p) k) s"
    and "daemonize_main [''-K'', decimal_int k] s =
      bindr (SharedMemory_attach (word_of_int k)) (\<lambda>p. if p \<noteq> None then stop_daemon (pointer_of p)
        else bindr (printf ''Failed to attach to shmem(key=%d)'' [k]) (\<lambda>_. retr (- 1))) s"
    and "cmd \<noteq> [] \<Longrightarrow> daemonize_main (''-S'' # decimal_int k # ''--'' # cmd) s =
      bindr (SharedMemory_new (word_of_int k) 16 True) (\<lambda>p. if p \<noteq> None then start (pointer_of p) else retr (- 1)) s"
  using assms
  by (simp_all add: daemon_key [OF assms] daemonize_main_def daemon_shortopts_def channel_option_def daemon_dispatch_def SHMEM_SIZE_def is_opt_def
      upto_stop_def Let_def cong: if_cong)

text \<open>The names of a daemon's segment and of its mutex, and the four records in it.\<close>

definition daemon_named :: "u32 \<Rightarrow> int \<Rightarrow> segment \<Rightarrow> int \<Rightarrow> semset \<Rightarrow> u32 \<Rightarrow> u32 \<Rightarrow> u32 \<Rightarrow> u32 \<Rightarrow> 'z os_scheme \<Rightarrow> bool" where
  "daemon_named key i sg j gs a p c n s \<longleftrightarrow> names_seg key i sg s \<and> names_set (guard_key key) j gs s \<and>
     ss_vals gs = [1] \<and> 1 \<le> semvmx (ker s) \<and> cells (sg_data sg) = [a, p, c, n] \<and> \<not> sg_dest sg"

lemma seg_at_attached_obj:
  "seg_at (shm_addr (attached_obj key i j s)) (attach_seg i sg s) = Some (i, sg\<lparr>sg_nattch := Suc (sg_nattch sg)\<rparr>)"
  by (simp add: attached_obj_def seg_at_attach)

lemma daemon_attached:
  assumes "daemon_named key i sg j gs a p c n s"
  shows "SharedMemory_attach key s = Fin (Some (attached_obj key i j s)) (attach_seg i sg s)"
    and "records (attached_obj key i j s) a p c n (attach_seg i sg s)"
    and "junk s \<le> length (sg_data sg) \<Longrightarrow> removable (attached_obj key i j s) (attach_seg i sg s)"
proof -
  note n = assms [unfolded daemon_named_def]
  show "SharedMemory_attach key s = Fin (Some (attached_obj key i j s)) (attach_seg i sg s)"
    using n by (intro SharedMemory_attach_names) auto
  have "mutex_free \<lparr>sem_key = guard_key key, sem_id = j, sem_count = 1, sem_size = 1\<rparr> (attach_seg i sg s)"
    using n by (simp add: mutex_free_def sem_ok_def has_sem_def sem_value_def names_set_def)
  with n show "records (attached_obj key i j s) a p c n (attach_seg i sg s)"
    by (simp add: records_def shm_ready_def shm_cells_def seg_at_attached_obj) (simp add: attached_obj_def)
  assume "junk s \<le> length (sg_data sg)"
  with n show "removable (attached_obj key i j s) (attach_seg i sg s)"
    by (simp add: removable_def seg_at_attached_obj) (simp add: attached_obj_def)
qed

lemma attach_seg_more [simp]:
  "out (attach_seg i sg s) = out s" "pr_sent (attach_seg i sg s) = pr_sent s"
  "reachable x (attach_seg i sg s) = reachable x s"
  by (simp_all add: attach_seg_def reachable_def)

lemma attach_seg_texts [simp]:
  "status_text p c (attach_seg i sg s) = status_text p c s"
  "buffer_text k p c n (attach_seg i sg s) = buffer_text k p c n s"
  "stop_answer p c (attach_seg i sg s) = stop_answer p c s" "stop_sent p c (attach_seg i sg s) = stop_sent p c s"
  by (simp_all add: status_text_def buffer_text_def stop_answer_def stop_sent_def)

text \<open>
  \<open>daemonize -s\<close>. With the daemon's records in the segment of its channel, the command answers 0 and
  prints, whatever the records hold: \<open>Missing\<close> when the id of the daemon or of its child is not set, \<open>Dead\<close>
  when the daemon cannot be signalled, \<open>Recovering\<close> when only its child cannot, \<open>Alive\<close> otherwise. It sends no signal
  and changes no record.
\<close>

theorem daemon_status_exact:
  assumes "0 < k" and "k < 2 ^ 31" and "daemon_named (word_of_int k) i sg j gs a p c n s"
  shows "\<exists>t. daemonize_main [''-s'', decimal_int k] s = Fin 0 t \<and>
    out t = out s @ [(status_text (sint p) (sint c) s,
      [k, int (code_of (if reachable (sint p) s then CHR ''P'' else CHR ''p'')), sint p,
       int (code_of (if reachable (sint c) s then CHR ''C'' else CHR ''c'')), sint c, sint n])] \<and>
    pr_sent t = pr_sent s \<and> records (attached_obj (word_of_int k) i j s) a p c n t"
proof -
  note at = daemon_attached [OF assms(3)]
  obtain e where "daemon_status (Obj (attached_obj (word_of_int k) i j s)) k (attach_seg i sg s) =
      Fin 0 ((attach_seg i sg s)\<lparr>err := e, out := out s @ [(status_text (sint p) (sint c) s,
        buffer_text k (sint p) (sint c) (sint n) s)]\<rparr>)"
    using daemon_status_quiet [OF at(2), of k] by auto
  then show ?thesis
    using at by (simp add: daemon_lines(1) [OF assms(1,2)] run_simps pointer_of_def buffer_text_def)
qed

lemma stop_line:
  assumes "0 < k" and "k < 2 ^ 31" and "daemon_named (word_of_int k) i sg j gs a p c n s"
    and "junk s \<le> length (sg_data sg)"
  shows "\<exists>t. daemonize_main [''-K'', decimal_int k] s = Fin (stop_answer (sint p) (sint c) s) t \<and>
    pr_sent t = pr_sent s @ stop_sent (sint p) (sint c) s \<and>
    (if stop_answer (sint p) (sint c) s = 0 then gone (attached_obj (word_of_int k) i j s) t
     else records (attached_obj (word_of_int k) i j s) a p c n t)"
proof -
  note at = daemon_attached(1,2) [OF assms(3)] daemon_attached(3) [OF assms(3,4)]
  let ?o = "attached_obj (word_of_int k) i j s" and ?s = "attach_seg i sg s"
  obtain t where "stop_daemon (Obj ?o) ?s = Fin (stop_answer (sint p) (sint c) ?s) t"
    "pr_sent t = pr_sent ?s @ stop_sent (sint p) (sint c) ?s"
    "if stop_answer (sint p) (sint c) ?s = 0 then gone ?o t else records ?o a p c n t"
    using stop_daemon_quiet [OF at(2,3)] by blast
  then show ?thesis
    using at by (simp add: daemon_lines(2) [OF assms(1,2)] run_simps pointer_of_def)
qed

text \<open>
  C5: \<open>daemonize -K\<close>. Both ids set and both processes within reach, it sends \<open>SIGUSR1\<close> to the child first and
  to the daemon then, removes the segment and its mutex, so that no key names them, and answers 0. In every other case it
  answers 1 (no daemon), 2 (no child) or 3 (child signalled, but no daemon) and removes nothing. The segment has to be at
  least as long as the number the object's uninitialised \<open>size\<close> holds.
\<close>

theorem daemon_stop_exact:
  assumes "0 < k" and "k < 2 ^ 31" and "daemon_named (word_of_int k) i sg j gs a p c n s"
    and "junk s \<le> length (sg_data sg)"
  shows "\<exists>t. daemonize_main [''-K'', decimal_int k] s = Fin (stop_answer (sint p) (sint c) s) t \<and>
    pr_sent t = pr_sent s @ stop_sent (sint p) (sint c) s \<and>
    (if stop_answer (sint p) (sint c) s = 0 then gone (attached_obj (word_of_int k) i j s) t
     else records (attached_obj (word_of_int k) i j s) a p c n t)"
  using assms by (rule stop_line)

text \<open>A daemon as the witnesses find it: channel 5, the daemon is process 40, its child 41.\<close>

definition running :: "u32 \<Rightarrow> dm_os" where
  "running c = (let t = made_shm 5 16 boot_os in os.extend
     (t\<lparr>ker := (ker t)\<lparr>segs := (segs (ker t))(0 \<mapsto> \<lparr>sg_key = 261, sg_data = concat (map word_bytes [1, 40, c, 1]),
        sg_nattch = 1, sg_dest = False\<rparr>)\<rparr>\<rparr>)
     \<lparr>pr_forks = [], pr_waits = [], pr_naps = [], pr_target = (\<lambda>i. i \<in> {- 1, 40, 41}), pr_sent = [],
      pr_blocked = False, pr_jump_unblocks = False, pr_ignored = [], pr_fds = (\<lambda>_. False), pr_fd_limit = Some 1024, pr_exec = None,
      dm_timer = 0, dm_failure = 0, dm_exec = 0\<rparr>)"

lemma cells_word: "cells (word_bytes w @ bs) = w # cells bs"
proof (rule nth_equalityI)
  fix j assume "j < length (cells (word_bytes w @ bs))"
  then show "cells (word_bytes w @ bs) ! j = (w # cells bs) ! j"
    by (cases j) (simp_all add: nth_cells)
qed simp

lemma running_cells: "cells (concat (map word_bytes [1, 40, c, 1])) = [1, 40, c, 1]"
proof -
  have "concat (map word_bytes [1, 40, c, 1]) = word_bytes 1 @ word_bytes 40 @ word_bytes c @ word_bytes 1 @ []" by simp
  then show ?thesis by (simp only: cells_word) (simp add: cells_def)
qed

lemma running_os:
  "script (running c) = []" "mallocs (running c) = []" "ftok_of (running c) = ftok_of boot_os" "junk (running c) = 0"
  "shmkeys (ker (running c)) 261 = Some 0" "semkeys (ker (running c)) 645 = Some 0"
  "sems (ker (running c)) 0 = Some (made_set (guard_key 5) 1 1 boot_os)" "semvmx (ker (running c)) = 32767"
  "segs (ker (running c)) 0 = Some \<lparr>sg_key = 261, sg_data = concat (map word_bytes [1, 40, c, 1]),
     sg_nattch = 1, sg_dest = False\<rparr>"
  "out (running c) = []" "pr_sent (running c) = []" "pr_target (running c) i = (i \<in> {- 1, 40, 41})"
  "pr_blocked (running c) = False" "pr_jump_unblocks (running c) = False" "pr_naps (running c) = []" "dm_timer (running c) = 0"
  by (simp_all add: running_def os.defs made_shm_def Let_def attach_seg_def new_seg_def new_set_def made_seg_def
      made_set_def boot_os_def boot_ipc_def SEMKEY_def SHMKEY_def guard_key_def IPC_PRIVATE_def)

lemma running_named:
  "daemon_named (word_of_int 5) 0 \<lparr>sg_key = 261, sg_data = concat (map word_bytes [1, 40, c, 1]), sg_nattch = 1, sg_dest = False\<rparr>
     0 (made_set (guard_key 5) 1 1 boot_os) 1 40 c 1 (running c)"
  using running_cells [of c]
  by (simp add: daemon_named_def names_seg_def names_set_def running_os key_ok_def SEMKEY_def SHMKEY_def boot_os_def
      guard_key_def IPC_PRIVATE_def made_set_def del: concat.simps list.map)

lemma daemon_status_exact_witness:
  "\<exists>t. daemonize_main [''-s'', decimal_int 5] (running 41) = Fin 0 t \<and>
     out t = [(''%s Alive'', [5, 80, 40, 67, 41, 1])] \<and> pr_sent t = []"
  using daemon_status_exact [of 5, OF _ _ running_named [of 41]]
  by (auto simp: status_text_def reachable_def running_os code_of_def)

lemma daemon_stop_exact_witness:
  "\<exists>t. daemonize_main [''-K'', decimal_int 5] (running 41) = Fin 0 t \<and>
     pr_sent t = [(41, SIGUSR1), (40, SIGUSR1)] \<and> gone (attached_obj 5 0 0 (running 41)) t"
  using daemon_stop_exact [of 5, OF _ _ running_named [of 41]]
  by (auto simp: stop_answer_def stop_sent_def reachable_def running_os)

lemma running_wf: "wf_os (os.extend boot_os r)"
  using wf_boot by (simp add: wf_os_def os.defs)

end
