(* ===== verification/Own_State.thy ===== *)
theory Own_State
  imports SharedMemory
begin

text \<open>
  What the calls on shared memory leave alone: a property of the state that no part of the system
  state enters holds after each of them, however they end. A program that keeps data of
  its own beside the system state gets the frame rules for that data from the locale.
\<close>

named_theorems own \<open>calls that keep a property of a program's own data\<close>

section \<open>The interface\<close>

locale own_state =
  fixes I :: "'z os_scheme \<Rightarrow> bool"
  assumes of_ker [simp]: "I (s\<lparr>ker := k\<rparr>) = I s"
    and of_script [simp]: "I (s\<lparr>script := evs\<rparr>) = I s"
    and of_err [simp]: "I (s\<lparr>err := e\<rparr>) = I s"
    and of_attached [simp]: "I (s\<lparr>attached := at\<rparr>) = I s"
    and of_mallocs [simp]: "I (s\<lparr>mallocs := ms\<rparr>) = I s"
    and of_out [simp]: "I (s\<lparr>out := q\<rparr>) = I s"
    and of_next [simp]: "I (s\<lparr>next_addr := n\<rparr>) = I s"
begin

lemma own_interact [simp]: "I (snd (interact s)) = I s"
  by (simp add: interact_def split: list.split prod.split)

lemma own_fails [simp]: "every (fails e bad s) I = I s"
  by (simp add: fails_def)

lemma own_syscall:
  assumes "\<And>s. I s \<Longrightarrow> every (body s) I"
  shows "keeps (syscall bad body) I"
proof (rule keepsI)
  fix s assume "I s"
  then have "I (snd (interact s))" by simp
  with assms show "every (syscall bad body s) I"
    by (cases "interact s") (auto simp: syscall_def split: option.split)
qed

lemma own_sleep [own]: "keeps (sleep n) I"
proof (rule keepsI)
  fix s assume "I s"
  then have "I (snd (interact s))" by simp
  then show "every (sleep n s) I" by (cases "interact s") (simp add: sleep_def)
qed

lemma own_printf [own]: "keeps (printf f xs) I"
  unfolding printf_def by (rule keeps_modify) simp

lemma own_time [own]: "keeps time_now I"
  by (rule keepsI) (simp add: time_now_def)

lemma own_semctl [own]: "keeps (semctl_rmid i) I" "keeps (semctl_getval i n) I"
  unfolding semctl_rmid_def semctl_getval_def
  by (rule own_syscall, simp split: option.split)+

lemma own_semop_wait: "I s \<Longrightarrow> every (semop_wait i b evs s) I"
  by (induction evs arbitrary: s) (auto simp: Let_def split: option.split attempt.split)

lemma own_semop [own]: "keeps (semop i b) I"
  unfolding semop_def by (rule own_syscall) (auto intro: own_semop_wait split: attempt.split)

lemma own_mem [own]: "keeps (mem_read a off n) I" "keeps (mem_write a off bs) I"
proof -
  have "every (mem_read a off n s) I" "every (mem_write a off bs s) I" if "I s" for s
  proof -
    obtain r t where t: "interact s = (r, t)" by force
    with that own_interact [of s] have "I t" by simp
    with t show "every (mem_read a off n s) I" "every (mem_write a off bs s) I"
      by (auto simp: mem_read_def mem_write_def split: option.split)
  qed
  then show "keeps (mem_read a off n) I" "keeps (mem_write a off bs) I" by (auto intro: keepsI)
qed

lemma own_words [own]: "keeps (load_u32 a j) I" "keeps (store_u32 a j w) I"
  unfolding load_u32_def store_u32_def by (intro own keeps)+

lemma own_segs [own]: "keeps (shmdt a) I" "keeps (shmctl_rmid i) I" "keeps mem_lock_call I"
  unfolding shmdt_def shmctl_rmid_def mem_lock_call_def
  by (rule own_syscall, simp split: option.split address.split)+

lemma own_attempts [own]: "keeps (lock_attempts this b n e) I"
  by (induction n arbitrary: e) (auto intro!: own keeps)

lemma own_Semaphore [own]:
  "keeps (Semaphore_lock this n p t) I" "keeps (Semaphore_unlock this n p) I" "keeps (Semaphore_delete this b) I"
  unfolding Semaphore_lock_def Semaphore_unlock_def Semaphore_used_def Semaphore_delete_def Let_def
  by (intro own keeps)+

lemma own_SharedMemory [own]:
  "keeps (SharedMemory_write_uint shm n v) I" "keeps (SharedMemory_read_uint shm n) I" "keeps (SharedMemory_delete shm b) I"
  unfolding SharedMemory_write_uint_def SharedMemory_read_uint_def SharedMemory_delete_def
  by (intro own keeps)+

lemma own_malloc [own]: "keeps malloc I"
  by (rule keepsI) (simp add: malloc_def split: list.split)

lemma own_make [own]:
  "keeps (semget k n c) I" "keeps (semctl_setall i vs) I" "keeps (shmget k n c) I" "keeps (shmat i) I"
  unfolding semget_def semctl_setall_def shmget_def shmat_def
  by (rule own_syscall, simp add: Let_def split: option.split)+

lemma own_new [own]: "keeps (Semaphore_new k c z b) I" "keeps (SharedMemory_new k m b) I"
proof -
  show *: "keeps (Semaphore_new k c z b) I" for k c z b
    unfolding Semaphore_new_def Semaphore_init_def Let_def by (intro own keeps)
  show "keeps (SharedMemory_new k m b) I"
    unfolding SharedMemory_new_def SharedMemory_segment_def Let_def by (intro own keeps *)
qed

end

section \<open>Partial correctness\<close>

text \<open>From a state with \<open>I\<close>, the run ends with \<open>Q\<close>, or the process stops in it with \<open>S\<close>.\<close>

definition triple :: "('s \<Rightarrow> bool) \<Rightarrow> ('s \<Rightarrow> ('s, 'a) run) \<Rightarrow> ('a \<Rightarrow> 's \<Rightarrow> bool) \<Rightarrow> ('s \<Rightarrow> bool) \<Rightarrow> bool" where
  "triple I m Q S \<longleftrightarrow> (\<forall>s. I s \<longrightarrow> (case m s of Fin a t \<Rightarrow> Q a t | Stop w t \<Rightarrow> S t))"

lemma tripleI: "(\<And>s. I s \<Longrightarrow> case m s of Fin a t \<Rightarrow> Q a t | Stop w t \<Rightarrow> S t) \<Longrightarrow> triple I m Q S"
  by (simp add: triple_def)

lemma tripleD: "triple I m Q S \<Longrightarrow> I s \<Longrightarrow> case m s of Fin a t \<Rightarrow> Q a t | Stop w t \<Rightarrow> S t"
  by (simp add: triple_def)

lemma triple_bind: "triple I m Q S \<Longrightarrow> (\<And>a. triple (Q a) (f a) R S) \<Longrightarrow> triple I (bindr m f) R S"
  by (fastforce simp: triple_def bindr_def split: run.splits)

lemma triple_keeps: "keeps m I \<Longrightarrow> (\<And>s. I s \<Longrightarrow> S s) \<Longrightarrow> triple I m (\<lambda>_. I) S"
  unfolding triple_def keeps_def every_def by (metis final_simps run.exhaust run.simps(5) run.simps(6))

lemma triple_step:
  "keeps m I \<Longrightarrow> (\<And>s. I s \<Longrightarrow> S s) \<Longrightarrow> (\<And>a. triple I (f a) R S) \<Longrightarrow> triple I (bindr m f) R S"
  by (rule triple_bind [OF triple_keeps])

lemma bindr_retr: "bindr (retr a) f = f a"
  by (rule ext) (simp add: bindr_def retr_def)

lemma triple_retr: "(\<And>s. I s \<Longrightarrow> Q a s) \<Longrightarrow> triple I (retr a) Q S"
  by (simp add: triple_def retr_def)

lemma triple_stop: "(\<And>s. I s \<Longrightarrow> S s) \<Longrightarrow> triple I (stop w) Q S"
  by (simp add: triple_def stop_def)

lemma triple_if: "triple I m Q S \<Longrightarrow> triple I m' Q S \<Longrightarrow> triple I (if b then m else m') Q S"
  by simp

lemma triple_mono:
  "triple I m Q S \<Longrightarrow> (\<And>s. J s \<Longrightarrow> I s) \<Longrightarrow> (\<And>a s. Q a s \<Longrightarrow> Q' a s) \<Longrightarrow> (\<And>s. S s \<Longrightarrow> S' s) \<Longrightarrow> triple J m Q' S'"
  by (fastforce simp: triple_def split: run.splits)

lemma triple_final: "triple I m (\<lambda>_. S) S \<Longrightarrow> I s \<Longrightarrow> S (final (m s))"
  by (cases "m s") (auto simp: triple_def)

end
