(* ===== verification/Daemonize_Loop.thy ===== *)
theory Daemonize_Loop
  imports Daemonize_Props Own_State
begin

text \<open>
  The life of the daemon of \<open>daemonize.c\<close>: the number of turns its loop can take, the signals it passes on,
  and what it does on each path of its loop in a quiet system.
\<close>

section \<open>What the daemon's calls leave alone\<close>

lemma handler_fields [simp]:
  "pr_waits (handler g s) = pr_waits s" "pr_naps (handler g s) = pr_naps s" "pr_sent (handler g s) = pr_sent s"
  "pr_jump_unblocks (handler g s) = pr_jump_unblocks s" "pr_blocked (handler g s) = (\<not> pr_jump_unblocks s)"
  "pr_forks (handler g s) = pr_forks s" "pr_target (handler g s) = pr_target s"
  "dm_timer (handler g s) = dm_timer s"
  by (simp_all add: handler_def sigaction_ignore_def)

text \<open>A property of the events ahead and of the signals, which the daemon's own variables do not enter.\<close>

locale daemon_frame = own_state I for I :: "'z dm_os_scheme \<Rightarrow> bool" +
  assumes of_forks [simp]: "I (s\<lparr>pr_forks := fs\<rparr>) = I s"
    and of_ignored [simp]: "I (s\<lparr>pr_ignored := gs\<rparr>) = I s"
    and of_pid [simp]: "I (s\<lparr>pid_self := p\<rparr>) = I s"
    and of_timer [simp]: "I (s\<lparr>dm_timer := n\<rparr>) = I s"
    and of_failure [simp]: "I (s\<lparr>dm_failure := i\<rparr>) = I s"
    and of_exec [simp]: "I (s\<lparr>dm_exec := j\<rparr>) = I s"
begin

lemma own_records [own]:
  "keeps (activate p) I" "keeps (deactivate p) I" "keeps (active p) I" "keeps (set_pid p v) I" "keeps (get_pid p) I"
  "keeps (set_cpid p v) I" "keeps (get_cpid p) I" "keeps (get_count p) I" "keeps (inc_count p) I" "keeps (shm_delete p b) I"
  unfolding activate_def deactivate_def active_def set_pid_def get_pid_def set_cpid_def get_cpid_def
    get_count_def inc_count_def shm_delete_def
  by (intro own keeps)+

lemma own_ending [own]: "keeps (cleanup p) I" "keeps (die p) I"
  unfolding cleanup_def die_def by (intro own keeps)+

lemma own_fork [own]: "keeps fork I"
  by (rule keepsI) (auto simp: fork_def shared_def split: list.split fork_answer.split)

lemma own_exec [own]: "keeps execvp I"
  unfolding execvp_def by (rule own_syscall) (simp split: option.split)

lemma own_install [own]: "keeps (install_handlers p gs) I"
proof (induction gs)
  case (Cons g gs)
  have "keeps (sigaction_handle g) I" unfolding sigaction_handle_def by (rule own_syscall) simp
  with Cons show ?case by (auto intro: own keeps)
qed (auto intro: keeps)

text \<open>
  A turn's ways to a wait and to a sleep: \<open>J\<close> holds when an event of a wait was taken, \<open>K g\<close> when
  the handler ran for a signal.
\<close>

lemma waitpid_triple:
  assumes J: "\<And>s evs. I s \<Longrightarrow> length evs < length (pr_waits s) \<Longrightarrow> J (s\<lparr>pr_waits := evs\<rparr>)"
    and JI: "\<And>s. J s \<Longrightarrow> I s" and err: "\<And>s e. J (s\<lparr>err := e\<rparr>) = J s"
    and K: "\<And>s g. J s \<Longrightarrow> delivered g s \<Longrightarrow> K g (h g s)"
  shows "I s \<Longrightarrow> pr_waits s = evs \<Longrightarrow> case waitpid_events evs h s of
     Fin r t \<Rightarrow> (case r of Inl g \<Rightarrow> K g t | Inr _ \<Rightarrow> J t) | Stop w t \<Rightarrow> I t"
proof (induction evs arbitrary: s)
  case (Cons ev evs)
  let ?t = "s\<lparr>pr_waits := evs\<rparr>"
  have t: "J ?t" using Cons.prems by (intro J) auto
  from Cons.IH [OF JI [OF t]] show ?case
    using t by (auto simp: Let_def fails_def err K split: wait_event.split)
qed auto

lemma wait_triple:
  assumes J: "\<And>s evs. I s \<Longrightarrow> length evs < length (pr_waits s) \<Longrightarrow> J (s\<lparr>pr_waits := evs\<rparr>)"
    and JI: "\<And>s. J s \<Longrightarrow> I s" and err: "\<And>s e. J (s\<lparr>err := e\<rparr>) = J s"
    and K: "\<And>s g. J s \<Longrightarrow> delivered g s \<Longrightarrow> K g ((handler g s)\<lparr>dm_exec := int (junk s)\<rparr>)" and stop: "\<And>s. I s \<Longrightarrow> S s"
  shows "triple I (wait_for_signal pid) (\<lambda>j. case j of None \<Rightarrow> J | Some g \<Rightarrow> K g) S"
proof -
  have wp: "triple I (waitpid (\<lambda>g s. (handler g s)\<lparr>dm_exec := int (junk s)\<rparr>)) (\<lambda>r. case r of Inl g \<Rightarrow> K g | Inr _ \<Rightarrow> J) S"
  proof (rule tripleI)
    fix s assume "I s"
    then have i: "I (snd (interact s))" by simp
    have w: "pr_waits (snd (interact s)) = pr_waits s" by (simp add: interact_def split: list.split prod.split)
    from waitpid_triple [of J K "\<lambda>g s. (handler g s)\<lparr>dm_exec := int (junk s)\<rparr>", OF J JI err K i w]
    show "case waitpid (\<lambda>g s. (handler g s)\<lparr>dm_exec := int (junk s)\<rparr>) s of
        Fin r t \<Rightarrow> (case r of Inl g \<Rightarrow> K g | Inr _ \<Rightarrow> J) t | Stop w t \<Rightarrow> S t"
      by (auto simp: waitpid_def stop split: run.splits sum.splits)
  qed
  have "triple (case r of Inl g \<Rightarrow> K g | Inr _ \<Rightarrow> J) (case r of
       Inl g \<Rightarrow> retr (Some g)
     | Inr None \<Rightarrow> stop Undefined
     | Inr (Some status) \<Rightarrow>
         (case status of W_exited _ \<Rightarrow> retr None | W_signaled _ \<Rightarrow> retr None | W_stopped _ \<Rightarrow> stop Hangs
          | W_continued \<Rightarrow> stop Hangs | W_other _ \<Rightarrow> stop Hangs))
     (\<lambda>j. case j of None \<Rightarrow> J | Some g \<Rightarrow> K g) S" for r
    by (auto intro!: triple_retr triple_stop stop JI split: sum.split option.split wait_status.split)
  from triple_bind [OF wp this] show ?thesis by (simp add: wait_for_signal_def)
qed

lemma nap_triple:
  assumes take: "\<And>s p ps. I s \<Longrightarrow> pr_naps s = p # ps \<Longrightarrow> I (s\<lparr>pr_naps := ps\<rparr>)" and stop: "\<And>s. I s \<Longrightarrow> S s"
    and K: "\<And>s g ps. I s \<Longrightarrow> pr_naps s = Some g # ps \<Longrightarrow> delivered g (s\<lparr>pr_naps := ps\<rparr>) \<Longrightarrow>
      K g (h g (s\<lparr>pr_naps := ps\<rparr>))"
  shows "triple I (nap n h) (\<lambda>j. case j of None \<Rightarrow> I | Some g \<Rightarrow> K g) S"
proof (rule tripleI)
  fix s assume s: "I s"
  have slp: "\<exists>u. bindr (sleep n) (\<lambda>_. retr None) t = Fin (None :: signal option) u \<and> I u" if "I t" for t
  proof -
    obtain u where u: "sleep n t = Fin () u" using sleep_returns by blast
    moreover have "I u" using keepsD [OF own_sleep [of n] that] u by simp
    ultimately show ?thesis by (simp add: run_simps)
  qed
  show "case nap n h s of Fin j t \<Rightarrow> (case j of None \<Rightarrow> I | Some g \<Rightarrow> K g) t | Stop w t \<Rightarrow> S t"
  proof (cases "pr_naps s")
    case Nil
    with slp [OF s] show ?thesis by (auto simp: nap_def)
  next
    case (Cons p ps)
    with slp [OF take [OF s Cons]] K [OF s] show ?thesis
      by (auto simp: nap_def Let_def split: option.split)
  qed
qed

lemma run_command_triple:
  assumes wait: "\<And>pid. triple I (wait_for_signal pid) Q S" and stop: "\<And>s. I s \<Longrightarrow> S s"
    and ret: "\<And>s. Q None s \<Longrightarrow> J s" "\<And>g s. Q (Some g) s \<Longrightarrow> K g s"
    and J: "\<And>k s. J (s\<lparr>dm_failure := k\<rparr>) = J s" "keeps time_now J" "\<And>s. J s \<Longrightarrow> S s"
  shows "triple I (run_command p) (\<lambda>j. case j of None \<Rightarrow> J | Some g \<Rightarrow> K g) S"
proof -
  have mod: "keeps (modify f) I" if "\<And>s. I (f s) = I s" for f
    using that by (auto intro: keeps_modify)
  have child: "triple I (bindr (inc_count p) (\<lambda>_. bindr (get_count p) (\<lambda>_. bindr execvp (\<lambda>_. die p)))) R S" for R
  proof -
    have "triple I (bindr (set_pid p 0) (\<lambda>_. bindr (set_cpid p 0) (\<lambda>_.
       bindr (if p \<noteq> Null then bindr (deactivate p) (\<lambda>_. shm_delete p True) else retr ()) (\<lambda>_.
       stop (Exited EXIT_FAILURE))))) R S"
      by (intro triple_step triple_stop own keeps stop) assumption+
    then have "triple I (die p) R S" by (simp add: die_def)
    then show ?thesis by (intro triple_step own stop) assumption+
  qed
  have after: "triple (Q j) (case j of Some g \<Rightarrow> retr (Some g)
      | None \<Rightarrow> bindr time_now (\<lambda>now. bindr (modify (\<lambda>s. s\<lparr>dm_failure := now\<rparr>)) (\<lambda>_. retr None)))
      (\<lambda>j. case j of None \<Rightarrow> J | Some g \<Rightarrow> K g) S" for j
  proof (cases j)
    case None
    have "triple J (bindr time_now (\<lambda>now. bindr (modify (\<lambda>s. s\<lparr>dm_failure := now\<rparr>)) (\<lambda>_. retr None)))
      (\<lambda>j. case j of None \<Rightarrow> J | Some g \<Rightarrow> K g) S"
      using J by (intro triple_step triple_retr keeps_modify) auto
    then show ?thesis using None ret by (auto elim: triple_mono)
  qed (auto intro!: triple_retr ret)
  show ?thesis
    unfolding run_command_def
    by (intro triple_step triple_if child triple_bind [OF wait after] own mod stop) simp_all
qed

lemma end_of_turn_triple:
  assumes nap: "\<And>n. triple I (nap n (\<lambda>g s. (handler g s)\<lparr>dm_timer := junk s\<rparr>)) (\<lambda>j. case j of None \<Rightarrow> J | Some g \<Rightarrow> K g) S"
    and stop: "\<And>s. I s \<Longrightarrow> S s" and J: "\<And>s. I s \<Longrightarrow> J s"
  shows "triple I (end_of_turn p) (\<lambda>r. case r of Ended _ \<Rightarrow> J | Jumped g \<Rightarrow> K g) S"
proof -
  have mod: "keeps (modify f) I" if "\<And>s. I (f s) = I s" for f
    using that by (auto intro: keeps_modify)
  have last: "triple (case j of None \<Rightarrow> J | Some g \<Rightarrow> K g) (retr (case j of Some g \<Rightarrow> Jumped g | None \<Rightarrow> Ended p))
      (\<lambda>r. case r of Ended _ \<Rightarrow> J | Jumped g \<Rightarrow> K g) S" for j
    by (rule triple_retr) (cases j; simp)
  show ?thesis
    unfolding end_of_turn_def
    by (intro triple_step triple_if triple_stop triple_bind [OF nap last] triple_retr own keeps mod stop) (simp_all add: J)
qed

end

section \<open>The number of turns\<close>

text \<open>The events ahead. A turn that jumps or that waits takes one of them.\<close>

definition events :: "'z proc_os_scheme \<Rightarrow> nat" where
  "events s = length (pr_waits s) + length (pr_naps s)"

definition within :: "nat \<Rightarrow> 'z proc_os_scheme \<Rightarrow> bool" where
  "within k s \<longleftrightarrow> events s \<le> k"

lemma within_simps [simp]:
  "within k (s\<lparr>ker := x\<rparr>) = within k s" "within k (s\<lparr>script := evs\<rparr>) = within k s"
  "within k (s\<lparr>err := e\<rparr>) = within k s" "within k (s\<lparr>attached := at\<rparr>) = within k s"
  "within k (s\<lparr>mallocs := ms\<rparr>) = within k s" "within k (s\<lparr>out := q\<rparr>) = within k s"
  "within k (s\<lparr>pr_forks := fs\<rparr>) = within k s" "within k (s\<lparr>pr_ignored := gs\<rparr>) = within k s"
  "within k (s\<lparr>pid_self := pd\<rparr>) = within k s" "within k (s\<lparr>pr_sent := sn\<rparr>) = within k s"
  "within k (s\<lparr>pr_blocked := b\<rparr>) = within k s" "within k (s\<lparr>next_addr := n\<rparr>) = within k s"
  by (simp_all add: within_def events_def)

lemma within_dm_simps [simp]:
  "within k (s\<lparr>dm_timer := a\<rparr>) = within k s" "within k (s\<lparr>dm_failure := i\<rparr>) = within k s"
  "within k (s\<lparr>dm_exec := i\<rparr>) = within k s" "within k (handler g s) = within k s"
  by (simp_all add: within_def events_def handler_def sigaction_ignore_def)

lemma within_pred: "within (k - 1) s \<Longrightarrow> within k s"
  by (simp add: within_def)

interpretation budget: daemon_frame "within k" for k
  by unfold_locales simp_all

lemma budget_kill [own]: "keeps (kill p g :: 'z dm_os_scheme \<Rightarrow> ('z dm_os_scheme, int) run) (within k)"
  unfolding kill_def by (rule budget.own_syscall) (simp split: option.split)

lemma budget_end:
  "triple (within k) (end_of_turn p) (\<lambda>r s. case r of Ended _ \<Rightarrow> within k s | Jumped g \<Rightarrow> within (k - 1) s \<and> 0 < k) (within k)"
proof -
  have "triple (within k) (nap n (\<lambda>g s. (handler g s)\<lparr>dm_timer := junk s\<rparr>))
      (\<lambda>j. case j of None \<Rightarrow> within k | Some g \<Rightarrow> (\<lambda>s. within (k - 1) s \<and> 0 < k)) (within k)" for n
    by (rule budget.nap_triple) (auto simp: within_def events_def)
  then have "triple (within k) (end_of_turn p)
      (\<lambda>r. case r of Ended _ \<Rightarrow> within k | Jumped g \<Rightarrow> (\<lambda>s. within (k - 1) s \<and> 0 < k)) (within k)"
    by (rule budget.end_of_turn_triple) simp_all
  then show ?thesis by (rule triple_mono) (auto split: turn.splits)
qed

lemma budget_run:
  "triple (within k) (run_command p) (\<lambda>_ s. within (k - 1) s \<and> 0 < k) (within k)"
proof -
  let ?J = "\<lambda>s. within (k - 1) s \<and> 0 < k"
  have wait: "triple (within k) (wait_for_signal pid) (\<lambda>j. case j of None \<Rightarrow> ?J | Some g \<Rightarrow> ?J) (within k)" for pid
    by (rule budget.wait_triple) (auto simp: within_def events_def)
  have "triple (within k) (run_command p) (\<lambda>j. case j of None \<Rightarrow> ?J | Some g \<Rightarrow> ?J) (within k)"
    by (rule budget.run_command_triple [OF wait]) (auto intro: keepsI within_pred simp: time_now_def)
  then show ?thesis by (rule triple_mono) (auto split: option.splits)
qed

text \<open>A turn from the start of the loop, and a turn after a jump.\<close>

lemma budget_turn:
  "triple (within k) (daemon_turn p None) (\<lambda>_ s. within (k - 1) s \<and> 0 < k) (within k)"
proof -
  have "triple (\<lambda>s. within (k - 1) s \<and> 0 < k) (case j of Some g \<Rightarrow> retr (Jumped g) | None \<Rightarrow> end_of_turn p)
      (\<lambda>_ s. within (k - 1) s \<and> 0 < k) (within k)" for j :: "signal option"
  proof (cases j)
    case None
    have "triple (\<lambda>s. within (k - 1) s \<and> 0 < k) (end_of_turn p) (\<lambda>_ s. within (k - 1) s \<and> 0 < k) (within k)"
      by (cases "0 < k", rule triple_mono [OF budget_end [of "k - 1"]])
        (auto simp: within_def triple_def split: turn.splits)
    with None show ?thesis by simp
  qed (auto intro: triple_retr)
  from triple_bind [OF budget_run this] show ?thesis by (simp add: daemon_turn_def)
qed

lemma budget_jumped:
  "triple (within k) (daemon_turn p (Some g)) (\<lambda>r s. case r of Ended _ \<Rightarrow> within k s | Jumped g \<Rightarrow> within (k - 1) s \<and> 0 < k)
     (within k)"
proof -
  have "triple (within k) (on_signal p g) (\<lambda>_. within k) (within k)"
    unfolding on_signal_def
    by (intro triple_keeps own keeps) simp
  from triple_bind [OF this budget_end [of k p]] show ?thesis
    by (simp add: daemon_turn_def bindr_assoc bindr_retr)
qed

text \<open>The loop takes a turn or two for each event: a larger bound changes nothing.\<close>

definition turns_left :: "nat \<Rightarrow> signal option \<Rightarrow> nat" where
  "turns_left k j = 2 * k + (if j = None then 1 else 2)"

lemma loop_enough:
  fixes s :: "'z dm_os_scheme"
  shows "within k s \<Longrightarrow> turns_left k j \<le> n \<Longrightarrow> turns_left k j \<le> m \<Longrightarrow> daemon_loop n p j s = daemon_loop m p j s"
proof (induction n arbitrary: m p j s k)
  case 0
  then show ?case by (simp add: turns_left_def split: if_splits)
next
  case (Suc n)
  obtain m' where m: "m = Suc m'" using Suc.prems(3) by (cases m) (auto simp: turns_left_def split: if_splits)
  have go: "daemon_loop n q i t = daemon_loop m' q i t" if "within k' t" "turns_left k' i \<le> n" "turns_left k' i \<le> m'" for k' q i and t :: "'z dm_os_scheme"
    using Suc.IH that by blast
  have again: "bindr (active q) (\<lambda>a. if a then daemon_loop n q None else retr ()) t =
      bindr (active q) (\<lambda>a. if a then daemon_loop m' q None else retr ()) t"
    if "within k' t" "turns_left k' None \<le> n" "turns_left k' None \<le> m'" for k' q and t :: "'z dm_os_scheme"
    using go [of k' _ None q] that keepsD [OF budget.own_records(3) [of q] that(1)]
    by (cases "active q t") (simp_all add: bindr_def)
  show ?case
  proof (cases "daemon_turn p j s")
    case (Fin r t)
    have res: "case r of Jumped g \<Rightarrow> within (k - 1) t \<and> 0 < k
        | Ended _ \<Rightarrow> (if j = None then within (k - 1) t \<and> 0 < k else within k t)"
    proof (cases j)
      case None
      with tripleD [OF budget_turn [of k p] Suc.prems(1)] Fin show ?thesis by (simp split: turn.split)
    next
      case (Some g)
      with tripleD [OF budget_jumped [of k p g] Suc.prems(1)] Fin show ?thesis by (simp split: turn.splits)
    qed
    show ?thesis
    proof (cases r)
      case (Jumped g)
      with res Fin go [of "k - 1" t "Some g" p] Suc.prems show ?thesis
        by (simp add: m bindr_Fin turns_left_def split: if_splits)
    next
      case (Ended q)
      with res Fin again [of "if j = None then k - 1 else k" t q] Suc.prems show ?thesis
        by (cases k) (simp_all add: m bindr_Fin turns_left_def split: if_splits)
    qed
  qed (simp add: m bindr_Stop)
qed


section \<open>Signals passed on\<close>

text \<open>
  When \<open>setjmp\<close> does not restore the signal mask: at most \<open>k\<close> signals were sent, or one more and
  the daemon is deaf; and what holds right after a jump.
\<close>

definition quiet_daemon :: "nat \<Rightarrow> 'z proc_os_scheme \<Rightarrow> bool" where
  "quiet_daemon k s \<longleftrightarrow> \<not> pr_jump_unblocks s \<and>
     (length (pr_sent s) \<le> k \<or> pr_blocked s \<and> length (pr_sent s) \<le> Suc k)"

definition after_jump :: "nat \<Rightarrow> 'z proc_os_scheme \<Rightarrow> bool" where
  "after_jump k s \<longleftrightarrow> \<not> pr_jump_unblocks s \<and> pr_blocked s \<and> length (pr_sent s) \<le> k"

definition few_sent :: "nat \<Rightarrow> 'z proc_os_scheme \<Rightarrow> bool" where
  "few_sent k s \<longleftrightarrow> length (pr_sent s) \<le> Suc k"

lemma quiet_few: "quiet_daemon k s \<Longrightarrow> few_sent k s" "after_jump k s \<Longrightarrow> few_sent k s" "after_jump k s \<Longrightarrow> quiet_daemon k s"
  by (auto simp: quiet_daemon_def after_jump_def few_sent_def)

interpretation deaf: daemon_frame "quiet_daemon k" for k
  by unfold_locales (simp_all add: quiet_daemon_def)

interpretation jumped: daemon_frame "after_jump k" for k
  by unfold_locales (simp_all add: after_jump_def)

lemma deaf_end:
  "triple (quiet_daemon k) (end_of_turn p) (\<lambda>r. case r of Ended _ \<Rightarrow> quiet_daemon k | Jumped g \<Rightarrow> after_jump k) (few_sent k)"
proof -
  have "triple (quiet_daemon k) (nap n (\<lambda>g s. (handler g s)\<lparr>dm_timer := junk s\<rparr>))
      (\<lambda>j. case j of None \<Rightarrow> quiet_daemon k | Some g \<Rightarrow> after_jump k) (few_sent k)" for n
    by (rule deaf.nap_triple) (auto simp: quiet_daemon_def after_jump_def few_sent_def delivered_def)
  then show ?thesis by (rule deaf.end_of_turn_triple) (auto intro: quiet_few)
qed

lemma deaf_run:
  "triple (quiet_daemon k) (run_command p) (\<lambda>j. case j of None \<Rightarrow> quiet_daemon k | Some g \<Rightarrow> after_jump k) (few_sent k)"
proof -
  have wait: "triple (quiet_daemon k) (wait_for_signal pid) (\<lambda>j. case j of None \<Rightarrow> quiet_daemon k | Some g \<Rightarrow> after_jump k)
      (few_sent k)" for pid
    by (rule deaf.wait_triple) (auto simp: quiet_daemon_def after_jump_def few_sent_def delivered_def)
  show ?thesis
    by (rule deaf.run_command_triple [OF wait, where J = "quiet_daemon k" and K = "\<lambda>_. after_jump k"])
      (auto intro: quiet_few deaf.own_time)
qed

lemma jumped_on_signal:
  "triple (after_jump k) (on_signal p g :: 'z dm_os_scheme \<Rightarrow> ('z dm_os_scheme, unit) run) (\<lambda>_. quiet_daemon k) (few_sent k)"
proof -
  have kill: "triple (after_jump k) (kill pid (Some g) :: 'z dm_os_scheme \<Rightarrow> ('z dm_os_scheme, int) run)
      (\<lambda>_. quiet_daemon k) (few_sent k)" for pid
  proof (rule tripleI)
    fix s :: "'z dm_os_scheme" assume s: "after_jump k s"
    obtain r t where t: "interact s = (r, t)" by force
    with s jumped.own_interact [of k s] have "after_jump k t" by simp
    with t show "case kill pid (Some g) s of Fin a t \<Rightarrow> quiet_daemon k t | Stop w t \<Rightarrow> few_sent k t"
      by (auto simp: kill_def syscall_def fails_def after_jump_def quiet_daemon_def split: option.split)
  qed
  have die: "triple (quiet_daemon k) (die p :: 'z dm_os_scheme \<Rightarrow> ('z dm_os_scheme, unit) run) (\<lambda>_. quiet_daemon k) (few_sent k)"
    by (rule triple_keeps [OF deaf.own_ending(2) quiet_few(1)])
  have now: "triple (after_jump k) (die p :: 'z dm_os_scheme \<Rightarrow> ('z dm_os_scheme, unit) run) (\<lambda>_. quiet_daemon k) (few_sent k)"
    by (rule triple_mono [OF die]) (auto intro: quiet_few(3))
  show ?thesis
    unfolding on_signal_def
    by (intro triple_if triple_step [OF jumped.own_records(7)] triple_bind [OF kill] die now triple_retr quiet_few(2))
qed

lemma deaf_loop:
  "triple (case j of None \<Rightarrow> quiet_daemon k | Some g \<Rightarrow> after_jump k)
     (daemon_loop n p j :: 'z dm_os_scheme \<Rightarrow> ('z dm_os_scheme, unit) run) (\<lambda>_. few_sent k) (few_sent k)"
proof (induction n arbitrary: p j)
  case 0
  then show ?case by (cases j) (auto simp: triple_def stop_def quiet_few)
next
  case (Suc n)
  have turn: "triple (case j of None \<Rightarrow> quiet_daemon k | Some g \<Rightarrow> after_jump k) (daemon_turn p j)
      (\<lambda>r. case r of Ended _ \<Rightarrow> quiet_daemon k | Jumped g \<Rightarrow> after_jump k) (few_sent k)"
  proof (cases j)
    case None
    have "triple (case i of None \<Rightarrow> quiet_daemon k | Some g \<Rightarrow> after_jump k)
        (case i of Some g \<Rightarrow> retr (Jumped g) | None \<Rightarrow> end_of_turn p)
        (\<lambda>r. case r of Ended _ \<Rightarrow> quiet_daemon k | Jumped g \<Rightarrow> after_jump k) (few_sent k)" for i :: "signal option"
      using deaf_end by (cases i) (auto intro: triple_retr)
    from triple_bind [OF deaf_run this] None show ?thesis by (simp add: daemon_turn_def)
  next
    case (Some g)
    from triple_bind [OF jumped_on_signal deaf_end [of k p]] Some show ?thesis
      by (simp add: daemon_turn_def bindr_assoc bindr_retr)
  qed
  have "triple (case r of Ended _ \<Rightarrow> quiet_daemon k | Jumped g \<Rightarrow> after_jump k)
      (case r of Jumped g \<Rightarrow> daemon_loop n p (Some g)
        | Ended q \<Rightarrow> bindr (active q) (\<lambda>a. if a then (daemon_loop n q None :: 'z dm_os_scheme \<Rightarrow> _) else retr ()))
      (\<lambda>_. few_sent k) (few_sent k)" for r
  proof (cases r)
    case (Ended q)
    then show ?thesis
      using Suc.IH [of None q]
      by (auto intro!: triple_step [OF deaf.own_records(3)] triple_if triple_retr quiet_few(1))
  qed (use Suc.IH [of "Some g" for g] in simp)
  from triple_bind [OF turn this] show ?case by simp
qed

text \<open>
  C11: the daemon goes deaf. Where \<open>longjmp\<close> does not restore the signal mask (POSIX leaves it open, and Linux
  does not), the handler's mask, which blocks everything, stays after the first jump. The daemon then
  passes at most one signal on in its whole life, whatever is sent to it and whatever else happens.
\<close>

theorem daemon_passes_one_signal:
  assumes "\<not> pr_jump_unblocks s"
  shows "length (pr_sent (final (daemon_loop n p None s))) \<le> Suc (length (pr_sent s))"
proof -
  have "quiet_daemon (length (pr_sent s)) s" using assms by (simp add: quiet_daemon_def)
  with deaf_loop [where j = None and k = "length (pr_sent s)" and n = n and p = p]
  have "few_sent (length (pr_sent s)) (final (daemon_loop n p None s))"
    unfolding option.case by (rule triple_final)
  then show ?thesis by (simp add: few_sent_def)
qed

end
