(* ===== verification/Daemonize_Paths.thy ===== *)
theory Daemonize_Paths
  imports Daemonize_Loop
begin

text \<open>
  The paths through \<open>start\<close> and through the daemon's loop in a quiet system, step by step: what the
  records hold, which signals go where, and how the process ends.
\<close>

section \<open>Steps\<close>

lemma records_clock [simp]:
  "records shm a p c n (s\<lparr>ker := (ker s)\<lparr>clock := x\<rparr>\<rparr>) = records shm a p c n s"
  by (simp add: records_def shm_clock)

lemma install_all:
  assumes "script s = []"
  shows "install_handlers p handled_signals s = Fin () (s\<lparr>pr_ignored := []\<rparr>)"
proof -
  have "removeAll SIGALRM (removeAll SIGCHLD (removeAll SIGHUP (removeAll SIGINT (removeAll SIGUSR2
      (removeAll SIGUSR1 (removeAll SIGTERM gs)))))) = []" for gs
  proof (induction gs)
    case (Cons g gs)
    then show ?case by (cases g) simp_all
  qed simp
  with assms show ?thesis
    by (simp add: handled_signals_def sigaction_handle_def run_simps)
qed

definition fork_pid :: "fork_answer \<Rightarrow> int" where
  "fork_pid f = (case f of Parent_of q \<Rightarrow> int q | Child _ \<Rightarrow> 0 | No_process _ \<Rightarrow> - 1)"

lemma fork_quiet:
  assumes r: "records shm a p c n s" and rem: "removable shm s" and f: "pr_forks s = f # fs" "fork_pid f \<noteq> 0"
  obtains k e where "fork s = Fin (fork_pid f) (s\<lparr>err := e, pr_forks := fs, ker := k\<rparr>)"
    and "records shm a p c n (s\<lparr>err := e, pr_forks := fs, ker := k\<rparr>)"
    and "removable shm (s\<lparr>err := e, pr_forks := fs, ker := k\<rparr>)" and "clock k = clock (ker s)"
    and "\<exists>g. k = (ker s)\<lparr>segs := g\<rparr>"
proof (cases f)
  case (Parent_of q)
  have "s\<lparr>err := err s, pr_forks := fs, ker := ker (shared s)\<rparr> = (shared s)\<lparr>pr_forks := fs\<rparr>"
    by (simp add: shared_def)
  note eq = that [of "ker (shared s)" "err s", unfolded this]
  from Parent_of f records_shared [OF r] removable_shared [OF rem] show thesis
    by (intro eq) (simp_all add: fork_def fork_pid_def, simp_all add: shared_def attach_upto_segs)
next
  case (No_process e)
  with f r rem show thesis
    by (intro that [of "ker s" e]) (auto simp: fork_def fork_pid_def fails_def intro: exI [of _ "segs (ker s)"])
qed (use f in \<open>simp add: fork_pid_def\<close>)

text \<open>The parent's part of a normal start, up to the wait.\<close>

definition after_wait :: "signal option \<Rightarrow> 'z dm_os_scheme \<Rightarrow> ('z dm_os_scheme, signal option) run" where
  "after_wait j = (case j of Some g \<Rightarrow> retr (Some g)
     | None \<Rightarrow> bindr time_now (\<lambda>now. bindr (modify (\<lambda>s. s\<lparr>dm_failure := now\<rparr>)) (\<lambda>_. retr None)))"

lemma run_command_parent:
  assumes r: "records shm a p c n s" and rem: "removable shm s" and f: "pr_forks s = f # fs" "fork_pid f \<noteq> 0"
  obtains k e t where "run_command (Obj shm) s = bindr (wait_for_signal (fork_pid f)) after_wait t"
    and "t = s\<lparr>dm_timer := (if dm_failure s - dm_exec s > 5 then 0 else dm_timer s), pr_ignored := [],
      dm_exec := clock (ker s), err := e, pr_forks := fs, ker := k\<rparr>"
    and "records shm 1 p (word_of_int (fork_pid f)) n t" and "removable shm t" and "clock (ker t) = clock (ker s)"
    and "\<exists>g. ker t = (ker s)\<lparr>segs := g\<rparr>"
proof -
  let ?T = "if dm_failure s - dm_exec s > 5 then 0 else dm_timer s"
  let ?s = "s\<lparr>dm_timer := ?T, pr_ignored := [], dm_exec := clock (ker s)\<rparr>"
  have aw: "after_wait = case_option (bindr time_now (\<lambda>now. bindr (modify (\<lambda>s. s\<lparr>dm_failure := now\<rparr>)) (\<lambda>_. retr None)))
      (\<lambda>g. retr (Some g))"
    by (rule ext) (simp add: after_wait_def split: option.split)
  have "script s = []" using r by (rule records_script)
  then have start: "run_command (Obj shm) s = bindr fork (\<lambda>cpid. if cpid = 0 then
       bindr (inc_count (Obj shm)) (\<lambda>_. bindr (get_count (Obj shm)) (\<lambda>_. bindr execvp (\<lambda>_. die (Obj shm))))
     else bindr (set_cpid (Obj shm) cpid) (\<lambda>_. bindr (activate (Obj shm)) (\<lambda>_. bindr (wait_for_signal cpid) after_wait))) ?s"
    unfolding aw
    by (cases "dm_failure s - dm_exec s > 5") (simp_all add: run_command_def run_simps install_all time_now_def)
  let ?u = "\<lambda>k e. ?s\<lparr>err := e, pr_forks := fs, ker := k\<rparr>"
  obtain k e where u: "fork ?s = Fin (fork_pid f) (?u k e)" "records shm a p c n (?u k e)" "removable shm (?u k e)"
    "\<exists>g. k = (ker s)\<lparr>segs := g\<rparr>"
    by (rule fork_quiet [of shm a p c n ?s f fs]) (use r rem f in simp_all)
  obtain g where v: "set_cpid (Obj shm) (fork_pid f) (?u k e) = Fin () (?u (k\<lparr>segs := g\<rparr>) e)"
    "records shm a p (word_of_int (fork_pid f)) n (?u (k\<lparr>segs := g\<rparr>) e)" "removable shm (?u (k\<lparr>segs := g\<rparr>) e)"
    by (rule set_cids [OF u(2), of "fork_pid f"]) (use u(3) in simp)
  obtain h where w: "activate (Obj shm) (?u (k\<lparr>segs := g\<rparr>) e) = Fin () (?u (k\<lparr>segs := h\<rparr>) e)"
    "records shm 1 p (word_of_int (fork_pid f)) n (?u (k\<lparr>segs := h\<rparr>) e)" "removable shm (?u (k\<lparr>segs := h\<rparr>) e)"
    by (rule set_active [OF v(2), of True]) (use v(3) in simp)
  have "run_command (Obj shm) s = bindr (wait_for_signal (fork_pid f)) after_wait (?u (k\<lparr>segs := h\<rparr>) e)"
    using start u(1) v(1) w(1) f(2) by (simp add: bindr_Fin)
  moreover obtain j where j: "k = (ker s)\<lparr>segs := j\<rparr>" using u(4) by blast
  then have "\<exists>g. ker (?u (k\<lparr>segs := h\<rparr>) e) = (ker s)\<lparr>segs := g\<rparr>" by (intro exI [of _ h]) simp
  moreover have "clock (ker (?u (k\<lparr>segs := h\<rparr>) e)) = clock (ker s)" by (simp add: j)
  ultimately show thesis by (intro that [OF _ refl w(2,3)])
qed

lemma wait_signalled:
  assumes "script s = []" and "pr_waits s = Signalled g # evs" and "\<not> pr_blocked s" and "pr_ignored s = []"
  shows "wait_for_signal pid s =
    Fin (Some g) ((handler g (s\<lparr>pr_waits := evs\<rparr>))\<lparr>dm_exec := int (junk s)\<rparr>)"
  using assms by (simp add: wait_for_signal_def waitpid_def delivered_def Let_def run_simps)

lemma wait_nothing: "script s = [] \<Longrightarrow> pr_waits s = [] \<Longrightarrow> wait_for_signal pid s = Stop Hangs s"
  by (simp add: wait_for_signal_def waitpid_def run_simps)

text \<open>One turn of a daemon that is signalled while it waits.\<close>

lemma turn_signalled:
  assumes r: "records shm a p c n s" and rem: "removable shm s" and f: "pr_forks s = f # fs" "fork_pid f \<noteq> 0"
    and w: "pr_waits s = Signalled g # evs" "\<not> pr_blocked s"
  obtains t where "daemon_turn (Obj shm) None s = Fin (Jumped g) t"
    and "records shm 1 p (word_of_int (fork_pid f)) n t" and "removable shm t"
    and "pr_forks t = fs" and "pr_waits t = evs" and "pr_naps t = pr_naps s" and "pr_sent t = pr_sent s"
    and "pr_target t = pr_target s" and "dm_timer t = (if dm_failure s - dm_exec s > 5 then 0 else dm_timer s)"
proof -
  obtain k e t where t: "run_command (Obj shm) s = bindr (wait_for_signal (fork_pid f)) after_wait t"
    "t = s\<lparr>dm_timer := (if dm_failure s - dm_exec s > 5 then 0 else dm_timer s), pr_ignored := [],
      dm_exec := clock (ker s), err := e, pr_forks := fs, ker := k\<rparr>"
    "records shm 1 p (word_of_int (fork_pid f)) n t" "removable shm t"
    using run_command_parent [OF r rem f] by blast
  let ?u = "(handler g (t\<lparr>pr_waits := evs\<rparr>))\<lparr>dm_exec := int (junk t)\<rparr>"
  have "wait_for_signal (fork_pid f) t = Fin (Some g) ?u"
    by (rule wait_signalled [OF records_script [OF t(3)]]) (use w t(2) in simp_all)
  with t(1) have "daemon_turn (Obj shm) None s = Fin (Jumped g) ?u"
    by (simp add: daemon_turn_def run_simps after_wait_def)
  moreover have "records shm 1 p (word_of_int (fork_pid f)) n ?u" "removable shm ?u"
    using t(3,4) by simp_all
  ultimately show thesis by (rule that) (simp_all add: t(2))
qed

lemma kill_reachable:
  assumes "script s = []" and "pid = 0 \<or> pr_target s pid"
  shows "kill pid (Some g) s = Fin 0 (s\<lparr>pr_sent := pr_sent s @ [(pid, g)]\<rparr>)"
  using assms by (simp add: kill_quiet reachable_def)

lemma die_gone:
  fixes s :: "'z os_scheme"
  assumes r: "records shm a p c n s" and rem: "removable shm s"
  shows "\<exists>k at. (die (Obj shm) s :: ('z os_scheme, 'r) run) = Stop (Exited 1) (s\<lparr>ker := k, attached := at\<rparr>) \<and>
    gone shm (s\<lparr>ker := k, attached := at\<rparr>)"
proof -
  let ?rest = "\<lambda>_. bindr (bindr (deactivate (Obj shm)) (\<lambda>_. shm_delete (Obj shm) True)) (\<lambda>_. stop (Exited EXIT_FAILURE)) ::
    'z os_scheme \<Rightarrow> ('z os_scheme, 'r) run"
  obtain k where k: "die (Obj shm) s = ?rest () (s\<lparr>ker := k\<rparr>)" "records shm a 0 0 n (s\<lparr>ker := k\<rparr>)" "removable shm (s\<lparr>ker := k\<rparr>)"
    using clear_ids [OF r rem, where m = ?rest] by (auto simp: die_def)
  obtain f where f: "deactivate (Obj shm) (s\<lparr>ker := k\<rparr>) = Fin () (s\<lparr>ker := k\<lparr>segs := f\<rparr>\<rparr>)"
    "records shm 0 0 0 n (s\<lparr>ker := k\<lparr>segs := f\<rparr>\<rparr>)" "removable shm (s\<lparr>ker := k\<lparr>segs := f\<rparr>\<rparr>)"
    by (rule set_active [OF k(2), of False]) (use k(3) in simp)
  obtain k' at where "shm_delete (Obj shm) True (s\<lparr>ker := k\<lparr>segs := f\<rparr>\<rparr>) = Fin () (s\<lparr>ker := k', attached := at\<rparr>)"
    "gone shm (s\<lparr>ker := k', attached := at\<rparr>)"
    using delete_gone [OF f(2,3)] by auto
  with k(1) f(1) show ?thesis by (intro exI [of _ k'] exI [of _ at]) (simp add: run_simps)
qed

lemma sint_small: "q < 2 ^ 31 \<Longrightarrow> sint (word_of_nat q :: u32) = int q"
  using to_int_id [of "int q"] by (simp add: to_int_def)

lemma loop_usr1:
  assumes "records shm a p c m s" and "removable shm s" and "pr_forks s = f # fs" and "fork_pid f \<noteq> 0"
    and "pr_waits s = Signalled SIGUSR1 # evs" and "\<not> pr_blocked s"
    and "sint (word_of_int (fork_pid f) :: u32) = fork_pid f" and "pr_target s (fork_pid f)"
  shows "\<exists>t. daemon_loop (Suc (Suc n)) (Obj shm) None s = Stop (Exited 1) t \<and>
    pr_sent t = pr_sent s @ [(fork_pid f, SIGUSR1)] \<and> gone shm t"
proof -
  obtain t where t: "daemon_turn (Obj shm) None s = Fin (Jumped SIGUSR1) t"
    "records shm 1 p (word_of_int (fork_pid f)) m t" "removable shm t" "pr_sent t = pr_sent s" "pr_target t = pr_target s"
    by (rule turn_signalled [OF assms(1-6)])
  let ?u = "t\<lparr>pr_sent := pr_sent s @ [(fork_pid f, SIGUSR1)]\<rparr>"
  have "kill (fork_pid f) (Some SIGUSR1) t = Fin 0 ?u"
    using kill_reachable [OF records_script [OF t(2)], of "fork_pid f" SIGUSR1] t(4,5) assms(8) by simp
  moreover obtain k at where "(die (Obj shm) ?u :: ('a dm_os_scheme, unit) run) = Stop (Exited 1) (?u\<lparr>ker := k, attached := at\<rparr>)"
    "gone shm (?u\<lparr>ker := k, attached := at\<rparr>)"
    using die_gone [of shm 1 p "word_of_int (fork_pid f)" m ?u] t(2,3) by auto
  ultimately show ?thesis
    using t(1) get_records(2) [OF t(2)] assms(7)
    by (auto simp: bindr_Fin daemon_turn_def [of _ "Some _"] on_signal_def bindr_Stop)
qed

text \<open>
  \<open>SIGUSR1\<close>. A daemon that waits for its child \<open>q\<close> and gets the signal sends it on to the child, removes the
  segment and its mutex, so that no key names them any more, and exits with 1.
\<close>

theorem daemon_usr1:
  assumes "records shm a p c m s" and "removable shm s" and "pr_forks s = Parent_of q # fs" and "0 < q" and "q < 2 ^ 31"
    and "pr_waits s = Signalled SIGUSR1 # evs" and "\<not> pr_blocked s" and "pr_target s (int q)"
  shows "\<exists>t. daemon_loop (Suc (Suc n)) (Obj shm) None s = Stop (Exited 1) t \<and>
    pr_sent t = pr_sent s @ [(int q, SIGUSR1)] \<and> gone shm t"
  using loop_usr1 [OF assms(1-3) _ assms(6,7), of n] assms by (simp add: fork_pid_def sint_small del: daemon_loop.simps)


text \<open>The end of a turn of an active daemon: it sleeps.\<close>

lemma end_of_turn_sleeps:
  assumes r: "records shm 1 p c n s" and k: "dm_timer s < length exp_seconds" and "pr_naps s = []"
  shows "end_of_turn (Obj shm) s = Fin (Ended (Obj shm)) (s\<lparr>dm_timer := Suc (dm_timer s),
    ker := (ker s)\<lparr>clock := clock (ker s) + int (exp_seconds ! dm_timer s)\<rparr>\<rparr>)"
  using get_records(4) [OF r] assms(2,3) records_script [OF r]
    get_records(4) [of shm 1 p c n "s\<lparr>dm_timer := Suc (dm_timer s)\<rparr>"]
  by (simp add: end_of_turn_def run_simps nap_def sleep_def interact_def)

lemma turn_waits:
  assumes r: "records shm a p c n s" and rem: "removable shm s" and f: "pr_forks s = f # fs" "fork_pid f \<noteq> 0"
    and w: "pr_waits s = [] \<or> (\<exists>st evs. pr_waits s = Status st # evs \<and> (\<forall>x. st \<noteq> W_exited x \<and> st \<noteq> W_signaled x))"
  obtains t where "daemon_turn (Obj shm) None s = Stop Hangs t"
    and "records shm 1 p (word_of_int (fork_pid f)) n t" and "pr_forks t = fs" and "pr_sent t = pr_sent s"
    and "pr_waits t = tl (pr_waits s)" and "clock (ker t) = clock (ker s)"
proof -
  obtain k e t where t: "run_command (Obj shm) s = bindr (wait_for_signal (fork_pid f)) after_wait t"
    "t = s\<lparr>dm_timer := (if dm_failure s - dm_exec s > 5 then 0 else dm_timer s), pr_ignored := [],
      dm_exec := clock (ker s), err := e, pr_forks := fs, ker := k\<rparr>"
    "records shm 1 p (word_of_int (fork_pid f)) n t" "removable shm t" "clock (ker t) = clock (ker s)"
    using run_command_parent [OF r rem f] by blast
  let ?u = "t\<lparr>pr_waits := tl (pr_waits t)\<rparr>"
  have waits: "pr_waits t = pr_waits s" by (simp add: t(2))
  then have "wait_for_signal (fork_pid f) t = Stop Hangs ?u"
    using w records_script [OF t(3)]
    by (auto simp: wait_for_signal_def waitpid_def run_simps split: wait_status.split)
  with t(1) have "daemon_turn (Obj shm) None s = Stop Hangs ?u"
    by (simp add: daemon_turn_def run_simps)
  moreover have "records shm 1 p (word_of_int (fork_pid f)) n ?u" using t(3) by simp
  ultimately show thesis by (rule that) (use t(5) in \<open>simp_all add: t(2)\<close>)
qed

text \<open>
  a stopped child. When \<open>waitpid\<close> reports that the child was stopped or goes on again (it is asked to), the daemon
  stays in the loop over that status for ever: it never looks at the child again, whatever happens to it then.
\<close>

theorem daemon_stuck_on_stopped_child:
  assumes "records shm a p c m s" and "removable shm s" and "pr_forks s = f # fs" and "fork_pid f \<noteq> 0"
    and "pr_waits s = Status st # evs" and "st \<in> {W_stopped x, W_continued}"
  shows "\<exists>t. daemon_loop (Suc n) (Obj shm) None s = Stop Hangs t \<and> pr_waits t = evs"
proof -
  have "pr_waits s = [] \<or> (\<exists>st evs. pr_waits s = Status st # evs \<and> (\<forall>x. st \<noteq> W_exited x \<and> st \<noteq> W_signaled x))"
    using assms(5,6) by auto
  then obtain t where "daemon_turn (Obj shm) None s = Stop Hangs t" "pr_waits t = tl (pr_waits s)"
    by (rule turn_waits [OF assms(1-4)])
  with assms(5) show ?thesis by (simp add: bindr_Stop)
qed

text \<open>
  C32: a signal that is passed on. The child \<open>q\<close> gets it and may well go on, but the daemon does not wait for it any more:
  after the sleep its loop starts the command again, and the records name the second child \<open>r\<close> only.
\<close>

theorem daemon_signal_starts_second_child:
  assumes "records shm a p c m s" and "removable shm s" and "pr_forks s = [Parent_of q, Parent_of r]"
    and "0 < q" and "q < 2 ^ 31" and "0 < r" and "g \<notin> {SIGUSR1, SIGUSR2}"
    and "pr_waits s = [Signalled g]" and "pr_naps s = []" and "\<not> pr_blocked s" and "pr_target s (int q)"
    and "dm_timer s < 20"
  shows "\<exists>t. daemon_loop (Suc (Suc (Suc n))) (Obj shm) None s = Stop Hangs t \<and>
    pr_sent t = pr_sent s @ [(int q, g)] \<and> pr_forks t = [] \<and> records shm 1 p (word_of_nat r) m t"
proof -
  obtain t where t: "daemon_turn (Obj shm) None s = Fin (Jumped g) t" "records shm 1 p (word_of_nat q) m t" "removable shm t"
    "pr_forks t = [Parent_of r]" "pr_waits t = []" "pr_naps t = []" "pr_sent t = pr_sent s" "pr_target t = pr_target s"
    "dm_timer t = (if dm_failure s - dm_exec s > 5 then 0 else dm_timer s)"
    by (rule turn_signalled [OF assms(1-3) _ assms(8,10)]) (use assms in \<open>simp_all add: fork_pid_def\<close>)
  let ?u = "t\<lparr>pr_sent := pr_sent s @ [(int q, g)]\<rparr>"
  let ?v = "?u\<lparr>dm_timer := Suc (dm_timer t), ker := (ker t)\<lparr>clock := clock (ker t) + int (exp_seconds ! dm_timer t)\<rparr>\<rparr>"
  have "kill (int q) (Some g) t = Fin 0 ?u"
    using kill_reachable [OF records_script [OF t(2)], of "int q" g] t(7,8) assms(11) by simp
  then have "on_signal (Obj shm) g t = Fin () ?u"
    using get_records(2) [OF t(2)] assms(5,7) by (simp add: on_signal_def run_simps sint_small)
  moreover have u: "records shm 1 p (word_of_nat q) m ?u" "removable shm ?u" using t(2,3) by simp_all
  then have "end_of_turn (Obj shm) ?u = Fin (Ended (Obj shm)) ?v"
    using end_of_turn_sleeps [OF u(1)] t(6,9) assms(12) by (simp add: exp_seconds_def)
  ultimately have two: "daemon_turn (Obj shm) (Some g) t = Fin (Ended (Obj shm)) ?v"
    by (simp add: daemon_turn_def run_simps)
  have v: "records shm 1 p (word_of_nat q) m ?v" "removable shm ?v"
    using u records_clock [where shm = shm and a = 1 and p = p and c = "word_of_nat q" and n = m and s = "?u\<lparr>dm_timer := Suc (dm_timer t)\<rparr>"]
    by (simp_all add: removable_def seg_at_def cong: option.case_cong address.case_cong)
  obtain w where w: "daemon_turn (Obj shm) None ?v = Stop Hangs w" "records shm 1 p (word_of_int (fork_pid (Parent_of r))) m w"
    "pr_forks w = []" "pr_sent w = pr_sent ?v"
    by (rule turn_waits [OF v, of "Parent_of r" "[]"]) (use t assms in \<open>simp_all add: fork_pid_def\<close>)
  with t(1) two get_records(4) [OF v(1)] show ?thesis
    by (simp add: bindr_Fin bindr_Stop fork_pid_def)
qed

section \<open>Starting\<close>

lemma records_size [simp]: "records (shm\<lparr>shm_size := x\<rparr>) a p c n s = records shm a p c n s"
  by (simp add: records_def shm_ready_def shm_cells_def)

lemma key_word: "0 < k \<Longrightarrow> k < 2 ^ 31 \<Longrightarrow> sint (word_of_int k :: u32) = k"
  using to_int_id [of k] by (simp add: to_int_def)

lemma sint_zero: "sint (w :: u32) = 0 \<longleftrightarrow> w = 0"
  by (simp add: signed_eq_0_iff)

lemma buffer_text_err [simp]: "buffer_text k p c n (s\<lparr>err := e\<rparr>) = buffer_text k p c n s"
  by (simp add: buffer_text_def)

lemma refused_line:
  assumes "0 < k" and "k < 2 ^ 31" and "cmd \<noteq> []" and "daemon_named (word_of_int k) i sg j gs a p c n s" and "p \<noteq> 0" and "c \<noteq> 0"
  shows "\<exists>e. daemonize_main (''-S'' # decimal_int k # ''--'' # cmd) s = Fin (- 1) ((attach_seg i sg s)\<lparr>err := e,
    out := out s @ [(''Daemon%s already running.'', buffer_text k (sint p) (sint c) (sint n) s)]\<rparr>)"
proof -
  let ?o = "attached_obj (word_of_int k) i j s" and ?t = "(attach_seg i sg s)\<lparr>err := EEXIST\<rparr>"
  have new: "SharedMemory_new (word_of_int k) 16 True s = Fin (Some (?o\<lparr>shm_size := 16\<rparr>)) ?t"
    using SharedMemory_new_attaches assms(4) unfolding daemon_named_def by blast
  have r: "records (?o\<lparr>shm_size := 16\<rparr>) a p c n ?t" using daemon_attached(2) [OF assms(4)] by simp
  have key: "sint (shm_key (?o\<lparr>shm_size := 16\<rparr>)) = k"
    using key_word [OF assms(1,2)] by (simp add: attached_obj_def)
  obtain e where e: "daemonstr k (sint p) (sint c) (sint n) ?t = Fin (buffer_text k (sint p) (sint c) (sint n) ?t) (?t\<lparr>err := e\<rparr>)"
    using records_script [OF r] by (rule daemonstr_quiet)
  show ?thesis
    using new r get_records [OF r] e key assms(5,6)
    by (intro exI [of _ e]) (simp add: daemon_lines(3) [OF assms(1-3)] run_simps pointer_of_def start_def printf_def sint_zero)
qed

text \<open>
  \<open>daemonize -S\<close> when both ids are set. Whether the processes still run or not, it answers -1 and prints that a daemon is
  already running. It creates no process, sends no signal and changes no record.
\<close>

theorem daemon_start_refuses:
  assumes "0 < k" and "k < 2 ^ 31" and "cmd \<noteq> []" and "daemon_named (word_of_int k) i sg j gs a p c n s" and "p \<noteq> 0" and "c \<noteq> 0"
  shows "\<exists>t. daemonize_main (''-S'' # decimal_int k # ''--'' # cmd) s = Fin (- 1) t \<and>
    out t = out s @ [(''Daemon%s already running.'', buffer_text k (sint p) (sint c) (sint n) s)] \<and>
    pr_forks t = pr_forks s \<and> pr_sent t = pr_sent s \<and> records (attached_obj (word_of_int k) i j s) a p c n t"
proof -
  have "pr_forks (attach_seg i sg s) = pr_forks s" by (simp add: attach_seg_def)
  moreover have "records (attached_obj (word_of_int k) i j s) a p c n (attach_seg i sg s)"
    by (rule daemon_attached(2) [OF assms(4)])
  ultimately show ?thesis using refused_line [OF assms] by fastforce
qed

lemma await_nobody:
  assumes "records shm a p c n s" and "p = 0 \<or> c = 0"
  shows "await_daemon (Obj shm) m x s = Fin (if m = 0 then x else (sint p, sint c))
    (s\<lparr>ker := (ker s)\<lparr>clock := clock (ker s) + int m\<rparr>\<rparr>)"
  using assms(1)
proof (induction m arbitrary: x s)
  case (Suc m)
  let ?t = "s\<lparr>ker := (ker s)\<lparr>clock := clock (ker s) + 1\<rparr>\<rparr>"
  have "sleep 1 s = Fin () ?t" using records_script [OF Suc.prems] by (simp add: sleep_def interact_def)
  moreover have "records shm a p c n ?t" using Suc.prems by simp
  ultimately show ?case
    using Suc.IH [of ?t "(sint p, sint c)"] get_records [OF Suc.prems] assms(2)
    by (auto simp: run_simps add.commute)
qed (simp add: run_simps)

text \<open>
  \<open>daemonize -S\<close> on a new channel, as the launcher sees it. When nothing has registered within its five attempts, a second
  apart, it prints \<open>Done\<close> with ids 0, as if both processes answered (signal 0 to process 0 always succeeds), and answers 0.
\<close>

theorem daemon_start_reports_success:
  assumes "0 < k" and "k < 2 ^ 31" and "cmd \<noteq> []" and "shm_can_make (word_of_int k) 16 s" and "pr_forks s = Parent_of q # fs" and "0 < q"
  shows "\<exists>t. daemonize_main (''-S'' # decimal_int k # ''--'' # cmd) s = Fin 0 t \<and>
    out t = out s @ [(''Daemonizing...'', []), (''Done%s'', [k, 80, 0, 67, 0, 0])] \<and>
    clock (ker t) = clock (ker s) + 5 \<and> pr_forks t = fs \<and> records (made_obj (word_of_int k) 16 s) 0 0 0 0 t"
proof -
  let ?o = "made_obj (word_of_int k) 16 s" and ?m = "made_shm (word_of_int k) 16 s"
  have cells: "replicate 4 (0 :: u32) = [0, 0, 0, 0]" by (simp add: numeral_eq_Suc)
  have r: "records ?o 0 0 0 0 ?m" and rem: "removable ?o ?m"
    using made_shm_ready [OF assms(4)]
    by (simp_all add: records_def removable_def shm_cells_def made_seg_def cells_zero cells)
      (simp add: made_obj_def)
  have key: "sint (shm_key ?o) = k" using key_word [OF assms(1,2)] by (simp add: made_obj_def)
  let ?m1 = "?m\<lparr>out := out s @ [(''Daemonizing...'', [])]\<rparr>"
  have m: "pr_forks ?m1 = Parent_of q # fs" "out ?m = out s" "clock (ker ?m) = clock (ker s)"
    using assms(5) by (simp_all add: made_shm_def Let_def) (simp_all add: attach_seg_def)
  have sh: "fork ?m1 = Fin (int q) ((shared ?m1)\<lparr>pr_forks := fs\<rparr>)" (is "_ = Fin _ ?u")
    using m by (simp add: fork_def)
  have u: "records ?o 0 0 0 0 ?u" "clock (ker ?u) = clock (ker s)" "out ?u = out s @ [(''Daemonizing...'', [])]"
    using records_shared [of ?o 0 0 0 0 ?m1] r m by (simp_all add: shared_def)
  let ?w = "?u\<lparr>ker := (ker ?u)\<lparr>clock := clock (ker ?u) + 5\<rparr>\<rparr>"
  have aw: "await_daemon (Obj ?o) 5 (0, 0) ?u = Fin (0, 0) ?w"
    using await_nobody [OF u(1), of 5] by simp
  have w: "records ?o 0 0 0 0 ?w" using u(1) by (simp only: records_clock)
  have str: "daemonstr k 0 0 0 ?w = Fin [k, 80, 0, 67, 0, 0] ?w"
    using records_script [OF w] by (simp add: daemonstr_def kill_quiet reachable_def run_simps code_of_def)
  have "start (Obj ?o) ?m = Fin 0 (?w\<lparr>out := out ?w @ [(''Done%s'', [k, 80, 0, 67, 0, 0])]\<rparr>)"
    using get_records [OF r] get_records(5) [OF w] sh assms(6) aw str key m(2)
    by (simp add: start_def run_simps printf_def daemonize_def)
  then show ?thesis
    using w u SharedMemory_new_made [OF assms(4), of True]
    by (simp add: daemon_lines(3) [OF assms(1-3)] run_simps pointer_of_def)
qed

section \<open>Witnesses\<close>

text \<open>The daemon of channel 5 with its segment attached, and a process that starts on the empty kernel.\<close>

definition running_obj :: SharedMemory where
  "running_obj = attached_obj (word_of_int 5) 0 0 (running 41)"

definition waiting :: "fork_answer list \<Rightarrow> wait_event list \<Rightarrow> dm_os" where
  "waiting f w = (attach_seg 0 \<lparr>sg_key = 261, sg_data = concat (map word_bytes [1, 40, 41, 1]), sg_nattch = 1, sg_dest = False\<rparr>
     (running 41))\<lparr>pr_forks := f, pr_waits := w\<rparr>"

definition fresh :: "fork_answer list \<Rightarrow> dm_os" where
  "fresh f = os.extend boot_os
     \<lparr>pr_forks = f, pr_waits = [], pr_naps = [], pr_target = (\<lambda>_. False), pr_sent = [],
      pr_blocked = False, pr_jump_unblocks = False, pr_ignored = [], pr_fds = (\<lambda>_. False), pr_fd_limit = Some 1024, pr_exec = None,
      dm_timer = 0, dm_failure = 0, dm_exec = 0\<rparr>"

lemma waiting_records:
  "records running_obj 1 40 41 1 (waiting f w)" "removable running_obj (waiting f w)"
  using daemon_attached [OF running_named [of 41]] by (simp_all add: waiting_def running_obj_def running_os)

lemma waiting_fields:
  "pr_forks (waiting f w) = f" "pr_waits (waiting f w) = w" "pr_blocked (waiting f w) = False" "pr_sent (waiting f w) = []"
  "pr_naps (waiting f w) = []" "dm_timer (waiting f w) = 0" "pr_target (waiting f w) i = (i \<in> {- 1, 40, 41})"
  "pr_jump_unblocks (waiting f w) = False"
  by (simp_all add: waiting_def attach_seg_def running_os)


lemma daemon_passes_one_signal_witness:
  "length (pr_sent (final (daemon_loop 9 (Obj running_obj) None
     (waiting [Parent_of 41, Parent_of 42] [Signalled SIGTERM, Signalled SIGINT])))) \<le> 1"
  using daemon_passes_one_signal [of "waiting [Parent_of 41, Parent_of 42] [Signalled SIGTERM, Signalled SIGINT]" 9 "Obj running_obj"]
  by (simp add: waiting_fields del: daemon_loop.simps)

lemma daemon_usr1_witness:
  "\<exists>t. daemon_loop (Suc (Suc 0)) (Obj running_obj) None (waiting [Parent_of 41] [Signalled SIGUSR1]) = Stop (Exited 1) t \<and>
     pr_sent t = [(41, SIGUSR1)] \<and> gone running_obj t"
  using daemon_usr1 [OF waiting_records waiting_fields(1) _ _ waiting_fields(2), where q = 41 and fs = "[]" and evs = "[]" and n = 0]
  by (simp add: waiting_fields del: daemon_loop.simps)


lemma daemon_stuck_on_stopped_child_witness:
  "\<exists>t. daemon_loop (Suc 0) (Obj running_obj) None (waiting [Parent_of 41] [Status (W_stopped 20), Status (W_exited 0)]) = Stop Hangs t \<and>
     pr_waits t = [Status (W_exited 0)]"
  using daemon_stuck_on_stopped_child [OF waiting_records waiting_fields(1) _ waiting_fields(2),
    where f = "Parent_of 41" and fs = "[]" and st = "W_stopped 20" and evs = "[Status (W_exited 0)]" and n = 0]
  by (simp add: waiting_fields fork_pid_def del: daemon_loop.simps)

lemma daemon_signal_starts_second_child_witness:
  "\<exists>t. daemon_loop (Suc (Suc (Suc 0))) (Obj running_obj) None (waiting [Parent_of 41, Parent_of 42] [Signalled SIGHUP]) = Stop Hangs t \<and>
     pr_sent t = [(41, SIGHUP)] \<and> records running_obj 1 40 42 1 t"
  using daemon_signal_starts_second_child [OF waiting_records waiting_fields(1) _ _ _ _ waiting_fields(2),
    where q = 41 and r = 42 and g = SIGHUP and n = 0]
  by (auto simp: waiting_fields simp del: daemon_loop.simps)

lemma daemon_start_refuses_witness:
  "\<exists>t. daemonize_main (''-S'' # decimal_int 5 # ''--'' # [''true'']) (running 41) = Fin (- 1) t \<and>
     out t = [(''Daemon%s already running.'', [5, 80, 40, 67, 41, 1])]"
  using daemon_start_refuses [of 5 "[''true'']", OF _ _ _ running_named [of 41]]
  by (auto simp: buffer_text_def reachable_def running_os code_of_def)

lemma daemon_start_reports_success_witness:
  "\<exists>t. daemonize_main (''-S'' # decimal_int 5 # ''--'' # [''true'']) (fresh [Parent_of 40]) = Fin 0 t \<and>
     out t = [(''Daemonizing...'', []), (''Done%s'', [5, 80, 0, 67, 0, 0])]"
proof -
  have "shm_can_make (word_of_int 5) 16 (fresh [Parent_of 40])"
    using shm_can_make_boot
    by (simp add: shm_can_make_def can_make_def key_ok_def SEMKEY_def SHMKEY_def fresh_def os.defs)
  from daemon_start_reports_success [of 5 "[''true'']", OF _ _ _ this, of 40 "[]"] show ?thesis
    by (auto simp: fresh_def os.defs boot_os_def)
qed

end
