(* ===== verification/Daemonize_Session.thy ===== *)
theory Daemonize_Session
  imports Daemonize_Paths
begin

text \<open>
  The commands of \<open>daemonize\<close> as they are used: each is a process of its own that ends before the next one starts, and what they
  share is a channel. The abstract channel is absent, or it is the ids of the daemon and of its child with the number of starts.
\<close>

section \<open>The abstract channel\<close>

type_synonym channel = "u32 \<times> u32 \<times> u32"

datatype dm_cmd = Ask | Kill_it | Launch "string list"

text \<open>
  What a command answers, the signals it sends, and the channel after it; \<open>r\<close> tells which processes can be signalled. Nothing is said of a
  launch that starts a daemon.
\<close>

fun spec_dm :: "(int \<Rightarrow> bool) \<Rightarrow> dm_cmd \<Rightarrow> channel option \<Rightarrow> (int \<times> (int \<times> signal) list \<times> channel option) option" where
  "spec_dm r Ask None = Some (0, [], None)"
| "spec_dm r Ask (Some ch) = Some (0, [], Some ch)"
| "spec_dm r Kill_it None = Some (- 1, [], None)"
| "spec_dm r Kill_it (Some (p, c, n)) =
     (if p = 0 \<or> c = 0 then Some (1, [], Some (p, c, n))
      else if \<not> r (sint c) then Some (2, [], Some (p, c, n))
      else if \<not> r (sint p) then Some (3, [(sint c, SIGUSR1)], Some (p, c, n))
      else Some (0, [(sint c, SIGUSR1), (sint p, SIGUSR1)], None))"
| "spec_dm r (Launch cmd) None = None"
| "spec_dm r (Launch cmd) (Some (p, c, n)) =
     (if p \<noteq> 0 \<and> c \<noteq> 0 \<and> cmd \<noteq> [] then Some (- 1, [], Some (p, c, n)) else None)"

fun spec_dm_session :: "(int \<Rightarrow> bool) \<Rightarrow> dm_cmd list \<Rightarrow> channel option \<Rightarrow>
    (int list \<times> (int \<times> signal) list \<times> channel option) option" where
  "spec_dm_session r [] ch = Some ([], [], ch)"
| "spec_dm_session r (c # cs) ch = (case spec_dm r c ch of
     None \<Rightarrow> None
   | Some (e, gs, ch') \<Rightarrow> (case spec_dm_session r cs ch' of
       None \<Rightarrow> None | Some (es, gs', ch'') \<Rightarrow> Some (e # es, gs @ gs', ch'')))"

section \<open>Sessions\<close>

fun dm_line :: "int \<Rightarrow> dm_cmd \<Rightarrow> string list" where
  "dm_line k Ask = [''-s'', decimal_int k]"
| "dm_line k Kill_it = [''-K'', decimal_int k]"
| "dm_line k (Launch cmd) = ''-S'' # decimal_int k # ''--'' # cmd"

text \<open>A process starts with nothing attached.\<close>

definition new_dm :: "nat \<Rightarrow> 'z dm_os_scheme \<Rightarrow> 'z dm_os_scheme" where
  "new_dm p s = s\<lparr>pid_self := p, attached := (\<lambda>_. None), next_addr := 0, err := EOK\<rparr>"

fun dm_session :: "int \<Rightarrow> (nat \<times> dm_cmd) list \<Rightarrow> 'z dm_os_scheme \<Rightarrow> ('z dm_os_scheme, int list) run" where
  "dm_session k [] s = Fin [] s"
| "dm_session k ((p, c) # cs) s =
     (case daemonize_main (dm_line k c) (new_dm p s) of
        Stop w t \<Rightarrow> Stop w t
      | Fin e t \<Rightarrow> bindr (dm_session k cs) (\<lambda>es. retr (e # es)) (exit_process t))"

text \<open>The kernel state that stands for a channel.\<close>

definition dm_rep :: "u32 \<Rightarrow> channel option \<Rightarrow> 'z os_scheme \<Rightarrow> bool" where
  "dm_rep key ch s \<longleftrightarrow> (case ch of
     None \<Rightarrow> script s = [] \<and> mallocs s = [] \<and> shmkeys (ker s) (SHMKEY key s) = None
   | Some (p, c, n) \<Rightarrow> \<exists>i sg j gs a. daemon_named key i sg j gs a p c n s \<and> junk s \<le> length (sg_data sg) \<and>
       ss_adj gs = (\<lambda>_ _. 0))"

lemma dm_repI:
  "daemon_named key i sg j gs a p c n s \<Longrightarrow> junk s \<le> length (sg_data sg) \<Longrightarrow> ss_adj gs = (\<lambda>_ _. 0) \<Longrightarrow>
    dm_rep key (Some (p, c, n)) s"
  unfolding dm_rep_def option.case prod.case by blast

lemma daemon_named_cong:
  assumes "ker t = ker s" and "script t = script s" and "mallocs t = mallocs s" and "ftok_of t = ftok_of s"
  shows "daemon_named key i sg j gs a p c n t = daemon_named key i sg j gs a p c n s"
  using assms by (simp add: daemon_named_def names_seg_def names_set_def key_ok_def SEMKEY_def SHMKEY_def)

lemma dm_rep_cong:
  assumes "ker t = ker s" and "script t = script s" and "mallocs t = mallocs s" and "ftok_of t = ftok_of s" and "junk t = junk s"
  shows "dm_rep key ch t = dm_rep key ch s"
  using daemon_named_cong [OF assms(1-4)] assms by (simp add: dm_rep_def SHMKEY_def split: option.split prod.split)

lemma daemon_named_attach:
  assumes "daemon_named key i sg j gs a p c n s"
  shows "daemon_named key i (sg\<lparr>sg_nattch := Suc (sg_nattch sg)\<rparr>) j gs a p c n (attach_seg i sg s)"
  using assms by (auto simp: daemon_named_def names_seg_def) (simp add: attach_seg_def)

lemma daemon_named_exit:
  assumes "daemon_named key i sg j gs a p c n s" and "ss_adj gs = (\<lambda>_ _. 0)"
  shows "\<exists>m. daemon_named key i (sg\<lparr>sg_nattch := m\<rparr>) j gs a p c n (exit_process s)"
proof -
  note n = assms(1) [unfolded daemon_named_def names_seg_def names_set_def]
  have "segs (undo_all (pid_self s) (ker s)) i = Some sg" using n by (simp add: undo_all_def)
  then obtain m where m: "segs (ker (exit_process s)) i = Some (sg\<lparr>sg_nattch := m\<rparr>)"
    using detach_upto_keeps n by (fastforce simp: exit_process_def)
  have "wf_set (semvmx (ker s)) gs" using n by (simp add: wf_set_def)
  then have "sems (ker (exit_process s)) j = Some gs" using exit_process_set n assms(2) by blast
  moreover have rest: "semkeys (ker (exit_process s)) = semkeys (ker s)" "shmkeys (ker (exit_process s)) = shmkeys (ker s)"
    "semvmx (ker (exit_process s)) = semvmx (ker s)" "script (exit_process s) = script s" "mallocs (exit_process s) = mallocs s"
    "SEMKEY q (exit_process s) = SEMKEY q s" "SHMKEY q (exit_process s) = SHMKEY q s" "key_ok q (exit_process s) = key_ok q s" for q
    by (simp_all add: exit_process_def undo_all_def SEMKEY_def SHMKEY_def key_ok_def)
  ultimately show ?thesis using n m by (intro exI [of _ m]) (simp add: daemon_named_def names_seg_def names_set_def)
qed

lemma dm_rep_exit:
  assumes "dm_rep key ch s"
  shows "dm_rep key ch (exit_process s)"
proof (cases ch)
  case None
  with assms show ?thesis by (simp add: dm_rep_def exit_process_def undo_all_def SHMKEY_def)
next
  case (Some x)
  obtain p c n where x: "x = (p, c, n)" by (cases x)
  with assms Some obtain i sg j gs a where d: "daemon_named key i sg j gs a p c n s" "junk s \<le> length (sg_data sg)"
    "ss_adj gs = (\<lambda>_ _. 0)" by (auto simp: dm_rep_def)
  from daemon_named_exit [OF d(1,3)] obtain m where "daemon_named key i (sg\<lparr>sg_nattch := m\<rparr>) j gs a p c n (exit_process s)" ..
  moreover have "junk (exit_process s) \<le> length (sg_data (sg\<lparr>sg_nattch := m\<rparr>))" using d(2) by (simp add: exit_process_def)
  ultimately show ?thesis using d(3) unfolding Some x by (rule dm_repI)
qed

lemma dm_rep_new [simp]: "dm_rep key ch (new_dm p s) = dm_rep key ch s"
  by (rule dm_rep_cong) (simp_all add: new_dm_def)

section \<open>Refinement\<close>

text \<open>A command on a channel that exists: the state it leaves, in terms of the one it attached to.\<close>

lemma line_present:
  assumes "0 < k" and "k < 2 ^ 31" and d: "daemon_named (word_of_int k) i sg j gs a p c n s" and "junk s \<le> length (sg_data sg)"
    and "spec_dm (pr_target s) cmd (Some (p, c, n)) = Some (e, gs', ch')"
  shows "\<exists>er q l at. daemonize_main (dm_line k cmd) s = Fin e ((attach_seg i sg s)
      \<lparr>err := er, pr_sent := pr_sent s @ gs', out := q, ker := l, attached := at\<rparr>) \<and>
    (if ch' = None then without_seg i (ker s) l else ch' = Some (p, c, n) \<and> l = ker (attach_seg i sg s))"
proof (cases cmd)
  case Ask
  let ?o = "attached_obj (word_of_int k) i j s" and ?s = "attach_seg i sg s"
  note at = daemon_attached [OF d]
  obtain er where "daemon_status (Obj ?o) k ?s = Fin 0 (?s\<lparr>err := er, out := out s @ [(status_text (sint p) (sint c) s,
        buffer_text k (sint p) (sint c) (sint n) s)]\<rparr>)"
    using daemon_status_quiet [OF at(2), of k] by auto
  then have "daemonize_main (dm_line k cmd) s = Fin 0 (?s\<lparr>err := er, pr_sent := pr_sent s @ [],
      out := out s @ [(status_text (sint p) (sint c) s, buffer_text k (sint p) (sint c) (sint n) s)],
      ker := ker ?s, attached := attached ?s\<rparr>)"
    using at(1) Ask by (simp add: daemon_lines(1) [OF assms(1,2)] run_simps pointer_of_def)
  moreover have "e = 0" "gs' = []" "ch' = Some (p, c, n)" using assms(5) Ask by simp_all
  ultimately show ?thesis by (metis option.distinct(1))
next
  case Kill_it
  let ?o = "attached_obj (word_of_int k) i j s" and ?s = "attach_seg i sg s"
  note at = daemon_attached(1,2) [OF d] daemon_attached(3) [OF d assms(4)]
  obtain er q l att where st: "stop_daemon (Obj ?o) ?s = Fin (stop_answer (sint p) (sint c) ?s)
      (?s\<lparr>err := er, pr_sent := pr_sent ?s @ stop_sent (sint p) (sint c) ?s, out := q, ker := l, attached := att\<rparr>)"
    "if stop_answer (sint p) (sint c) ?s = 0
      then gone ?o (?s\<lparr>err := er, pr_sent := pr_sent ?s @ stop_sent (sint p) (sint c) ?s, out := q, ker := l, attached := att\<rparr>) \<and>
        without_seg (shm_id ?o) (ker ?s) l
      else l = ker ?s \<and> att = attached ?s"
    by (rule stop_daemon_state [OF at(2,3)])
  have "e = stop_answer (sint p) (sint c) s" "gs' = stop_sent (sint p) (sint c) s"
    "ch' = (if e = 0 then None else Some (p, c, n))"
    using assms(5) Kill_it by (auto simp: stop_answer_def stop_sent_def reachable_def sint_zero split: if_splits)
  moreover have "without_seg i (ker ?s) l \<Longrightarrow> without_seg i (ker s) l"
    by (rule without_seg_from [of "ker ?s"]) simp_all
  moreover have "daemonize_main (dm_line k cmd) s = stop_daemon (Obj ?o) ?s"
    using at(1) Kill_it by (simp add: daemon_lines(2) [OF assms(1,2)] run_simps pointer_of_def)
  ultimately show ?thesis
    using st by (intro exI [of _ er] exI [of _ q] exI [of _ l] exI [of _ att]) (auto simp: attached_obj_def split: if_splits)
next
  case (Launch cs)
  with assms(5) have l: "p \<noteq> 0" "c \<noteq> 0" "cs \<noteq> []" "e = - 1" "gs' = []" "ch' = Some (p, c, n)" by (auto split: if_splits)
  from refused_line [OF assms(1,2) l(3) d l(1,2)] obtain er where
    "daemonize_main (''-S'' # decimal_int k # ''--'' # cs) s = Fin (- 1) ((attach_seg i sg s)\<lparr>err := er,
      out := out s @ [(''Daemon%s already running.'', buffer_text k (sint p) (sint c) (sint n) s)]\<rparr>)" ..
  then have "daemonize_main (dm_line k cmd) s = Fin e ((attach_seg i sg s)\<lparr>err := er, pr_sent := pr_sent s @ gs',
      out := out s @ [(''Daemon%s already running.'', buffer_text k (sint p) (sint c) (sint n) s)],
      ker := ker (attach_seg i sg s), attached := attached (attach_seg i sg s)\<rparr>)"
    using Launch l by simp
  with l(6) show ?thesis by (metis option.distinct(1))
qed

lemma line_refines:
  assumes "0 < k" and "k < 2 ^ 31" and "dm_rep (word_of_int k) ch s" and "spec_dm (pr_target s) cmd ch = Some (e, gs', ch')"
  shows "\<exists>t. daemonize_main (dm_line k cmd) s = Fin e t \<and> pr_sent t = pr_sent s @ gs' \<and> pr_target t = pr_target s \<and>
    dm_rep (word_of_int k) ch' t"
proof (cases ch)
  case None
  have none: "SharedMemory_attach (word_of_int k) s = Fin None (s\<lparr>err := ENOENT\<rparr>)" and q: "script s = []"
    using assms(3) None by (auto intro!: SharedMemory_attach_none simp: dm_rep_def)
  have rep: "dm_rep (word_of_int k) None (s\<lparr>err := ENOENT, out := r\<rparr>)" for r
    using assms(3) None by (simp add: dm_rep_def SHMKEY_def)
  show ?thesis
  proof (cases cmd)
    case Ask
    have "daemonize_main (dm_line k cmd) s = Fin 0 (s\<lparr>err := ENOENT, out := out s @ [(''%s Missing'', [k, 80, 0, 67, 0, 0])]\<rparr>)"
      using none q Ask
      by (simp add: daemon_lines(1) [OF assms(1,2)] run_simps pointer_of_def daemon_status_def get_pid_def get_cpid_def
          get_count_def daemonstr_def kill_quiet reachable_def printf_def code_of_def)
    with rep Ask assms(4) None show ?thesis by simp
  next
    case Kill_it
    have "daemonize_main (dm_line k cmd) s = Fin (- 1) (s\<lparr>err := ENOENT,
        out := out s @ [(''Failed to attach to shmem(key=%d)'', [k])]\<rparr>)"
      using none Kill_it by (simp add: daemon_lines(2) [OF assms(1,2)] run_simps printf_def)
    with rep Kill_it assms(4) None show ?thesis by simp
  qed (use assms(4) None in simp)
next
  case (Some x)
  obtain p c n where x: "x = (p, c, n)" by (cases x)
  with assms(3) Some obtain i sg j gs a where d: "daemon_named (word_of_int k) i sg j gs a p c n s" "junk s \<le> length (sg_data sg)"
    "ss_adj gs = (\<lambda>_ _. 0)" by (auto simp: dm_rep_def)
  let ?s = "attach_seg i sg s" and ?sg = "sg\<lparr>sg_nattch := Suc (sg_nattch sg)\<rparr>"
  obtain er q l att where t: "daemonize_main (dm_line k cmd) s = Fin e (?s\<lparr>err := er, pr_sent := pr_sent s @ gs', out := q,
      ker := l, attached := att\<rparr>)"
    "if ch' = None then without_seg i (ker s) l else ch' = Some (p, c, n) \<and> l = ker ?s"
    using line_present [OF assms(1,2) d(1,2)] assms(4) Some x by blast
  let ?t = "?s\<lparr>err := er, pr_sent := pr_sent s @ gs', out := q, ker := l, attached := att\<rparr>"
  have "dm_rep (word_of_int k) ch' ?t"
  proof (cases "ch' = None")
    case True
    then show ?thesis
      using t(2) d(1) by (simp add: dm_rep_def without_seg_def daemon_named_def names_seg_def SHMKEY_def)
  next
    case False
    have "daemon_named (word_of_int k) i ?sg j gs a p c n ?t"
      using daemon_named_attach [OF d(1)] daemon_named_cong [of ?t ?s] False t(2) by simp
    then have "dm_rep (word_of_int k) (Some (p, c, n)) ?t" using d(2,3) by (intro dm_repI [of _ i ?sg j gs a]) simp_all
    with False t(2) show ?thesis by simp
  qed
  moreover have "pr_target ?t = pr_target s" by (simp add: attach_seg_def)
  ultimately show ?thesis using t(1) by (intro exI [of _ ?t]) simp
qed

lemma exit_process_log [simp]:
  "pr_sent (exit_process s) = pr_sent s" "pr_target (exit_process s) = pr_target s"
  by (simp_all add: exit_process_def)

lemma new_dm_log [simp]: "pr_sent (new_dm p s) = pr_sent s" "pr_target (new_dm p s) = pr_target s"
  by (simp_all add: new_dm_def)

lemma dm_session_refines:
  assumes "0 < k" and "k < 2 ^ 31"
  shows "dm_rep (word_of_int k) ch s \<Longrightarrow> spec_dm_session (pr_target s) (map snd cs) ch = Some (es, gs, ch') \<Longrightarrow>
    \<exists>t. dm_session k cs s = Fin es t \<and> pr_sent t = pr_sent s @ gs \<and> dm_rep (word_of_int k) ch' t"
proof (induction cs arbitrary: s ch es gs)
  case (Cons pc cs)
  obtain q c where pc: "pc = (q, c)" by (cases pc)
  from Cons.prems(2) pc obtain e g1 ch1 es2 g2 where sp: "spec_dm (pr_target s) c ch = Some (e, g1, ch1)"
    "spec_dm_session (pr_target s) (map snd cs) ch1 = Some (es2, g2, ch')" "es = e # es2" "gs = g1 @ g2"
    by (auto split: option.splits)
  obtain t where t: "daemonize_main (dm_line k c) (new_dm q s) = Fin e t" "pr_sent t = pr_sent s @ g1" "pr_target t = pr_target s"
    "dm_rep (word_of_int k) ch1 t"
    using line_refines [OF assms, of ch "new_dm q s" c e g1 ch1] Cons.prems(1) sp(1) by auto
  obtain u where "dm_session k cs (exit_process t) = Fin es2 u" "pr_sent u = pr_sent (exit_process t) @ g2"
    "dm_rep (word_of_int k) ch' u"
    using Cons.IH [of ch1 "exit_process t"] dm_rep_exit [OF t(4)] sp(2) t(3) by auto
  with t(1,2) sp(3,4) pc show ?case by (simp add: run_simps)
qed simp


lemma running_rep: "dm_rep 5 (Some (40, 41, 1)) (running 41)"
proof -
  let ?sg = "\<lparr>sg_key = 261, sg_data = concat (map word_bytes [1, 40, 41, 1]), sg_nattch = 1, sg_dest = False\<rparr>"
  have "junk (running 41) \<le> length (sg_data ?sg)" "ss_adj (made_set (guard_key 5) 1 1 boot_os) = (\<lambda>_ _. 0)"
    by (simp_all add: running_os made_set_def)
  with running_named [of 41] show ?thesis using dm_repI by fastforce
qed


end
