(* ===== verification/Daemonize_Life.thy ===== *)
theory Daemonize_Life
  imports Daemonize_Paths
begin

text \<open>
  What \<open>daemonize.c\<close> is for, and where its processes meet: a command that keeps failing is started again after longer and
  longer pauses; the child that becomes the command; and what becomes of a process when another one removes the
  segment and the mutex that both use.
\<close>

section \<open>Starting again\<close>

definition ended :: "wait_status \<Rightarrow> bool" where
  "ended st \<longleftrightarrow> (\<exists>x. st = W_exited x \<or> st = W_signaled x)"

definition first_pause :: "'z dm_os_scheme \<Rightarrow> nat" where
  "first_pause s = (if dm_failure s - dm_exec s > 5 then 0 else dm_timer s)"

text \<open>One turn of a daemon whose child ends: it sleeps and is ready for the next turn.\<close>

lemma turn_ended:
  assumes r: "records shm a p c n s" and rem: "removable shm s" and f: "pr_forks s = f # fs" "fork_pid f \<noteq> 0"
    and w: "pr_waits s = Status st # evs" "ended st" and q: "pr_naps s = []" and k: "first_pause s < length exp_seconds"
  obtains t where "daemon_turn (Obj shm) None s = Fin (Ended (Obj shm)) t"
    and "records shm 1 p (word_of_int (fork_pid f)) n t" and "removable shm t"
    and "pr_forks t = fs" and "pr_waits t = evs" and "pr_naps t = []" and "pr_sent t = pr_sent s"
    and "first_pause t = Suc (first_pause s)" and "clock (ker t) = clock (ker s) + int (exp_seconds ! first_pause s)"
proof -
  obtain k e t where t: "run_command (Obj shm) s = bindr (wait_for_signal (fork_pid f)) after_wait t"
    "t = s\<lparr>dm_timer := (if dm_failure s - dm_exec s > 5 then 0 else dm_timer s), pr_ignored := [],
      dm_exec := clock (ker s), err := e, pr_forks := fs, ker := k\<rparr>"
    "records shm 1 p (word_of_int (fork_pid f)) n t" "removable shm t" "clock (ker t) = clock (ker s)"
    using run_command_parent [OF r rem f] by blast
  have t': "script t = []" "pr_waits t = Status st # evs" "dm_timer t = first_pause s" "pr_naps t = []" "pr_forks t = fs"
    "pr_sent t = pr_sent s" "dm_exec t = clock (ker s)"
    using records_script [OF t(3)] w(1) q by (simp_all add: t(2) first_pause_def)
  let ?u = "t\<lparr>pr_waits := evs, dm_failure := clock (ker t)\<rparr>"
  let ?v = "?u\<lparr>dm_timer := Suc (dm_timer ?u), ker := (ker ?u)\<lparr>clock := clock (ker ?u) + int (exp_seconds ! dm_timer ?u)\<rparr>\<rparr>"
  have "wait_for_signal (fork_pid f) t = Fin None (t\<lparr>pr_waits := evs\<rparr>)"
    using w(2) t' by (auto simp: wait_for_signal_def waitpid_def run_simps ended_def)
  then have run: "run_command (Obj shm) s = Fin None ?u"
    using t(1) by (simp add: run_simps after_wait_def time_now_def)
  have u: "records shm 1 p (word_of_int (fork_pid f)) n ?u" "removable shm ?u"
    using t(3,4) removable_cong [of ?u t shm] by simp_all
  have "end_of_turn (Obj shm) ?u = Fin (Ended (Obj shm)) ?v"
    using t' k by (intro end_of_turn_sleeps [OF u(1)]) simp_all
  with run have "daemon_turn (Obj shm) None s = Fin (Ended (Obj shm)) ?v"
    by (simp add: daemon_turn_def run_simps)
  moreover have "records shm 1 p (word_of_int (fork_pid f)) n ?v"
    using records_clock [where shm = shm and a = 1 and p = p and c = "word_of_int (fork_pid f)" and n = n
        and s = "?u\<lparr>dm_timer := Suc (dm_timer ?u)\<rparr>"] u(1) by simp
  moreover have "removable shm ?v"
    using u(2) removable_cong [of ?v ?u shm] by simp
  ultimately show thesis by (rule that) (use t(5) t' in \<open>simp_all add: first_pause_def\<close>)
qed

lemma loop_restarts:
  "records shm a p c m s \<Longrightarrow> removable shm s \<Longrightarrow> pr_forks s = map Parent_of qs \<Longrightarrow> 0 \<notin> set qs \<Longrightarrow>
    pr_waits s = map Status sts \<Longrightarrow> list_all ended sts \<Longrightarrow> length qs = Suc (length sts) \<Longrightarrow> pr_naps s = [] \<Longrightarrow>
    first_pause s + length sts \<le> length exp_seconds \<Longrightarrow>
    \<exists>t. daemon_loop (Suc (length sts + n)) (Obj shm) None s = Stop Hangs t \<and> records shm 1 p (word_of_nat (last qs)) m t \<and>
      pr_forks t = [] \<and> pr_sent t = pr_sent s \<and>
      clock (ker t) = clock (ker s) + int (sum_list (take (length sts) (drop (first_pause s) exp_seconds)))"
proof (induction sts arbitrary: s qs a c)
  case Nil
  then obtain q where q: "qs = [q]" by (cases qs) auto
  have "fork_pid (Parent_of q) \<noteq> 0" using Nil.prems(4) q by (simp add: fork_pid_def)
  with Nil.prems q obtain t where "daemon_turn (Obj shm) None s = Stop Hangs t" "records shm 1 p (word_of_int (fork_pid (Parent_of q))) m t"
    "pr_forks t = []" "pr_sent t = pr_sent s" "clock (ker t) = clock (ker s)"
    using turn_waits [OF Nil.prems(1,2), of "Parent_of q" "[]" thesis] by auto
  then show ?case by (simp add: bindr_Stop q fork_pid_def)
next
  case (Cons st sts)
  from Cons.prems(7) obtain q qs' where q: "qs = q # qs'" "length qs' = Suc (length sts)" by (auto simp: length_Suc_conv)
  then have ne: "qs' \<noteq> []" by auto
  have k: "first_pause s < length exp_seconds" using Cons.prems(9) by simp
  have "fork_pid (Parent_of q) \<noteq> 0" using Cons.prems(4) q by (simp add: fork_pid_def)
  with Cons.prems q k obtain t where t: "daemon_turn (Obj shm) None s = Fin (Ended (Obj shm)) t"
    "records shm 1 p (word_of_int (fork_pid (Parent_of q))) m t" "removable shm t"
    "pr_forks t = map Parent_of qs'" "pr_waits t = map Status sts" "pr_naps t = []" "pr_sent t = pr_sent s"
    "first_pause t = Suc (first_pause s)" "clock (ker t) = clock (ker s) + int (exp_seconds ! first_pause s)"
    using turn_ended [OF Cons.prems(1,2), of "Parent_of q" "map Parent_of qs'" st "map Status sts" thesis] by auto
  have "0 \<notin> set qs'" "list_all ended sts" "length qs' = Suc (length sts)" "first_pause t + length sts \<le> length exp_seconds"
    using Cons.prems t(8) q by simp_all
  from Cons.IH [OF t(2,3,4) this(1) t(5) this(2,3) t(6) this(4)] obtain u where
    u: "daemon_loop (Suc (length sts + n)) (Obj shm) None t = Stop Hangs u" "records shm 1 p (word_of_nat (last qs')) m u"
      "pr_forks u = []" "pr_sent u = pr_sent t"
      "clock (ker u) = clock (ker t) + int (sum_list (take (length sts) (drop (first_pause t) exp_seconds)))" by blast
  have "drop (first_pause s) exp_seconds = exp_seconds ! first_pause s # drop (first_pause t) exp_seconds"
    using k t(8) by (simp add: Cons_nth_drop_Suc)
  moreover have "daemon_loop (Suc (length (st # sts) + n)) (Obj shm) None s = daemon_loop (Suc (length sts + n)) (Obj shm) None t"
    using t(1) get_records(4) [OF t(2)] by (simp add: bindr_Fin)
  ultimately show ?case using u t(7,9) q(1) ne by simp
qed



section \<open>The child\<close>

text \<open>The processes share one mutex: an object whose set is gone cannot be used any more.\<close>

lemma lock_lost:
  assumes "script s = []" and "sems (ker s) (sem_id sm) = None"
  shows "Semaphore_lock sm n False 0 s = Fin (- 1) (s\<lparr>err := EINVAL\<rparr>)"
  using assms by (simp add: Semaphore_lock_op semop_quiet sem_attempt_def run_simps)

definition mutex_lost :: "SharedMemory \<Rightarrow> ipc \<Rightarrow> bool" where
  "mutex_lost shm k \<longleftrightarrow> (\<exists>sm. shm_sem shm = Obj sm \<and> sems k (sem_id sm) = None)"

lemma use_lost:
  assumes "mutex_lost shm (ker s)" and "script s = []"
  shows "SharedMemory_read_uint shm i s = Stop Assert_failed (s\<lparr>err := EINVAL\<rparr>)"
    and "SharedMemory_write_uint shm i w s = Stop Assert_failed (s\<lparr>err := EINVAL\<rparr>)"
  using assms
  by (auto simp: lock_lost mutex_lost_def SharedMemory_read_uint_def SharedMemory_write_uint_def deref_sem_def run_simps assertr_def)

lemma accessors_lost:
  assumes "mutex_lost shm (ker s)" and "script s = []"
  shows "get_cpid (Obj shm) s = Stop Assert_failed (s\<lparr>err := EINVAL\<rparr>)" "active (Obj shm) s = Stop Assert_failed (s\<lparr>err := EINVAL\<rparr>)"
    "set_pid (Obj shm) v s = Stop Assert_failed (s\<lparr>err := EINVAL\<rparr>)"
  using use_lost [OF assms] by (simp_all add: get_cpid_def active_def set_pid_def deref_shm_def run_simps)

lemma gone_lost:
  assumes "gone shm s" and "shm_sem shm = Obj sm" and "shm_sem shm' = Obj sm'" and "sem_id sm' = sem_id sm"
  shows "mutex_lost shm' (ker s)"
  using assms by (simp add: gone_def mutex_lost_def)

lemma records_sem: "records shm a p c n s \<Longrightarrow> \<exists>sm. shm_sem shm = Obj sm"
  by (auto simp: records_def shm_ready_def)

text \<open>The count goes up by one.\<close>

lemma inc_records:
  assumes "records shm a p c n s" and "sint n < 2 ^ 31 - 1"
  obtains f where "inc_count (Obj shm) s = Fin () (s\<lparr>ker := (ker s)\<lparr>segs := f\<rparr>\<rparr>)"
    and "records shm a p c (n + 1) (s\<lparr>ker := (ker s)\<lparr>segs := f\<rparr>\<rparr>)"
    and "removable shm s \<Longrightarrow> removable shm (s\<lparr>ker := (ker s)\<lparr>segs := f\<rparr>\<rparr>)"
proof -
  have inc: "inc_count (Obj shm) s = SharedMemory_write_uint shm 3 (n + 1) s"
    using assms(2) get_records(3) [OF assms(1)]
    by (simp add: inc_count_def deref_shm_def OFFSET_COUNT_def run_simps)
  show thesis
    by (rule write_record [OF assms(1), of 3 "n + 1" a p c "n + 1"]) (simp_all add: inc that)
qed

text \<open>What the daemon does after the wait for a child \<open>q\<close>.\<close>

definition after_child :: "shmem \<Rightarrow> int \<Rightarrow> 'z dm_os_scheme \<Rightarrow> ('z dm_os_scheme, turn) run" where
  "after_child p q = bindr (bindr (wait_for_signal q) after_wait) (\<lambda>j. case j of Some g \<Rightarrow> retr (Jumped g) | None \<Rightarrow> end_of_turn p)"

lemma turn_after_child:
  assumes "records shm a p c n s" and "removable shm s" and "pr_forks s = f # fs" and "fork_pid f \<noteq> 0"
  obtains t where "daemon_turn (Obj shm) None s = after_child (Obj shm) (fork_pid f) t"
    and "records shm 1 p (word_of_int (fork_pid f)) n t" and "pr_waits t = pr_waits s" and "pr_forks t = fs"
proof -
  obtain k e t where t: "run_command (Obj shm) s = bindr (wait_for_signal (fork_pid f)) after_wait t"
    "t = s\<lparr>dm_timer := (if dm_failure s - dm_exec s > 5 then 0 else dm_timer s), pr_ignored := [],
      dm_exec := clock (ker s), err := e, pr_forks := fs, ker := k\<rparr>"
    "records shm 1 p (word_of_int (fork_pid f)) n t"
    using run_command_parent [OF assms] by blast
  then show thesis by (intro that [of t]) (simp_all add: daemon_turn_def after_child_def bindr_def)
qed

lemma after_child_lost:
  assumes "mutex_lost shm (ker u)" and "script u = []" and "pr_waits u = Status st # evs" and "ended st"
  shows "\<exists>v. after_child (Obj shm) q u = Stop Assert_failed v"
proof -
  let ?u = "u\<lparr>pr_waits := evs, dm_failure := clock (ker u)\<rparr>"
  have "bindr (wait_for_signal q) after_wait u = Fin None ?u"
    using assms(2-4) by (auto simp: wait_for_signal_def waitpid_def run_simps ended_def after_wait_def time_now_def)
  moreover have "end_of_turn (Obj shm) ?u = Stop Assert_failed (?u\<lparr>err := EINVAL\<rparr>)"
    using accessors_lost(2) [of shm ?u] assms(1,2) by (simp add: end_of_turn_def bindr_Stop)
  ultimately show ?thesis by (simp add: after_child_def bindr_Fin)
qed


definition no_command :: "fork_answer list \<Rightarrow> wait_event list \<Rightarrow> dm_os" where
  "no_command f w = (waiting f w)\<lparr>pr_exec := Some ENOENT\<rparr>"


section \<open>Ending\<close>

text \<open>
  The two signals that end the daemon. \<open>SIGUSR1\<close> goes on to the child, \<open>SIGUSR2\<close> does not. With both the
  daemon removes the segment and its mutex, so that no key names them any more, and exits with 1.
\<close>

theorem daemon_dies:
  assumes "records shm a p c m s" and "removable shm s" and "pr_forks s = Parent_of q # fs" and "0 < q" and "q < 2 ^ 31"
    and "pr_waits s = Signalled g # evs" and "\<not> pr_blocked s" and "pr_target s (int q)" and "g \<in> {SIGUSR1, SIGUSR2}"
  shows "\<exists>t. daemon_loop (Suc (Suc n)) (Obj shm) None s = Stop (Exited 1) t \<and>
    pr_sent t = pr_sent s @ (if g = SIGUSR1 then [(int q, SIGUSR1)] else []) \<and> gone shm t"
proof (cases "g = SIGUSR1")
  case True
  with loop_usr1 [OF assms(1-3) _ _ assms(7), of evs n] assms show ?thesis
    by (simp add: fork_pid_def sint_small del: daemon_loop.simps)
next
  case False
  with assms(9) have g: "g = SIGUSR2" by simp
  have "fork_pid (Parent_of q) \<noteq> 0" using assms(4) by (simp add: fork_pid_def)
  then obtain t where t: "daemon_turn (Obj shm) None s = Fin (Jumped g) t"
    "records shm 1 p (word_of_int (fork_pid (Parent_of q))) m t" "removable shm t" "pr_sent t = pr_sent s"
    by (rule turn_signalled [OF assms(1-3) _ assms(6,7)]) auto
  obtain k at where "(die (Obj shm) t :: ('a dm_os_scheme, unit) run) = Stop (Exited 1) (t\<lparr>ker := k, attached := at\<rparr>)"
    "gone shm (t\<lparr>ker := k, attached := at\<rparr>)"
    using die_gone [OF t(2,3)] by blast
  with t(1,4) show ?thesis
    by (auto simp: g bindr_Fin daemon_turn_def [of _ "Some _"] on_signal_def bindr_Stop)
qed

lemma daemon_dies_witness:
  "\<exists>t. daemon_loop (Suc (Suc 0)) (Obj running_obj) None (waiting [Parent_of 41] [Signalled SIGUSR2]) = Stop (Exited 1) t \<and>
     pr_sent t = [] \<and> gone running_obj t"
  using daemon_dies [OF waiting_records waiting_fields(1) _ _ waiting_fields(2), where q = 41 and g = SIGUSR2 and fs = "[]" and evs = "[]" and n = 0]
  by (simp add: waiting_fields del: daemon_loop.simps)



end
