(* ===== verification/Padding.thy ===== *)
theory Padding
  imports SharedMemory
begin

text \<open>
  Runs in which nothing happens for a while: what a run does in a quiet system it does as well while the script has idle
  entries, one for each call it makes, and the rest of the script is left for what follows. So the result of a run
  in a quiet system tells what happens up to the point at which another process acts.
\<close>

named_theorems padded \<open>runs that take idle entries of the script\<close>

section \<open>Idle entries\<close>

definition idle :: "(move \<times> errno option) list \<Rightarrow> bool" where
  "idle evs \<longleftrightarrow> set evs \<subseteq> {(\<lambda>k. k, None)}"

lemma idle_simps [simp]: "idle []" "idle (evs @ evs') \<longleftrightarrow> idle evs \<and> idle evs'" "idle [(\<lambda>k. k, None)]"
  by (auto simp: idle_def)

text \<open>A body of a call that does not look at the script.\<close>

definition plain :: "('z os_scheme \<Rightarrow> ('z os_scheme, 'a) run) \<Rightarrow> bool" where
  "plain m \<longleftrightarrow> (\<forall>s a t r. m s = Fin a t \<longrightarrow> m (s\<lparr>script := r\<rparr>) = Fin a (t\<lparr>script := r\<rparr>))"

definition padded :: "('z os_scheme \<Rightarrow> ('z os_scheme, 'a) run) \<Rightarrow> bool" where
  "padded m \<longleftrightarrow> (\<forall>s a t. script s = [] \<longrightarrow> m s = Fin a t \<longrightarrow> script t = [] \<and>
     (\<exists>evs. idle evs \<and> (\<forall>rest. m (s\<lparr>script := evs @ rest\<rparr>) = Fin a (t\<lparr>script := rest\<rparr>))))"

lemma paddedD:
  assumes "padded m" and "script s = []" and "m s = Fin a t"
  obtains evs where "script t = []" and "idle evs" and "\<And>rest. m (s\<lparr>script := evs @ rest\<rparr>) = Fin a (t\<lparr>script := rest\<rparr>)"
proof -
  from assms obtain evs where "script t = []" "idle evs" "\<forall>rest. m (s\<lparr>script := evs @ rest\<rparr>) = Fin a (t\<lparr>script := rest\<rparr>)"
    unfolding padded_def by blast
  then show thesis by (intro that [of evs]) simp_all
qed

lemma plainD: "plain m \<Longrightarrow> m s = Fin a t \<Longrightarrow> m (s\<lparr>script := r\<rparr>) = Fin a (t\<lparr>script := r\<rparr>)"
  by (simp add: plain_def)

lemma plain_script:
  assumes "plain m" and "m s = Fin a t"
  shows "script t = script s"
proof -
  have "Fin a t = Fin a (t\<lparr>script := script s\<rparr>)" using plainD [OF assms, of "script s"] assms(2) by simp
  then have "script t = script (t\<lparr>script := script s\<rparr>)" by simp
  then show ?thesis by simp
qed

lemma padded_plain: "plain m \<Longrightarrow> padded m"
  unfolding padded_def by (auto simp: plainD plain_script intro!: exI [of _ "[]"])

section \<open>Rules\<close>

lemma padded_bind [padded]:
  assumes "padded m" and "\<And>a. padded (f a)"
  shows "padded (bindr m f)"
  unfolding padded_def
proof (intro allI impI)
  fix s b t assume s: "script s = []" and run: "bindr m f s = Fin b t"
  then obtain a u where u: "m s = Fin a u" "f a u = Fin b t" by (auto simp: bindr_def split: run.splits)
  from assms(1) s u(1) obtain evs where e: "script u = []" "idle evs"
    "\<And>rest. m (s\<lparr>script := evs @ rest\<rparr>) = Fin a (u\<lparr>script := rest\<rparr>)" by (rule paddedD) blast
  from assms(2) e(1) u(2) obtain evs' where e': "script t = []" "idle evs'"
    "\<And>rest. f a (u\<lparr>script := evs' @ rest\<rparr>) = Fin b (t\<lparr>script := rest\<rparr>)" by (rule paddedD) blast
  have "bindr m f (s\<lparr>script := (evs @ evs') @ rest\<rparr>) = Fin b (t\<lparr>script := rest\<rparr>)" for rest
    using e(3) e'(3) by (simp add: bindr_def)
  with e(2) e'(1,2) show "script t = [] \<and> (\<exists>evs. idle evs \<and> (\<forall>rest. bindr m f (s\<lparr>script := evs @ rest\<rparr>) = Fin b (t\<lparr>script := rest\<rparr>)))"
    by (intro conjI exI [of _ "evs @ evs'"]) simp_all
qed

lemma padded_basic [padded]: "padded (retr a)" "padded (stop w)" "padded (assertr b)"
  by (rule padded_plain; simp add: plain_def retr_def stop_def assertr_def)+

lemma padded_never: "(\<And>s a t. m s \<noteq> Fin a t) \<Longrightarrow> padded m"
  by (simp add: padded_def)

lemma padded_gets: "(\<And>s r. g (s\<lparr>script := r\<rparr>) = g s) \<Longrightarrow> padded (gets g)"
  by (rule padded_plain) (simp add: plain_def gets_def)

lemma padded_modify: "(\<And>s r. g (s\<lparr>script := r\<rparr>) = (g s)\<lparr>script := r\<rparr>) \<Longrightarrow> padded (modify g)"
  by (rule padded_plain) (simp add: plain_def modify_def)

lemma padded_if [padded]: "padded m \<Longrightarrow> padded m' \<Longrightarrow> padded (if b then m else m')"
  by simp

lemma padded_option [padded]:
  "padded m \<Longrightarrow> (\<And>x. padded (f x)) \<Longrightarrow> padded (case p of None \<Rightarrow> m | Some x \<Rightarrow> f x)"
  by (cases p) simp_all

lemma padded_pair [padded]: "(\<And>a b. padded (f a b)) \<Longrightarrow> padded (case p of (a, b) \<Rightarrow> f a b)"
  by (cases p) simp

lemma padded_let [padded]: "(\<And>x. padded (f x)) \<Longrightarrow> padded (let x = e in f x)"
  by simp

section \<open>Calls\<close>

text \<open>Each call takes one entry.\<close>

lemma padded_one:
  assumes "\<And>s rest. script s = [] \<Longrightarrow> m (s\<lparr>script := (\<lambda>k. k, None) # rest\<rparr>) = m' (s\<lparr>script := rest\<rparr>)"
    and "\<And>s. script s = [] \<Longrightarrow> m s = m' s" and "plain m'"
  shows "padded m"
  unfolding padded_def
proof (intro allI impI)
  fix s a t assume s: "script s = []" and "m s = Fin a t"
  with assms(2) have run: "m' s = Fin a t" by simp
  have "m (s\<lparr>script := [(\<lambda>k. k, None)] @ rest\<rparr>) = Fin a (t\<lparr>script := rest\<rparr>)" for rest
    using assms(1) [OF s, of rest] plainD [OF assms(3) run] by simp
  with plain_script [OF assms(3) run] s
  show "script t = [] \<and> (\<exists>evs. idle evs \<and> (\<forall>rest. m (s\<lparr>script := evs @ rest\<rparr>) = Fin a (t\<lparr>script := rest\<rparr>)))"
    by (intro conjI exI [of _ "[(\<lambda>k. k, None)]"]) simp_all
qed

lemma interact_idle: "interact (s\<lparr>script := (\<lambda>k. k, None) # rest\<rparr>) = (None, s\<lparr>script := rest\<rparr>)"
  by (simp add: interact_def)

lemma padded_syscall: "plain body \<Longrightarrow> padded (syscall bad body)"
  by (rule padded_one [of _ body]) (simp_all add: syscall_def interact_idle run_simps)

lemma seg_at_script [simp]: "seg_at a (s\<lparr>script := r\<rparr>) = seg_at a s"
  by (simp add: seg_at_def cong: option.case_cong address.case_cong)

lemma padded_sleep [padded]: "padded (sleep n)"
  by (rule padded_one [of _ "\<lambda>s. Fin () (s\<lparr>ker := (ker s)\<lparr>clock := clock (ker s) + int n\<rparr>\<rparr>)"])
    (simp_all add: sleep_def interact_idle run_simps plain_def)

lemma padded_mem [padded]: "padded (mem_read a off n)" "padded (mem_write a off bs)"
proof -
  show "padded (mem_read a off n)"
    by (rule padded_one [of _ "\<lambda>t. case seg_at a t of None \<Rightarrow> Stop Undefined t | Some (i, sg) \<Rightarrow>
        if off + n \<le> length (sg_data sg) then Fin (take n (drop off (sg_data sg))) t else Stop Undefined t"])
      (auto simp: mem_read_def interact_idle run_simps plain_def split: option.splits if_splits)
  show "padded (mem_write a off bs)"
    by (rule padded_one [of _ "\<lambda>t. case seg_at a t of None \<Rightarrow> Stop Undefined t | Some (i, sg) \<Rightarrow>
        if off + length bs \<le> length (sg_data sg) then Fin () (t\<lparr>ker := (ker t)\<lparr>segs := (segs (ker t))(i \<mapsto>
          sg\<lparr>sg_data := overwrite off bs (sg_data sg)\<rparr>)\<rparr>\<rparr>) else Stop Undefined t"])
      (auto simp: mem_write_def interact_idle run_simps plain_def split: option.splits if_splits)
qed

lemma padded_words [padded]: "padded (load_u32 a j)" "padded (store_u32 a j w)"
  unfolding load_u32_def store_u32_def by (intro padded)+

lemma padded_calls [padded]:
  "padded (semget k n c)" "padded (semctl_setall i vs)" "padded (semctl_getval i n)" "padded (semctl_rmid i)"
  "padded (shmget k n c)" "padded (shmat i)" "padded mem_lock_call"
  unfolding semget_def semctl_setall_def semctl_getval_def semctl_rmid_def shmget_def shmat_def mem_lock_call_def
  by (rule padded_syscall, simp add: plain_def fails_def Let_def split: option.splits if_splits)+

lemma padded_semop [padded]: "padded (semop i b)"
proof -
  let ?body = "\<lambda>s. case sem_attempt (pid_self s) i b (ker s) of
     Done k \<Rightarrow> Fin 0 (s\<lparr>ker := k\<rparr>) | Failed e \<Rightarrow> Fin (- 1) (s\<lparr>err := e\<rparr>) | Would_block \<Rightarrow> Stop Hangs s"
  have "plain ?body" by (auto simp: plain_def split: attempt.splits)
  show ?thesis
    unfolding padded_def
  proof (intro allI impI)
    fix s :: "'z os_scheme" and a t assume s: "script s = []" and run: "semop i b s = Fin a t"
    from semop_quiet [OF s] run have r: "?body s = Fin a t" by simp
    then have "sem_attempt (pid_self s) i b (ker s) \<noteq> Would_block" by auto
    then have "semop i b (s\<lparr>script := [(\<lambda>k. k, None)] @ rest\<rparr>) = ?body (s\<lparr>script := rest\<rparr>)" for rest
      by (simp add: semop_def syscall_def interact_idle fails_def split: attempt.split)
    with plainD [OF \<open>plain ?body\<close> r] plain_script [OF \<open>plain ?body\<close> r] s
    show "script t = [] \<and> (\<exists>evs. idle evs \<and> (\<forall>rest. semop i b (s\<lparr>script := evs @ rest\<rparr>) = Fin a (t\<lparr>script := rest\<rparr>)))"
      by (intro conjI exI [of _ "[(\<lambda>k. k, None)]"]) simp_all
  qed
qed

lemma padded_malloc [padded]: "padded malloc"
  by (rule padded_plain) (auto simp: plain_def malloc_def split: list.splits)

lemma padded_time [padded]: "padded time_now"
  by (rule padded_plain) (simp add: plain_def time_now_def)

lemma padded_printf [padded]: "padded (printf f xs)"
  unfolding printf_def by (rule padded_modify) simp

lemma padded_fields [padded]: "padded (gets err)" "padded (gets junk)" "padded (gets (SEMKEY q))" "padded (gets (SHMKEY q))"
  by (rule padded_gets, simp add: SEMKEY_def SHMKEY_def)+

section \<open>The classes\<close>

lemma padded_attempts [padded]: "padded (lock_attempts this b n e)"
  by (induction n arbitrary: e) (auto intro!: padded)

lemma padded_Semaphore [padded]:
  "padded (Semaphore_lock this n p t)" "padded (Semaphore_unlock this n p)" "padded (Semaphore_delete this b)"
  "padded (Semaphore_new k c z att)"
  unfolding Semaphore_lock_def Semaphore_unlock_def Semaphore_used_def Semaphore_delete_def Semaphore_new_def Semaphore_init_def Let_def
  by (intro padded)+

lemma padded_deref_sem [padded]: "(\<And>sm. padded (f sm)) \<Longrightarrow> padded (deref_sem this f)"
  by (cases "shm_sem this") (simp_all add: deref_sem_def padded)

lemma padded_SharedMemory [padded]:
  "padded (SharedMemory_write_uint shm n v)" "padded (SharedMemory_read_uint shm n)" "padded (SharedMemory_new k m att)"
proof -
  show "padded (SharedMemory_write_uint shm n v)" "padded (SharedMemory_read_uint shm n)"
    unfolding SharedMemory_write_uint_def SharedMemory_read_uint_def by (intro padded)+
  have "padded (SharedMemory_delete x False)" for x
    unfolding SharedMemory_delete_def if_False by (intro padded)
  then show "padded (SharedMemory_new k m att)"
    unfolding SharedMemory_new_def SharedMemory_segment_def Let_def by (intro padded)
qed

section \<open>The next call\<close>

text \<open>A run that begins with a call: what others do just before it is in the kernel that the call sees.\<close>

definition calls :: "('z os_scheme \<Rightarrow> ('z os_scheme, 'a) run) \<Rightarrow> bool" where
  "calls m \<longleftrightarrow> (\<forall>s mv. script s = [] \<longrightarrow> m (s\<lparr>script := [(mv, None)]\<rparr>) = m (s\<lparr>ker := mv (ker s)\<rparr>))"

lemma callsD: "calls m \<Longrightarrow> script s = [] \<Longrightarrow> m (s\<lparr>script := [(mv, None)]\<rparr>) = m (s\<lparr>ker := mv (ker s)\<rparr>)"
  by (simp add: calls_def)

lemma calls_bind: "calls m \<Longrightarrow> calls (bindr m f)"
  by (simp add: calls_def bindr_def)

lemma quiet_again: "script s = [] \<Longrightarrow> s\<lparr>ker := k, script := []\<rparr> = s\<lparr>ker := k\<rparr>"
  by simp

lemma calls_syscall: "calls (syscall bad body)"
  by (auto simp: calls_def syscall_def interact_def quiet_again)

lemma calls_sleep: "calls (sleep n)"
  by (auto simp: calls_def sleep_def interact_def quiet_again)

lemma calls_lock: "calls (Semaphore_lock sm n b 0)"
  unfolding Semaphore_lock_def LOCK_BLOCKING_def Let_def semop_def by (simp add: calls_bind calls_syscall)

lemma calls_access:
  assumes "shm_sem shm = Obj sm"
  shows "calls (SharedMemory_read_uint shm n)" "calls (SharedMemory_write_uint shm n v)"
  using assms
  unfolding SharedMemory_read_uint_def SharedMemory_write_uint_def deref_sem_def by (simp_all add: calls_bind calls_lock)

end
