(* ===== verification/Daemonize_Launch.thy ===== *)
theory Daemonize_Launch
  imports Daemonize_Session Daemonize_Life Padding
begin

text \<open>
  A launch from its command line to the running daemon: the launcher, the session leader, the daemon and its child
  are four runs of one program on one kernel, and what one of them leaves there is what the others see.
\<close>

section \<open>The channel as a process sees it\<close>

text \<open>The channel exists with these records, and the process has its segment attached.\<close>

definition on_channel :: "u32 \<Rightarrow> SharedMemory \<Rightarrow> u32 \<Rightarrow> u32 \<Rightarrow> u32 \<Rightarrow> u32 \<Rightarrow> 'z os_scheme \<Rightarrow> bool" where
  "on_channel key shm a p c n s \<longleftrightarrow> (\<exists>i sg j gs. daemon_named key i sg j gs a p c n s \<and> ss_adj gs = (\<lambda>_ _. 0) \<and>
     seg_at (shm_addr shm) s = Some (i, sg) \<and> shm_id shm = i \<and> shm_size shm \<le> length (sg_data sg) \<and> junk s \<le> shm_size shm \<and>
     shm_sem shm = Obj \<lparr>sem_key = guard_key key, sem_id = j, sem_count = 1, sem_size = 1\<rparr>)"

lemma on_channel_records:
  assumes "on_channel key shm a p c n s"
  shows "records shm a p c n s" and "removable shm s"
proof -
  from assms obtain i sg j gs where d: "daemon_named key i sg j gs a p c n s" "seg_at (shm_addr shm) s = Some (i, sg)" "shm_id shm = i"
    "shm_size shm \<le> length (sg_data sg)" "shm_sem shm = Obj \<lparr>sem_key = guard_key key, sem_id = j, sem_count = 1, sem_size = 1\<rparr>"
    by (auto simp: on_channel_def)
  note n = d(1) [unfolded daemon_named_def]
  have "mutex_free \<lparr>sem_key = guard_key key, sem_id = j, sem_count = 1, sem_size = 1\<rparr> s"
    using n by (simp add: mutex_free_def sem_ok_def has_sem_def sem_value_def names_set_def)
  with n d(2,5) show "records shm a p c n s" by (simp add: records_def shm_ready_def shm_cells_def)
  from n d(2-4) show "removable shm s" by (simp add: removable_def)
qed

lemma on_channel_quiet: "on_channel key shm a p c n s \<Longrightarrow> script s = []"
  using on_channel_records(1) records_script by blast

lemma on_channel_made:
  assumes "shm_can_make key 16 s" and "junk s \<le> 16"
  shows "on_channel key (made_obj key 16 s) 0 0 0 0 (made_shm key 16 s)"
proof -
  let ?sg = "(made_seg key 16 s)\<lparr>sg_nattch := 1\<rparr>" and ?gs = "made_set (guard_key key) 1 1 s"
  have cells: "replicate 4 (0 :: u32) = [0, 0, 0, 0]" by (simp add: numeral_eq_Suc)
  have f: "semvmx (ker (made_shm key 16 s)) = semvmx (ker s)" "junk (made_shm key 16 s) = junk s"
    by (simp_all add: made_shm_def Let_def)
  have "daemon_named key (int (next_shm (ker s))) ?sg (int (next_sem (ker s))) ?gs 0 0 0 0 (made_shm key 16 s)"
    using made_shm_names [OF assms(1)] assms(1)
    by (simp add: daemon_named_def made_set_def shm_can_make_def f cells_zero cells made_seg_def)
  with made_shm_ready(2) [OF assms(1)] show ?thesis
    unfolding on_channel_def
    by (intro exI [of _ "int (next_shm (ker s))"] exI [of _ ?sg] exI [of _ "int (next_sem (ker s))"] exI [of _ ?gs])
      (simp add: made_obj_def made_set_def f assms(2) made_seg_def)
qed

definition same_view :: "'z os_scheme \<Rightarrow> 'z os_scheme \<Rightarrow> bool" where
  "same_view s t \<longleftrightarrow> mallocs t = mallocs s \<and> ftok_of t = ftok_of s \<and> junk t = junk s \<and> attached t = attached s"

text \<open>Only the segments and the clock change, and the records are as they are then.\<close>

lemma on_channel_change:
  assumes "on_channel key shm a p c n s" and "records shm a' p' c' n' t" and "removable shm t"
    and "sems (ker t) = sems (ker s)" "semkeys (ker t) = semkeys (ker s)" "shmkeys (ker t) = shmkeys (ker s)"
      "semvmx (ker t) = semvmx (ker s)"
    and "same_view s t"
  shows "on_channel key shm a' p' c' n' t"
proof -
  from assms(1) obtain i sg j gs where d: "daemon_named key i sg j gs a p c n s" "ss_adj gs = (\<lambda>_ _. 0)" "shm_id shm = i"
    "junk s \<le> shm_size shm" "shm_sem shm = Obj \<lparr>sem_key = guard_key key, sem_id = j, sem_count = 1, sem_size = 1\<rparr>"
    by (auto simp: on_channel_def)
  from assms(3) d(3) obtain sg' where sg': "seg_at (shm_addr shm) t = Some (i, sg')" "shm_size shm \<le> length (sg_data sg')" "\<not> sg_dest sg'"
    by (auto simp: removable_def)
  then have "segs (ker t) i = Some sg'" by (blast dest: seg_at_Some_segs)
  moreover have "cells (sg_data sg') = [a', p', c', n']" using assms(2) sg'(1) by (simp add: records_def shm_cells_def)
  moreover note n = d(1) [unfolded daemon_named_def names_seg_def names_set_def]
  ultimately have "daemon_named key i sg' j gs a' p' c' n' t"
    using assms(4-8) records_script [OF assms(2)] sg'(3)
    by (simp add: daemon_named_def names_seg_def names_set_def key_ok_def SEMKEY_def SHMKEY_def same_view_def)
  with d(2-5) sg' assms(8) show ?thesis by (auto simp: on_channel_def same_view_def)
qed

lemma on_channel_cong:
  assumes "on_channel key shm a p c n s" and "ker t = ker s" and "script t = []" and "same_view s t"
  shows "on_channel key shm a p c n t"
proof -
  have q: "script t = script s" using assms(1,3) by (simp add: on_channel_quiet)
  show ?thesis
    using on_channel_records [OF assms(1)] records_cong [OF assms(2) q] removable_cong [of t s shm] assms
    by (intro on_channel_change [OF assms(1)]) (simp_all add: same_view_def)
qed

text \<open>A process ends; what it leaves in the kernel is what a process with the same attachments sees.\<close>

lemma on_channel_exit:
  assumes "on_channel key shm a p c n s" and "script t = []" and "same_view s t"
  shows "on_channel key shm a p c n (t\<lparr>ker := ker (exit_process s)\<rparr>)" and "dm_rep key (Some (p, c, n)) (exit_process s)"
proof -
  from assms(1) obtain i sg j gs where d: "daemon_named key i sg j gs a p c n s" "ss_adj gs = (\<lambda>_ _. 0)" "shm_id shm = i"
    "seg_at (shm_addr shm) s = Some (i, sg)" "shm_size shm \<le> length (sg_data sg)"
    "junk s \<le> shm_size shm" "shm_sem shm = Obj \<lparr>sem_key = guard_key key, sem_id = j, sem_count = 1, sem_size = 1\<rparr>"
    by (auto simp: on_channel_def)
  obtain m where m: "daemon_named key i (sg\<lparr>sg_nattch := m\<rparr>) j gs a p c n (exit_process s)"
    using daemon_named_exit [OF d(1,2)] ..
  let ?t = "t\<lparr>ker := ker (exit_process s)\<rparr>"
  have t: "daemon_named key i (sg\<lparr>sg_nattch := m\<rparr>) j gs a p c n ?t"
    using daemon_named_cong [of ?t "exit_process s" key i "sg\<lparr>sg_nattch := m\<rparr>"] m assms on_channel_quiet [OF assms(1)]
    by (simp add: exit_process_def same_view_def)
  then have "segs (ker ?t) i = Some (sg\<lparr>sg_nattch := m\<rparr>)" by (simp add: daemon_named_def names_seg_def)
  then have "seg_at (shm_addr shm) ?t = Some (i, sg\<lparr>sg_nattch := m\<rparr>)"
    using d(4) assms(3) by (auto simp: seg_at_def same_view_def split: address.splits option.splits)
  with t d assms(3) show "on_channel key shm a p c n ?t"
    unfolding on_channel_def same_view_def
    by (intro exI [of _ i] exI [of _ "sg\<lparr>sg_nattch := m\<rparr>"] exI [of _ j] exI [of _ gs]) simp
  show "dm_rep key (Some (p, c, n)) (exit_process s)"
    by (rule dm_repI [OF m _ d(2)]) (use d(5,6) in \<open>simp add: exit_process_def\<close>)
qed

lemma on_channel_shared:
  assumes "on_channel key shm a p c n s"
  shows "on_channel key shm a p c n (shared s)"
  using on_channel_records [OF assms]
  by (intro on_channel_change [OF assms]) (simp_all add: records_shared removable_shared, simp_all add: shared_def same_view_def)

section \<open>The opening\<close>

text \<open>What the three processes have in common: the line, the segment, and the records as they are at first.\<close>

definition prologue :: "u32 \<Rightarrow> 'z os_scheme \<Rightarrow> ('z os_scheme, shmem \<times> int \<times> int \<times> int \<times> int) run" where
  "prologue key =
     bindr (SharedMemory_new key 16 True) (\<lambda>q. let p = pointer_of q in
     bindr (get_pid p) (\<lambda>pid. bindr (get_cpid p) (\<lambda>cpid. bindr (get_count p) (\<lambda>count. bindr (key_of p) (\<lambda>k.
     bindr (printf ''Daemonizing...'' []) (\<lambda>_. retr (p, pid, cpid, count, k)))))))"

text \<open>What the launcher does after the fork.\<close>

definition launched :: "shmem \<Rightarrow> int \<Rightarrow> int \<Rightarrow> int \<Rightarrow> 'z dm_os_scheme \<Rightarrow> ('z dm_os_scheme, int) run" where
  "launched p pid cpid count =
     bindr (await_daemon p 5 (pid, cpid)) (\<lambda>(pid, cpid).
     bindr (key_of p) (\<lambda>key.
     bindr (daemonstr key pid cpid count) (\<lambda>buffer.
     bindr (printf ''Done%s'' buffer) (\<lambda>_. retr 0))))"

lemma padded_deref_shm [padded]: "(\<And>shm. padded (f shm)) \<Longrightarrow> padded (deref_shm p f)"
  by (cases p) (simp_all add: deref_shm_def padded)

lemma padded_accessors [padded]:
  "padded (get_pid p)" "padded (get_cpid p)" "padded (get_count p)" "padded (key_of p)"
  unfolding get_pid_def get_cpid_def get_count_def key_of_def by (intro padded)+

lemma padded_prologue: "padded (prologue key)"
  unfolding prologue_def Let_def by (intro padded)

lemma line_after_prologue:
  assumes "0 < k" and "k < 2 ^ 31" and "cmd \<noteq> []" and "prologue (word_of_int k) s = Fin (Obj shm, 0, 0, n, j) t"
  shows "daemonize_main (''-S'' # decimal_int k # ''--'' # cmd) s =
    bindr (daemonize (Obj shm)) (\<lambda>_. launched (Obj shm) 0 0 n) t"
proof -
  from assms(4) obtain q u where u: "SharedMemory_new (word_of_int k) 16 True s = Fin q u" "pointer_of q = Obj shm"
    by (auto simp: prologue_def bindr_def Let_def retr_def printf_def modify_def split: run.splits)
  then have q: "q = Some shm" by (simp add: pointer_of_def split: option.splits)
  show ?thesis
    using assms(4) u(1)
    by (auto simp: daemon_lines(3) [OF assms(1-3)] q pointer_of_def prologue_def start_def launched_def bindr_def Let_def retr_def printf_def
        modify_def split: run.splits)
qed

lemma prologue_made:
  assumes "shm_can_make key 16 s" and "junk s \<le> 16"
  shows "prologue key s = Fin (Obj (made_obj key 16 s), 0, 0, 0, sint key) ((made_shm key 16 s)\<lparr>out := out s @ [(''Daemonizing...'', [])]\<rparr>)"
proof -
  have "out (made_shm key 16 s) = out s" by (simp add: made_shm_def Let_def attach_seg_def)
  with SharedMemory_new_made [OF assms(1), of True] get_records [OF on_channel_records(1) [OF on_channel_made [OF assms]]]
  show ?thesis by (simp add: prologue_def Let_def run_simps pointer_of_def printf_def made_obj_def)
qed

text \<open>A launch up to the first fork, with others idle until then, and whatever the script holds for afterwards.\<close>

lemma line_opened:
  fixes s :: "'z dm_os_scheme"
  assumes "0 < k" and "k < 2 ^ 31" and "cmd \<noteq> []" and "shm_can_make (word_of_int k) 16 s" and "junk s \<le> 16"
  defines "t \<equiv> (made_shm (word_of_int k) 16 s)\<lparr>out := out s @ [(''Daemonizing...'', [])]\<rparr>" and "p \<equiv> Obj (made_obj (word_of_int k) 16 s)"
  obtains evs where "idle evs" and "\<And>rest. daemonize_main (''-S'' # decimal_int k # ''--'' # cmd) (s\<lparr>script := evs @ rest\<rparr>) =
      bindr (daemonize p) (\<lambda>_. launched p 0 0 0) (t\<lparr>script := rest\<rparr>)"
    and "daemonize_main (''-S'' # decimal_int k # ''--'' # cmd) s = bindr (daemonize p) (\<lambda>_. launched p 0 0 0) t"
proof -
  have open': "prologue (word_of_int k) s = Fin (p, 0, 0, 0, sint (word_of_int k :: u32)) t"
    unfolding t_def p_def by (rule prologue_made [OF assms(4,5)])
  have "script s = []" using assms(4) by (simp add: shm_can_make_def can_make_def)
  from paddedD [OF padded_prologue this open'] obtain evs where e: "idle evs"
    "\<And>rest. prologue (word_of_int k) (s\<lparr>script := evs @ rest\<rparr>) = Fin (p, 0, 0, 0, sint (word_of_int k :: u32)) (t\<lparr>script := rest\<rparr>)"
    by metis
  show thesis
    using that [OF e(1)] line_after_prologue [OF assms(1-3)] e(2) open' unfolding p_def by blast
qed

section \<open>The session leader\<close>

lemma shared_script [simp]: "shared (s\<lparr>script := r\<rparr>) = (shared s)\<lparr>script := r\<rparr>"
  by (simp add: shared_def)

lemma shared_fields [simp]:
  "script (shared s) = script s" "pr_forks (shared s) = pr_forks s" "pr_waits (shared s) = pr_waits s" "pr_naps (shared s) = pr_naps s"
  "pr_exec (shared s) = pr_exec s" "pr_fd_limit (shared s) = pr_fd_limit s" "pr_sent (shared s) = pr_sent s"
  "pr_target (shared s) = pr_target s" "out (shared s) = out s" "same_view t (shared s) = same_view t s"
  by (simp_all add: shared_def same_view_def)

lemma same_view_trans: "same_view s t \<Longrightarrow> same_view t u \<Longrightarrow> same_view s u"
  by (simp add: same_view_def)

lemma same_view_ker [simp]: "same_view s (t\<lparr>ker := k\<rparr>) = same_view s t"
  by (simp add: same_view_def)

lemma same_view_sym: "same_view s t \<Longrightarrow> same_view t s"
  by (simp add: same_view_def)

text \<open>The process that two forks lead to.\<close>

definition grandchild :: "nat \<Rightarrow> nat \<Rightarrow> fork_answer list \<Rightarrow> 'z proc_os_scheme \<Rightarrow> 'z proc_os_scheme" where
  "grandchild l d fs s = (shared ((shared s)\<lparr>pid_self := l\<rparr>))\<lparr>pid_self := d, pr_forks := fs\<rparr>"

lemma grandchild_fields [simp]:
  "script (grandchild l d fs s) = script s" "pr_forks (grandchild l d fs s) = fs" "pr_waits (grandchild l d fs s) = pr_waits s"
  "pr_naps (grandchild l d fs s) = pr_naps s" "pr_exec (grandchild l d fs s) = pr_exec s"
  "pr_fd_limit (grandchild l d fs s) = pr_fd_limit s" "same_view s (grandchild l d fs s)"
  by (simp_all add: grandchild_def same_view_def shared_def)

lemma leader_run:
  assumes "on_channel key shm a p c n s" and "pr_forks s = [Child l, Parent_of d]" and "0 < d"
  shows "\<exists>t. daemonize (Obj shm) s = Stop (Exited 0) t \<and> on_channel key shm a (word_of_nat d) c n t \<and> same_view s t"
proof -
  let ?u = "(shared s)\<lparr>pr_forks := [Parent_of d], pid_self := l\<rparr>" and ?v = "(shared ((shared s)\<lparr>pid_self := l\<rparr>))\<lparr>pr_forks := []\<rparr>"
  have u: "on_channel key shm a p c n ?u"
    by (rule on_channel_cong [OF on_channel_shared [OF assms(1)]]) (use on_channel_quiet [OF assms(1)] in \<open>simp_all add: same_view_def\<close>)
  have v: "on_channel key shm a p c n (shared ?u)" by (rule on_channel_shared [OF u])
  have v': "on_channel key shm a p c n ?v"
    by (rule on_channel_cong [OF v]) (use on_channel_quiet [OF v] in \<open>simp_all add: same_view_def shared_def\<close>)
  obtain f where f: "set_pid (Obj shm) (int d) ?v = Fin () (?v\<lparr>ker := (ker ?v)\<lparr>segs := f\<rparr>\<rparr>)"
    "records shm a (word_of_int (int d)) c n (?v\<lparr>ker := (ker ?v)\<lparr>segs := f\<rparr>\<rparr>)"
    "removable shm (?v\<lparr>ker := (ker ?v)\<lparr>segs := f\<rparr>\<rparr>)"
    using set_ids [OF on_channel_records(1) [OF v'], of "int d"] on_channel_records(2) [OF v'] by metis
  let ?w = "?v\<lparr>ker := (ker ?v)\<lparr>segs := f\<rparr>\<rparr>"
  have "fork s = Fin 0 ?u" using assms(2) by (simp add: fork_def)
  moreover have "fork ?u = Fin (int d) ?v" by (simp add: fork_def shared_def)
  ultimately have "daemonize (Obj shm) s = Stop (Exited 0) ?w"
    using assms(3) f(1) by (simp add: daemonize_def bindr_def stop_def)
  moreover have "on_channel key shm a (word_of_int (int d)) c n ?w"
    by (rule on_channel_change [OF v' f(2,3)]) (simp_all add: same_view_def)
  moreover have "same_view s ?w" by (simp add: same_view_def shared_def)
  ultimately show ?thesis by auto
qed

section \<open>The daemon\<close>

definition fd_max :: "'z proc_os_scheme \<Rightarrow> nat" where
  "fd_max s = (case pr_fd_limit s of None \<Rightarrow> 1024 | Some m \<Rightarrow> m)"

text \<open>The daemon as its loop begins, on the kernel that it finds at its first call.\<close>

definition entered :: "nat \<Rightarrow> nat \<Rightarrow> fork_answer list \<Rightarrow> ipc \<Rightarrow> 'z dm_os_scheme \<Rightarrow> 'z dm_os_scheme" where
  "entered l d fs k s =
     (close_below (fd_max s) ((grandchild l d fs s)\<lparr>ker := k\<rparr>))\<lparr>dm_timer := 0, dm_failure := 0, dm_exec := 0\<rparr>"

lemma entered_fields [simp]:
  "script (entered l d fs k s) = script s" "pr_forks (entered l d fs k s) = fs" "pr_waits (entered l d fs k s) = pr_waits s"
  "pr_naps (entered l d fs k s) = pr_naps s" "pr_exec (entered l d fs k s) = pr_exec s" "ker (entered l d fs k s) = k"
  "same_view s (entered l d fs k s)"
  by (simp_all add: entered_def grandchild_def close_below_def same_view_def shared_def)

lemma daemon_entry:
  assumes "pr_forks s = Child l # Child d # fs" and "pr_waits s = []" and "pr_naps s = []" and "fd_max s < 2 ^ 31"
  shows "daemonize p (s\<lparr>script := (\<lambda>_. k, None) # r\<rparr>) = daemon_loop (Suc 0) p None ((entered l d fs k s)\<lparr>script := r\<rparr>)"
proof -
  let ?u = "(grandchild l d fs s)\<lparr>script := (\<lambda>_. k, None) # r\<rparr>"
  have "fork (s\<lparr>script := (\<lambda>_. k, None) # r\<rparr>) = Fin 0 ((shared s)\<lparr>script := (\<lambda>_. k, None) # r, pr_forks := Child d # fs, pid_self := l\<rparr>)"
    using assms(1) by (simp add: fork_def)
  moreover have "fork ((shared s)\<lparr>script := (\<lambda>_. k, None) # r, pr_forks := Child d # fs, pid_self := l\<rparr>) = Fin 0 ?u"
    by (simp add: fork_def grandchild_def shared_def)
  moreover have "close_file_descriptors ?u = Fin () (close_below (fd_max s) ((grandchild l d fs s)\<lparr>ker := k, script := r\<rparr>))"
    using assms(4)
    by (cases "pr_fd_limit s") (simp_all add: close_file_descriptors_def getrlimit_nofile_def syscall_def interact_def run_simps fd_max_def)
  moreover have "(close_below (fd_max s) ((grandchild l d fs s)\<lparr>ker := k, script := r\<rparr>))\<lparr>dm_timer := 0, dm_failure := 0, dm_exec := 0\<rparr> =
      (entered l d fs k s)\<lparr>script := r\<rparr>"
    by (simp add: entered_def close_below_def)
  moreover have "turns ((entered l d fs k s)\<lparr>script := r\<rparr>) = Suc 0" using assms(2,3) by (simp add: turns_def)
  ultimately show ?thesis
    by (simp add: daemonize_def bindr_Fin bindr_def [of "modify _"] bindr_def [of "gets _"] modify_def gets_def del: daemon_loop.simps)
qed

lemma daemon_run:
  assumes "pr_forks s = [Child l, Child d, Parent_of c]" and "0 < c" and "pr_waits s = []" and "pr_naps s = []" and "fd_max s < 2 ^ 31"
    and "script s = []" and "on_channel key shm a p q n (s\<lparr>ker := k\<rparr>)"
  shows "\<exists>t. daemonize (Obj shm) (s\<lparr>script := [(\<lambda>_. k, None)]\<rparr>) = Stop Hangs t \<and>
    on_channel key shm 1 p (word_of_nat c) n t \<and> same_view s t"
proof -
  let ?u = "entered l d [Parent_of c] k s"
  have u: "on_channel key shm a p q n ?u"
    by (rule on_channel_cong [OF assms(7)]) (simp_all add: assms(6), simp add: entered_def grandchild_def close_below_def same_view_def shared_def)
  have f: "pr_forks ?u = Parent_of c # []" "fork_pid (Parent_of c) \<noteq> 0" using assms(2) by (simp_all add: fork_pid_def)
  obtain k' e t where t: "run_command (Obj shm) ?u = bindr (wait_for_signal (fork_pid (Parent_of c))) after_wait t"
    "t = ?u\<lparr>dm_timer := (if dm_failure ?u - dm_exec ?u > 5 then 0 else dm_timer ?u), pr_ignored := [],
      dm_exec := clock (ker ?u), err := e, pr_forks := [], ker := k'\<rparr>"
    "records shm 1 p (word_of_int (fork_pid (Parent_of c))) n t" "removable shm t" "\<exists>g. ker t = (ker ?u)\<lparr>segs := g\<rparr>"
    using run_command_parent [OF on_channel_records [OF u] f] by metis
  have "script t = []" "pr_waits t = []" using assms(3,6) by (simp_all add: t(2))
  then have "wait_for_signal (fork_pid (Parent_of c)) t = Stop Hangs t" by (rule wait_nothing)
  then have "daemon_loop (Suc 0) (Obj shm) None ?u = Stop Hangs t"
    using t(1) by (simp add: daemon_turn_def bindr_def)
  moreover have "?u\<lparr>script := []\<rparr> = ?u" using assms(6) by simp
  ultimately have "daemonize (Obj shm) (s\<lparr>script := [(\<lambda>_. k, None)]\<rparr>) = Stop Hangs t"
    using daemon_entry [OF assms(1,3-5), of "Obj shm" k "[]"] by simp
  moreover have v: "same_view ?u t" by (simp add: t(2) same_view_def)
  obtain g where g: "ker t = (ker ?u)\<lparr>segs := g\<rparr>" using t(5) ..
  have "on_channel key shm 1 p (word_of_int (fork_pid (Parent_of c))) n t"
    by (rule on_channel_change [OF u t(3,4) _ _ _ _ v]) (simp_all add: g)
  moreover have "same_view s t" by (rule same_view_trans [OF _ v]) simp
  ultimately show ?thesis by (auto simp: fork_pid_def)
qed

section \<open>The child\<close>

definition before_fork :: "shmem \<Rightarrow> 'z dm_os_scheme \<Rightarrow> ('z dm_os_scheme, int) run" where
  "before_fork p =
     bindr (modify (\<lambda>s. if dm_failure s - dm_exec s > 5 then s\<lparr>dm_timer := 0\<rparr> else s)) (\<lambda>_.
     bindr (install_handlers p handled_signals) (\<lambda>_.
     bindr time_now (\<lambda>now.
     bindr (modify (\<lambda>s. s\<lparr>dm_exec := now\<rparr>)) (\<lambda>_. fork))))"

lemma padded_before_fork: "padded (before_fork p)"
proof -
  have never: "padded (die q)" for q
    by (rule padded_never) (simp add: die_def bindr_def stop_def split: run.split)
  have handle: "padded (sigaction_handle g)" for g
    unfolding sigaction_handle_def by (rule padded_syscall) (simp add: plain_def)
  have install: "padded (install_handlers q gs)" for q gs
    by (induction gs) (auto intro!: padded handle never)
  have "padded fork"
    by (rule padded_plain) (auto simp: plain_def fork_def fails_def split: list.splits fork_answer.splits)
  then show ?thesis
    unfolding before_fork_def by (intro padded install padded_modify) auto
qed

text \<open>A child's part after its fork begins with a call, for which others may have been busy in between.\<close>

lemma calls_inc_count:
  assumes "shm_sem shm = Obj sm"
  shows "calls (inc_count (Obj shm))"
  unfolding inc_count_def get_count_def deref_shm_def
  by (simp add: calls_bind calls_access(1) [OF assms])

lemma command_of_child:
  assumes "before_fork (Obj shm) s = Fin 0 t"
  shows "run_command (Obj shm) s =
    bindr (inc_count (Obj shm)) (\<lambda>_. bindr (get_count (Obj shm)) (\<lambda>_. bindr execvp (\<lambda>_. die (Obj shm)))) t"
proof -
  have "run_command (Obj shm) s = bindr (before_fork (Obj shm)) (\<lambda>cpid.
     if cpid = 0 then bindr (inc_count (Obj shm)) (\<lambda>_. bindr (get_count (Obj shm)) (\<lambda>_. bindr execvp (\<lambda>_. die (Obj shm))))
     else bindr (set_cpid (Obj shm) cpid) (\<lambda>_. bindr (activate (Obj shm)) (\<lambda>_. bindr (wait_for_signal cpid) (\<lambda>j.
       case j of Some g \<Rightarrow> retr (Some g)
       | None \<Rightarrow> bindr time_now (\<lambda>now. bindr (modify (\<lambda>s. s\<lparr>dm_failure := now\<rparr>)) (\<lambda>_. retr None)))))) s"
    unfolding run_command_def before_fork_def bindr_assoc ..
  with assms show ?thesis by (simp add: bindr_Fin)
qed

lemma child_run:
  assumes "pr_forks s = [Child l, Child d, Child c]" and "pr_waits s = []" and "pr_naps s = []" and "fd_max s < 2 ^ 31"
    and "script s = []" and "pr_exec s = None" and "on_channel key shm a p q n (s\<lparr>ker := k'\<rparr>)" and "sint n < 2 ^ 31 - 1"
  shows "\<exists>evs t. idle evs \<and> daemonize (Obj shm) (s\<lparr>script := (\<lambda>_. k, None) # evs @ [(\<lambda>_. k', None)]\<rparr>) = Stop Replaced t \<and>
    on_channel key shm a p q (n + 1) t \<and> same_view s t"
proof -
  let ?u = "entered l d [Child c] k s"
  let ?v = "?u\<lparr>pr_ignored := [], dm_exec := clock k\<rparr>"
  let ?w = "(shared ?v)\<lparr>pr_forks := [], pid_self := c\<rparr>"
  have q: "script ?u = []" using assms(5) by simp
  have "dm_failure ?u - dm_exec ?u = 0" by (simp add: entered_def)
  with q have "before_fork (Obj shm) ?u = fork ?v"
    by (simp add: before_fork_def run_simps install_all time_now_def)
  also have "\<dots> = Fin 0 ?w" by (simp add: fork_def)
  finally have bf: "before_fork (Obj shm) ?u = Fin 0 ?w" .
  obtain evs where e: "script ?w = []" "idle evs"
    "\<And>rest. before_fork (Obj shm) (?u\<lparr>script := evs @ rest\<rparr>) = Fin 0 (?w\<lparr>script := rest\<rparr>)"
    using paddedD [OF padded_before_fork q bf] by metis
  let ?x = "?w\<lparr>ker := k'\<rparr>"
  have vw: "same_view s ?x" by (simp add: same_view_def shared_def entered_def grandchild_def close_below_def)
  have x: "on_channel key shm a p q n ?x"
    by (rule on_channel_cong [OF assms(7)]) (use e(1) vw in \<open>simp_all add: same_view_def\<close>)
  obtain f where f: "inc_count (Obj shm) ?x = Fin () (?x\<lparr>ker := (ker ?x)\<lparr>segs := f\<rparr>\<rparr>)"
    "records shm a p q (n + 1) (?x\<lparr>ker := (ker ?x)\<lparr>segs := f\<rparr>\<rparr>)" "removable shm (?x\<lparr>ker := (ker ?x)\<lparr>segs := f\<rparr>\<rparr>)"
    using inc_records [OF on_channel_records(1) [OF x] assms(8)] on_channel_records(2) [OF x] by metis
  let ?y = "?x\<lparr>ker := (ker ?x)\<lparr>segs := f\<rparr>\<rparr>"
  obtain sm where "shm_sem shm = Obj sm" using records_sem [OF on_channel_records(1) [OF x]] ..
  from callsD [OF calls_inc_count [OF this] e(1), of "\<lambda>_. k'"] f(1)
  have inc: "inc_count (Obj shm) (?w\<lparr>script := [(\<lambda>_. k', None)]\<rparr>) = Fin () ?y" by simp
  have "execvp ?y = (Stop Replaced ?y :: ('a dm_os_scheme, int) run)"
    using assms(5,6) by (simp add: execvp_def run_simps)
  then have "run_command (Obj shm) (?u\<lparr>script := evs @ [(\<lambda>_. k', None)]\<rparr>) = Stop Replaced ?y"
    using inc get_records(3) [OF f(2)] by (simp add: command_of_child [OF e(3)] bindr_def)
  then have "daemon_loop (Suc 0) (Obj shm) None (?u\<lparr>script := evs @ [(\<lambda>_. k', None)]\<rparr>) = Stop Replaced ?y"
    by (simp add: daemon_turn_def bindr_def)
  then have "daemonize (Obj shm) (s\<lparr>script := (\<lambda>_. k, None) # evs @ [(\<lambda>_. k', None)]\<rparr>) = Stop Replaced ?y"
    using daemon_entry [OF assms(1-4)] by simp
  moreover have "on_channel key shm a p q (n + 1) ?y"
    by (rule on_channel_change [OF x f(2,3)]) (simp_all add: same_view_def)
  moreover have "same_view s ?y" by (rule same_view_trans [OF vw]) (simp add: same_view_def)
  ultimately show ?thesis using e(2) by blast
qed

section \<open>The launcher\<close>

definition probe :: "shmem \<Rightarrow> 'z os_scheme \<Rightarrow> ('z os_scheme, int \<times> int) run" where
  "probe p = bindr (get_pid p) (\<lambda>pid. bindr (get_cpid p) (\<lambda>cpid. retr (pid, cpid)))"

lemma padded_probe: "padded (probe p)"
  unfolding probe_def by (intro padded)

lemma await_after_probe:
  assumes "probe p s = Fin (0, i) t"
  shows "await_daemon p (Suc n) x s = bindr (sleep 1) (\<lambda>_. await_daemon p n (0, i)) t"
  using assms by (auto simp: probe_def bindr_def retr_def split: run.splits)

lemma await_daemon_late:
  assumes "on_channel key shm a 0 0 n s" and "on_channel key shm a' p q n' (s\<lparr>ker := k\<rparr>)" and "p \<noteq> 0" and "q \<noteq> 0"
  obtains evs where "idle evs" and "await_daemon (Obj shm) (Suc (Suc m)) x (s\<lparr>script := evs @ [(\<lambda>_. k, None)]\<rparr>) =
    Fin (sint p, sint q) (s\<lparr>ker := k\<lparr>clock := clock k + 1\<rparr>\<rparr>)"
proof -
  let ?u = "s\<lparr>ker := k\<lparr>clock := clock k + 1\<rparr>\<rparr>"
  have q: "script s = []" by (rule on_channel_quiet [OF assms(1)])
  have "probe (Obj shm) s = Fin (0, 0) s"
    using get_records [OF on_channel_records(1) [OF assms(1)]] by (simp add: probe_def run_simps)
  from paddedD [OF padded_probe q this] obtain evs where e: "idle evs"
    "\<And>rest. probe (Obj shm) (s\<lparr>script := evs @ rest\<rparr>) = Fin (0, 0) (s\<lparr>script := rest\<rparr>)" by metis
  have "sleep 1 (s\<lparr>script := [(\<lambda>_. k, None)]\<rparr>) = sleep 1 (s\<lparr>ker := k\<rparr>)"
    using callsD [OF calls_sleep q, of 1 "\<lambda>_. k"] by simp
  also have "\<dots> = Fin () ?u" using q by (simp add: sleep_def interact_def)
  finally have sl: "sleep 1 (s\<lparr>script := [(\<lambda>_. k, None)]\<rparr>) = Fin () ?u" .
  have "records shm a' p q n' ?u"
    using records_clock [where s = "s\<lparr>ker := k\<rparr>" and x = "clock k + 1"] on_channel_records(1) [OF assms(2)] by simp
  then have "await_daemon (Obj shm) (Suc m) (0, 0) ?u = Fin (sint p, sint q) ?u"
    using get_records [of shm a' p q n' ?u] assms(3,4) by (simp add: run_simps sint_zero)
  with sl have "await_daemon (Obj shm) (Suc (Suc m)) x (s\<lparr>script := evs @ [(\<lambda>_. k, None)]\<rparr>) = Fin (sint p, sint q) ?u"
    by (simp add: await_after_probe [OF e(2)] bindr_Fin del: await_daemon.simps)
  with e(1) show thesis by (rule that)
qed

lemma launcher_run:
  assumes "on_channel key shm a 0 0 n s" and "on_channel key shm a' p q n' (s\<lparr>ker := k\<rparr>)" and "p \<noteq> 0" and "q \<noteq> 0"
  shows "\<exists>evs t. idle evs \<and> launched (Obj shm) 0 0 m (s\<lparr>script := evs @ [(\<lambda>_. k, None)]\<rparr>) = Fin 0 t \<and>
    out t = out s @ [(''Done%s'', buffer_text (sint (shm_key shm)) (sint p) (sint q) m s)] \<and>
    on_channel key shm a' p q n' t \<and> same_view s t \<and> pr_sent t = pr_sent s \<and> pr_target t = pr_target s"
proof -
  let ?u = "s\<lparr>ker := k\<lparr>clock := clock k + 1\<rparr>\<rparr>"
  obtain evs where e: "idle evs" "await_daemon (Obj shm) (Suc (Suc 3)) (0, 0) (s\<lparr>script := evs @ [(\<lambda>_. k, None)]\<rparr>) = Fin (sint p, sint q) ?u"
    by (rule await_daemon_late [OF assms])
  have r: "records shm a' p q n' ?u"
    using records_clock [where s = "s\<lparr>ker := k\<rparr>" and x = "clock k + 1"] on_channel_records(1) [OF assms(2)] by simp
  have rem: "removable shm ?u"
    using removable_cong [of ?u "s\<lparr>ker := k\<rparr>" shm] on_channel_records(2) [OF assms(2)] by simp
  have u: "on_channel key shm a' p q n' ?u"
    by (rule on_channel_change [OF assms(2) r rem]) (simp_all add: same_view_def)
  obtain er where d: "daemonstr (sint (shm_key shm)) (sint p) (sint q) m ?u =
      Fin (buffer_text (sint (shm_key shm)) (sint p) (sint q) m ?u) (?u\<lparr>err := er\<rparr>)"
    by (rule daemonstr_quiet [OF records_script [OF r]])
  let ?b = "buffer_text (sint (shm_key shm)) (sint p) (sint q) m s"
  let ?t = "?u\<lparr>err := er, out := out s @ [(''Done%s'', ?b)]\<rparr>"
  have b: "buffer_text (sint (shm_key shm)) (sint p) (sint q) m ?u = ?b" by (simp add: buffer_text_def)
  have "launched (Obj shm) 0 0 m (s\<lparr>script := evs @ [(\<lambda>_. k, None)]\<rparr>) = Fin 0 ?t"
    using e(2) d get_records(5) [OF r]
    by (simp add: launched_def numeral_eq_Suc bindr_Fin b run_simps printf_def del: await_daemon.simps)
  moreover have "on_channel key shm a' p q n' ?t"
    by (rule on_channel_cong [OF u]) (use on_channel_quiet [OF u] in \<open>simp_all add: same_view_def\<close>)
  moreover have "same_view s ?t" by (simp add: same_view_def)
  ultimately show ?thesis using e(1) by (intro exI [of _ evs] exI [of _ ?t]) simp
qed

section \<open>The launch\<close>

text \<open>One of the processes: the answers of \<open>fork\<close> say which, and the script holds what the others do.\<close>

definition launch :: "int \<Rightarrow> string list \<Rightarrow> fork_answer list \<Rightarrow> (move \<times> errno option) list \<Rightarrow> 'z dm_os_scheme \<Rightarrow>
    ('z dm_os_scheme, int) run" where
  "launch k cmd fs evs s = daemonize_main (''-S'' # decimal_int k # ''--'' # cmd) (s\<lparr>pr_forks := fs, script := evs\<rparr>)"

text \<open>What others leave in the kernel, as an entry of the script.\<close>

abbreviation leaves :: "ipc \<Rightarrow> move \<times> errno option" where
  "leaves k \<equiv> (\<lambda>_. k, None)"

text \<open>The state of each process when the common part is over.\<close>

definition parted :: "u32 \<Rightarrow> fork_answer list \<Rightarrow> 'z proc_os_scheme \<Rightarrow> 'z proc_os_scheme" where
  "parted key fs s = (made_shm key 16 s)\<lparr>out := out s @ [(''Daemonizing...'', [])], pr_forks := fs\<rparr>"

lemma parted_fields [simp]:
  "pr_forks (parted key fs s) = fs" "pr_waits (parted key fs s) = pr_waits s" "pr_naps (parted key fs s) = pr_naps s"
  "pr_exec (parted key fs s) = pr_exec s" "fd_max (parted key fs s) = fd_max s" "pr_sent (parted key fs s) = pr_sent s"
  "pr_target (parted key fs s) = pr_target s" "out (parted key fs s) = out s @ [(''Daemonizing...'', [])]"
  "same_view (parted key fs s) t = same_view (made_shm key 16 s) t" "same_view t (parted key fs s) = same_view t (made_shm key 16 s)"
  by (simp_all add: parted_def made_shm_def attach_seg_def Let_def fd_max_def same_view_def)

lemma parted_channel:
  assumes "shm_can_make key 16 s" and "junk s \<le> 16"
  shows "on_channel key (made_obj key 16 s) 0 0 0 0 (parted key fs s)" and "script (parted key fs s) = []"
proof -
  note c = on_channel_made [OF assms]
  show "script (parted key fs s) = []" using on_channel_quiet [OF c] by (simp add: parted_def)
  then show "on_channel key (made_obj key 16 s) 0 0 0 0 (parted key fs s)"
    by (intro on_channel_cong [OF c]) (simp_all add: parted_def same_view_def)
qed

lemma launch_parts:
  assumes "0 < k" and "k < 2 ^ 31" and "cmd \<noteq> []" and can: "shm_can_make (word_of_int k) 16 s" and "junk s \<le> 16"
  defines "p \<equiv> Obj (made_obj (word_of_int k) 16 s)"
  obtains evs where "idle evs"
    and "\<And>rest. launch k cmd fs (evs @ rest) s = bindr (daemonize p) (\<lambda>_. launched p 0 0 0) ((parted (word_of_int k) fs s)\<lparr>script := rest\<rparr>)"
    and "launch k cmd fs [] s = bindr (daemonize p) (\<lambda>_. launched p 0 0 0) (parted (word_of_int k) fs s)"
proof -
  let ?s = "s\<lparr>pr_forks := fs\<rparr>"
  have same: "made_obj (word_of_int k) 16 ?s = made_obj (word_of_int k) 16 s" by (simp add: made_obj_def)
  have t: "(made_shm (word_of_int k) 16 ?s)\<lparr>out := out ?s @ [(''Daemonizing...'', [])]\<rparr> = parted (word_of_int k) fs s"
    by (simp add: parted_def made_shm_def attach_seg_def Let_def made_seg_def made_set_def SHMKEY_def SEMKEY_def)
  have can': "shm_can_make (word_of_int k) 16 ?s"
    using can by (simp add: shm_can_make_def can_make_def key_ok_def SHMKEY_def SEMKEY_def)
  have q: "?s\<lparr>script := []\<rparr> = ?s" using can by (simp add: shm_can_make_def can_make_def)
  have j: "junk ?s \<le> 16" using assms(5) by simp
  show thesis
  proof (rule line_opened [OF assms(1-3) can' j, unfolded same t])
    fix evs
    assume "idle evs" and run: "\<And>rest. daemonize_main (''-S'' # decimal_int k # ''--'' # cmd) (?s\<lparr>script := evs @ rest\<rparr>) =
        bindr (daemonize (Obj (made_obj (word_of_int k) 16 s))) (\<lambda>_. launched (Obj (made_obj (word_of_int k) 16 s)) 0 0 0)
          ((parted (word_of_int k) fs s)\<lparr>script := rest\<rparr>)"
      "daemonize_main (''-S'' # decimal_int k # ''--'' # cmd) ?s =
        bindr (daemonize (Obj (made_obj (word_of_int k) 16 s))) (\<lambda>_. launched (Obj (made_obj (word_of_int k) 16 s)) 0 0 0)
          (parted (word_of_int k) fs s)"
    then show thesis
      by (intro that [of evs]) (simp_all only: launch_def p_def q)
  qed
qed

text \<open>The four runs.\<close>

lemma four_runs:
  assumes "0 < k" and "k < 2 ^ 31" and "cmd \<noteq> []" and can: "shm_can_make (word_of_int k) 16 s" and junk: "junk s \<le> 16"
    and ids: "0 < l" "0 < d" "d < 2 ^ 31" "0 < c" "c < 2 ^ 31"
    and calm: "pr_waits s = []" "pr_naps s = []" "fd_max s < 2 ^ 31" "pr_exec s = None"
  obtains e1 e2 e3 e4 tl td tc tm where "idle (e1 @ e2 @ e3 @ e4)"
    and "launch k cmd [Child l, Parent_of d] [] s = Stop (Exited 0) tl"
    and "launch k cmd [Child l, Child d, Parent_of c] (e1 @ [leaves (ker (exit_process tl))]) s = Stop Hangs td"
    and "launch k cmd [Child l, Child d, Child c] (e2 @ leaves (ker (exit_process tl)) # e3 @ [leaves (ker td)]) s = Stop Replaced tc"
    and "launch k cmd [Parent_of l] (e4 @ [leaves (ker (exit_process tc))]) s = Fin 0 tm"
    and "out tm = out s @ [(''Daemonizing...'', []), (''Done%s'', buffer_text k (int d) (int c) 0 s)]"
    and "dm_rep (word_of_int k) (Some (word_of_nat d, word_of_nat c, 1)) (exit_process tm)"
    and "pr_sent tm = pr_sent s" and "pr_target tm = pr_target s"
proof -
  let ?key = "word_of_int k :: u32" and ?part = "\<lambda>fs. parted (word_of_int k) fs s"
  let ?o = "made_obj ?key 16 s"
  let ?rest = "bindr (daemonize (Obj ?o)) (\<lambda>_. launched (Obj ?o) 0 0 0)"
  note on = parted_channel [OF can junk]
  have nz: "word_of_nat d \<noteq> (0 :: u32)" "word_of_nat c \<noteq> (0 :: u32)" "sint (word_of_nat d :: u32) = int d" "sint (word_of_nat c :: u32) = int c"
    using ids sint_small [of d] sint_small [of c] by (auto simp flip: sint_zero)
  obtain tl where tl: "daemonize (Obj ?o) (?part [Child l, Parent_of d]) = Stop (Exited 0) tl"
    "on_channel ?key ?o 0 (word_of_nat d) 0 0 tl" "same_view (made_shm ?key 16 s) tl"
    using leader_run [OF on(1), of "[Child l, Parent_of d]" l d] ids(2) by auto
  have k1: "on_channel ?key ?o 0 (word_of_nat d) 0 0 ((?part fs)\<lparr>ker := ker (exit_process tl)\<rparr>)" for fs
    by (rule on_channel_exit(1) [OF tl(2) on(2)]) (use same_view_sym [OF tl(3)] in simp)
  obtain td where td: "daemonize (Obj ?o) ((?part [Child l, Child d, Parent_of c])\<lparr>script := [leaves (ker (exit_process tl))]\<rparr>) = Stop Hangs td"
    "on_channel ?key ?o 1 (word_of_nat d) (word_of_nat c) 0 td" "same_view (made_shm ?key 16 s) td"
    using daemon_run [OF _ ids(4) _ _ _ on(2) k1, of "[Child l, Child d, Parent_of c]" l d] calm by auto
  have k2: "on_channel ?key ?o 1 (word_of_nat d) (word_of_nat c) 0 ((?part fs)\<lparr>ker := ker td\<rparr>)" for fs
    by (rule on_channel_cong [OF td(2)]) (use on(2) same_view_sym [OF td(3)] in simp_all)
  obtain e3 tc where tc: "idle e3" "daemonize (Obj ?o) ((?part [Child l, Child d, Child c])\<lparr>script :=
      leaves (ker (exit_process tl)) # e3 @ [leaves (ker td)]\<rparr>) = Stop Replaced tc"
    "on_channel ?key ?o 1 (word_of_nat d) (word_of_nat c) 1 tc" "same_view (made_shm ?key 16 s) tc"
    using child_run [OF _ _ _ _ on(2) _ k2, of "[Child l, Child d, Child c]" l d c "ker (exit_process tl)"] calm by auto
  let ?m = "(shared (?part [Parent_of l]))\<lparr>pr_forks := []\<rparr>"
  have m: "on_channel ?key ?o 0 0 0 0 ?m"
    by (rule on_channel_cong [OF on_channel_shared [OF on(1)]]) (simp_all add: on(2), simp add: same_view_def)
  have "same_view tc ?m" using same_view_sym [OF tc(4)] by (simp add: same_view_def shared_def parted_def)
  then have k3: "on_channel ?key ?o 1 (word_of_nat d) (word_of_nat c) 1 (?m\<lparr>ker := ker (exit_process tc)\<rparr>)"
    by (intro on_channel_exit(1) [OF tc(3)]) (use on(2) in simp_all)
  have key: "sint (shm_key ?o) = k" using key_word [OF assms(1,2)] by (simp add: made_obj_def)
  obtain e4 tm where tm: "idle e4" "launched (Obj ?o) 0 0 0 (?m\<lparr>script := e4 @ [leaves (ker (exit_process tc))]\<rparr>) = Fin 0 tm"
    "out tm = out ?m @ [(''Done%s'', buffer_text k (int d) (int c) 0 ?m)]"
    "on_channel ?key ?o 1 (word_of_nat d) (word_of_nat c) 1 tm" "pr_sent tm = pr_sent ?m" "pr_target tm = pr_target ?m"
    using launcher_run [OF m k3 nz(1,2), of 0] unfolding key nz(3,4) by blast
  have parent: "daemonize (Obj ?o) ((?part [Parent_of l])\<lparr>script := r\<rparr>) = Fin () (?m\<lparr>script := r\<rparr>)" for r
    using ids(1) by (simp add: daemonize_def fork_def run_simps)
  have said: "buffer_text k (int d) (int c) 0 ?m = buffer_text k (int d) (int c) 0 s" by (simp add: buffer_text_def reachable_def)
  note parts = launch_parts [OF assms(1-3) can junk]
  have p0: "launch k cmd [Child l, Parent_of d] [] s = ?rest (?part [Child l, Parent_of d])"
    by (rule parts)
  obtain f1 where f1: "idle f1" and p1: "\<And>r. launch k cmd [Child l, Child d, Parent_of c] (f1 @ r) s =
      ?rest ((?part [Child l, Child d, Parent_of c])\<lparr>script := r\<rparr>)"
    by (rule parts [of "[Child l, Child d, Parent_of c]"]) (rule that)
  obtain f2 where f2: "idle f2" and p2: "\<And>r. launch k cmd [Child l, Child d, Child c] (f2 @ r) s =
      ?rest ((?part [Child l, Child d, Child c])\<lparr>script := r\<rparr>)"
    by (rule parts [of "[Child l, Child d, Child c]"]) (rule that)
  obtain f4 where f4: "idle f4" and p4: "\<And>r. launch k cmd [Parent_of l] (f4 @ r) s =
      ?rest ((?part [Parent_of l])\<lparr>script := r\<rparr>)"
    by (rule parts [of "[Parent_of l]"]) (rule that)
  show thesis
  proof (rule that [of f1 f2 e3 "f4 @ e4" tl td tc tm])
    show "idle (f1 @ f2 @ e3 @ f4 @ e4)" using f1 f2 f4 tc(1) tm(1) by simp
    show "launch k cmd [Child l, Parent_of d] [] s = Stop (Exited 0) tl" unfolding p0 by (rule bindr_Stop, rule tl(1))
    show "launch k cmd [Child l, Child d, Parent_of c] (f1 @ [leaves (ker (exit_process tl))]) s = Stop Hangs td"
      unfolding p1 by (rule bindr_Stop, rule td(1))
    show "launch k cmd [Child l, Child d, Child c] (f2 @ leaves (ker (exit_process tl)) # e3 @ [leaves (ker td)]) s = Stop Replaced tc"
      unfolding p2 by (rule bindr_Stop, rule tc(2))
    show "launch k cmd [Parent_of l] ((f4 @ e4) @ [leaves (ker (exit_process tc))]) s = Fin 0 tm"
      unfolding append_assoc p4 using tm(2) by (simp only: bindr_def parent run.case)
    show "out tm = out s @ [(''Daemonizing...'', []), (''Done%s'', buffer_text k (int d) (int c) 0 s)]"
      using tm(3) said by simp
    show "dm_rep ?key (Some (word_of_nat d, word_of_nat c, 1)) (exit_process tm)"
      by (rule on_channel_exit(2) [OF tm(4) on_channel_quiet [OF tm(4)]]) (simp add: same_view_def)
    show "pr_sent tm = pr_sent s" "pr_target tm = pr_target s" using tm(5,6) by simp_all
  qed
qed

text \<open>
  C4: a launch, end to end. On an unused channel the command makes four processes of one program. With others idle but for each
  other, the session leader \<open>l\<close> records the daemon and exits; the daemon \<open>d\<close> finds that record, records its child and waits; the child
  \<open>c\<close> finds those, counts the start and becomes the command; the launcher, which finds all of that after its first pause, prints both
  ids and answers 0. Every process changes the kernel that the one before it left. The channel then is that of a running daemon: a
  question is answered, a stop signals the child first and the daemon then, and leaves no channel.
\<close>

theorem daemon_launches:
  assumes "0 < k" and "k < 2 ^ 31" and "cmd \<noteq> []" and "shm_can_make (word_of_int k) 16 s" and "junk s \<le> 16"
    and "0 < l" and "0 < d" and "d < 2 ^ 31" and "0 < c" and "c < 2 ^ 31"
    and "pr_waits s = []" and "pr_naps s = []" and "fd_max s < 2 ^ 31" and "pr_exec s = None"
    and "pr_target s (int d)" and "pr_target s (int c)"
  shows "\<exists>e1 e2 e3 e4 tl td tc tm u. idle (e1 @ e2 @ e3 @ e4) \<and>
    launch k cmd [Child l, Parent_of d] [] s = Stop (Exited 0) tl \<and>
    launch k cmd [Child l, Child d, Parent_of c] (e1 @ [leaves (ker (exit_process tl))]) s = Stop Hangs td \<and>
    launch k cmd [Child l, Child d, Child c] (e2 @ leaves (ker (exit_process tl)) # e3 @ [leaves (ker td)]) s = Stop Replaced tc \<and>
    launch k cmd [Parent_of l] (e4 @ [leaves (ker (exit_process tc))]) s = Fin 0 tm \<and>
    out tm = out s @ [(''Daemonizing...'', []), (''Done%s'', [k, 80, int d, 67, int c, 0])] \<and>
    dm_rep (word_of_int k) (Some (word_of_nat d, word_of_nat c, 1)) (exit_process tm) \<and>
    dm_session k [(q1, Ask), (q2, Kill_it), (q3, Ask)] (exit_process tm) = Fin [0, 0, 0] u \<and>
    pr_sent u = pr_sent s @ [(int c, SIGUSR1), (int d, SIGUSR1)] \<and> dm_rep (word_of_int k) None u"
proof -
  obtain e1 e2 e3 e4 tl td tc tm where e: "idle (e1 @ e2 @ e3 @ e4)"
    and runs: "launch k cmd [Child l, Parent_of d] [] s = Stop (Exited 0) tl"
      "launch k cmd [Child l, Child d, Parent_of c] (e1 @ [leaves (ker (exit_process tl))]) s = Stop Hangs td"
      "launch k cmd [Child l, Child d, Child c] (e2 @ leaves (ker (exit_process tl)) # e3 @ [leaves (ker td)]) s = Stop Replaced tc"
      "launch k cmd [Parent_of l] (e4 @ [leaves (ker (exit_process tc))]) s = Fin 0 tm"
    and o: "out tm = out s @ [(''Daemonizing...'', []), (''Done%s'', buffer_text k (int d) (int c) 0 s)]"
    and rep: "dm_rep (word_of_int k) (Some (word_of_nat d, word_of_nat c, 1)) (exit_process tm)"
    and tm: "pr_sent tm = pr_sent s" "pr_target tm = pr_target s"
    using four_runs [OF assms(1-14)] by metis
  have said: "buffer_text k (int d) (int c) 0 s = [k, 80, int d, 67, int c, 0]"
    using assms(15,16) by (simp add: buffer_text_def reachable_def code_of_def)
  have ids: "sint (word_of_nat d :: u32) = int d" "sint (word_of_nat c :: u32) = int c" using assms(8,10) by (simp_all add: sint_small)
  with assms(7,9) have "word_of_nat d \<noteq> (0 :: u32)" "word_of_nat c \<noteq> (0 :: u32)" by (auto simp flip: sint_zero)
  with ids assms(15,16) have "spec_dm_session (pr_target (exit_process tm)) (map snd [(q1, Ask), (q2, Kill_it), (q3, Ask)])
      (Some (word_of_nat d, word_of_nat c, 1)) = Some ([0, 0, 0], [(int c, SIGUSR1), (int d, SIGUSR1)], None)"
    by (simp add: tm(2))
  from dm_session_refines [OF assms(1,2) rep this] obtain u where
    "dm_session k [(q1, Ask), (q2, Kill_it), (q3, Ask)] (exit_process tm) = Fin [0, 0, 0] u"
    "pr_sent u = pr_sent s @ [(int c, SIGUSR1), (int d, SIGUSR1)]" "dm_rep (word_of_int k) None u" by (auto simp: tm(1))
  with e runs o [unfolded said] rep show ?thesis by blast
qed

lemma daemon_launches_witness:
  "\<exists>evs t. launch 5 [''true''] [Parent_of 39] evs ((fresh [])\<lparr>pr_target := (\<lambda>i. i \<in> {40, 41})\<rparr>) = Fin 0 t \<and>
     out t = [(''Daemonizing...'', []), (''Done%s'', [5, 80, 40, 67, 41, 0])] \<and> dm_rep 5 (Some (40, 41, 1)) (exit_process t)"
proof -
  let ?s = "(fresh [])\<lparr>pr_target := (\<lambda>i. i \<in> {40, 41})\<rparr>"
  have can: "shm_can_make (word_of_int 5) 16 ?s"
    using shm_can_make_boot
    by (simp add: shm_can_make_def can_make_def key_ok_def SEMKEY_def SHMKEY_def fresh_def os.defs)
  have s: "junk ?s \<le> 16" "pr_waits ?s = []" "pr_naps ?s = []" "fd_max ?s < 2 ^ 31" "pr_exec ?s = None"
    "pr_target ?s (int 40)" "pr_target ?s (int 41)" "out ?s = []"
    by (simp_all add: fresh_def os.defs boot_os_def fd_max_def)
  from daemon_launches [of 5 "[''true'']" ?s 39 40 41 7 8 9, OF _ _ _ can s(1) _ _ _ _ _ s(2-7)] obtain evs t where
    "launch 5 [''true''] [Parent_of 39] evs ?s = Fin 0 t"
    "out t = out ?s @ [(''Daemonizing...'', []), (''Done%s'', [5, 80, int 40, 67, int 41, 0])]"
    "dm_rep (word_of_int 5) (Some (word_of_nat 40, word_of_nat 41, 1)) (exit_process t)"
    by (elim meta_impE exE conjE) simp_all
  with s(8) show ?thesis by (intro exI [of _ evs] exI [of _ t]) simp
qed

end
