(* ===== verification/Syschk.thy ===== *)
theory Syschk
  imports Complex_Main SharedMemory Processes C_Library
begin

text \<open>
  The command \<open>syschk\<close> of \<open>src/src/syschk.c\<close>: it lowers its own resource limits to those of the system and
  then opens files, creates processes and allocates memory until a call fails or gets slow, and
  records how far it came; a table of the results ends its output. All it prints is in the model.
\<close>

section \<open>State\<close>

type_synonym u64 = "64 word"

datatype resource = R_NOFILE | R_NPROC | R_SIGPENDING | R_AS

text \<open>One result; the milliseconds of the start are not copied, only a pointer's size of the structure is.\<close>

record msg =
  msg_name :: string
  msg_limit :: u64
  msg_reach :: u64
  msg_reason :: string
  msg_stime :: "int \<times> nat"
  msg_etime :: "int \<times> nat"

text \<open>
  The variables: the number of processes created, the static variables of \<open>performance\<close>, the list of results, and the static
  variables of \<open>read_file_lines\<close> (whether it has a buffer, and the buffer from \<open>saveptr\<close> on).
  The system: how many seconds pass before each call of \<open>time\<close>, the milliseconds, the answer of each
  \<open>open\<close> (an error or a descriptor) and the open descriptors, the answer of each allocation and the blocks
  in use, the soft and hard limits, which \<open>setrlimit\<close> succeeds, what the files under \<open>/proc\<close> say (a file that is
  missing, or a number, or no number), the files that are read by lines (their size according to \<open>stat\<close>, and what each \<open>read\<close>
  gives), the answer of each \<open>realloc\<close>, what fresh memory holds, the priority and whether it can be set, the process group,
  and how many ended children the handler of the signal finds.
\<close>

datatype resize = Stays | Moves | Fails

text \<open>
  The output has the titles in \<open>out\<close> and the table in \<open>sc_table\<close>. What floating point arithmetic makes of a number
  is left to the system, for \<open>float\<close> and for \<open>double\<close>; so is the load average, as it prints with two decimals (none when the
  file cannot be opened).
\<close>

datatype msg_type = M_PASS | M_DBUG | M_INFO | M_WARN | M_ERRR | M_TITL

datatype fl = Fl rat | Fl_inf | Fl_nan

record row =
  row_level :: msg_type
  row_name :: string
  row_limit :: u64
  row_reach :: u64
  row_score :: fl
  row_time :: rat
  row_reason :: string

record sys_os = proc_os +
  sc_forked :: u64
  sc_t_last :: int
  sc_counter_last :: u64
  sc_msgs :: "msg list"
  sc_ticks :: "nat list"
  sc_millitm :: nat
  sc_opens :: "(errno + int) list"
  sc_open :: "int list"
  sc_allocs :: "bool list"
  sc_live :: nat
  sc_limits :: "resource \<Rightarrow> u64 \<times> u64"
  sc_set_ok :: "bool list"
  sc_proc :: "string \<Rightarrow> int option option"
  sc_files :: "string \<Rightarrow> (nat \<times> string list) option"
  sc_resizes :: "resize list"
  sc_fresh :: "nat \<Rightarrow> char"
  sc_buffer :: bool
  sc_saveptr :: string
  sc_prio :: int
  sc_prio_ok :: bool
  sc_pgrp :: nat
  sc_zombies :: nat
  sc_table :: "row list"
  sc_la :: "string option"
  sc_float :: "rat \<Rightarrow> rat"
  sc_double :: "rat \<Rightarrow> rat"

definition KILO :: u64 where "KILO = push_bit 10 1"
definition MEGA :: u64 where "MEGA = push_bit 20 1"

definition PRIO :: int where "PRIO = 19"

definition CALLOC_SIZE :: int where "CALLOC_SIZE = 32768"
definition CALLOC_MAX_COUNT :: u64 where "CALLOC_MAX_COUNT = 1048576"
definition CHK_OPEN_THRESHOLD :: int where "CHK_OPEN_THRESHOLD = 7000"
definition CHK_FORK_THRESHOLD :: int where "CHK_FORK_THRESHOLD = 500"
definition CHK_CALLOC_THRESHOLD :: int where "CHK_CALLOC_THRESHOLD = 100"

definition STR_ENOMEM :: string where "STR_ENOMEM = ''Kernel memory exhausted''"
definition STR_EAGAIN :: string where "STR_EAGAIN = ''NPROC resource limit exhausted''"
definition STR_EMFILE :: string where "STR_EMFILE = ''Process open files limit exhausted''"
definition STR_ENFILE :: string where "STR_ENFILE = ''System open files limit exhausted''"
definition STR_THRSHD :: string where "STR_THRSHD = ''System performance impact risk''"
definition STR_UNKNWN :: string where "STR_UNKNWN = ''Failure due to unknown reason''"

definition NUL :: char where "NUL = CHR 0x00"
definition NL :: char where "NL = CHR 0x0A"

section \<open>Messages\<close>

text \<open>The numbers of the types.\<close>

fun msg_code :: "msg_type \<Rightarrow> nat" where
  "msg_code M_PASS = 1"
| "msg_code M_DBUG = 2"
| "msg_code M_INFO = 3"
| "msg_code M_WARN = 4"
| "msg_code M_ERRR = 5"
| "msg_code M_TITL = 6"

text \<open>The colours of the foreground and of the background.\<close>

fun msg_colours :: "msg_type \<Rightarrow> nat \<times> nat" where
  "msg_colours M_PASS = (32, 40)"
| "msg_colours M_DBUG = (37, 45)"
| "msg_colours M_INFO = (37, 40)"
| "msg_colours M_WARN = (33, 40)"
| "msg_colours M_ERRR = (31, 40)"
| "msg_colours M_TITL = (37, 44)"

definition msg_coloured :: "msg_type \<Rightarrow> string \<Rightarrow> string" where
  "msg_coloured ty text = (case msg_colours ty of (fg, bg) \<Rightarrow>
     CHR 0x1B # ''[1;'' @ decimal fg @ '';'' @ decimal bg @ ''m'' @ text @ CHR 0x1B # ''[0m'')"

definition get_la :: "'z sys_os_scheme \<Rightarrow> ('z sys_os_scheme, string) run" where
  "get_la = bindr (gets sc_la) (\<lambda>la. case la of None \<Rightarrow> stop Undefined | Some t \<Rightarrow> retr t)"

text \<open>What a line that belongs to the one above starts with.\<close>

definition branch :: string where "branch = CHR 0x5C # ''___''"

text \<open>\<open>snprintf\<close> of a text to a place in a buffer, \<open>strlen\<close>, and a number right aligned in a field.\<close>

definition snprintf_at :: "nat \<Rightarrow> nat \<Rightarrow> string \<Rightarrow> string \<Rightarrow> string" where
  "snprintf_at off n text buf = overwrite off (take (n - 1) text @ [NUL]) buf"

definition strlen :: "string \<Rightarrow> nat" where
  "strlen buf = length (takeWhile (\<lambda>c. c \<noteq> NUL) buf)"

definition pad_left :: "nat \<Rightarrow> string \<Rightarrow> string" where
  "pad_left n text = replicate (n - length text) CHR '' '' @ text"

text \<open>The buffer of a line that is as wide as the screen; its 82 characters hold at first what the stack held.\<close>

definition full_buffer :: "string \<Rightarrow> string \<Rightarrow> string \<Rightarrow> string" where
  "full_buffer fresh text la =
     (let buf = overwrite 0 (replicate 80 CHR '' '') fresh;
          buf = snprintf_at 0 70 text buf;
          buf = buf[strlen buf := CHR '' ''];
          buf = snprintf_at 70 11 (''LA:'' @ pad_left 7 la) buf
      in buf[81 := NUL])"

definition msg_full :: "msg_type \<Rightarrow> string \<Rightarrow> 'z sys_os_scheme \<Rightarrow> ('z sys_os_scheme, unit) run" where
  "msg_full ty text =
     bindr get_la (\<lambda>la.
     bindr (gets (\<lambda>s. full_buffer (map (sc_fresh s) [0..<82]) text la)) (\<lambda>buf.
     bindr (assertr (strlen buf = 80)) (\<lambda>_.
     printf (msg_coloured ty (take (strlen buf) buf)) [])))"

text \<open>The other ways to print: a coloured note, the progress of a loop, a plain text.\<close>

definition msg_note :: "msg_type \<Rightarrow> string \<Rightarrow> int list \<Rightarrow> 'z os_scheme \<Rightarrow> ('z os_scheme, unit) run" where
  "msg_note ty fmt args = printf (msg_coloured ty fmt) args"

definition progress :: "string \<Rightarrow> u64 \<Rightarrow> u64 \<Rightarrow> 'z os_scheme \<Rightarrow> ('z os_scheme, unit) run" where
  "progress name count limit =
     printf (CHR 0x0D # ''X '' @ branch @ '' '' @ pad_left 10 name @ '' [%12lu/%-22lu]'') [uint count, uint limit]"

section \<open>Limits\<close>

text \<open>The path has to exist; a content that is no number leaves the variable as it is.\<close>

definition get_proc_reading :: "string \<Rightarrow> int \<Rightarrow> 'z sys_os_scheme \<Rightarrow> ('z sys_os_scheme, int) run" where
  "get_proc_reading path old =
     bindr (gets (\<lambda>s. sc_proc s path)) (\<lambda>r.
     bindr (assertr (r \<noteq> None)) (\<lambda>_. retr (case r of Some (Some n) \<Rightarrow> n | _ \<Rightarrow> old)))"

definition getrlimit :: "resource \<Rightarrow> 'z sys_os_scheme \<Rightarrow> ('z sys_os_scheme, u64 \<times> u64) run" where
  "getrlimit r = gets (\<lambda>s. sc_limits s r)"

text \<open>A failed call changes nothing; the program does not look at the result.\<close>

definition setrlimit :: "resource \<Rightarrow> u64 \<times> u64 \<Rightarrow> 'z sys_os_scheme \<Rightarrow> ('z sys_os_scheme, unit) run" where
  "setrlimit r lmt s = (case sc_set_ok s of
     [] \<Rightarrow> Fin () (s\<lparr>sc_limits := (sc_limits s)(r := lmt)\<rparr>)
   | b # bs \<Rightarrow> Fin () (if b then s\<lparr>sc_limits := (sc_limits s)(r := lmt), sc_set_ok := bs\<rparr> else s\<lparr>sc_set_ok := bs\<rparr>))"

text \<open>
  The macro: \<open>system\<close>, which it compares with 0, is the library function, so the comparison always holds. An
  infinite limit is the largest number.
\<close>

fun resource_name :: "resource \<Rightarrow> string" where
  "resource_name R_NOFILE = ''NOFILE''"
| "resource_name R_NPROC = ''NPROC''"
| "resource_name R_SIGPENDING = ''SIGPENDING''"
| "resource_name R_AS = ''AS''"

definition setrlim :: "resource \<Rightarrow> u64 \<Rightarrow> 'z sys_os_scheme \<Rightarrow> ('z sys_os_scheme, unit) run" where
  "setrlim r syslim =
     bindr (getrlimit r) (\<lambda>(cur, mx).
     bindr (msg_note M_INFO (''I '' @ resource_name r @ '' syslim:%lu usrlim:%lu:%lu'' @ [NL]) [uint syslim, uint cur, uint mx]) (\<lambda>_.
     bindr (if cur = - 1 then msg_note M_WARN (''W '' @ branch @ ''User limit is unbound!'' @ [NL]) [] else retr ()) (\<lambda>_.
     if syslim > 0 \<and> cur > syslim then
       bindr (msg_note M_WARN (''W '' @ branch @ '' User limit exceeds system limit!'' @ [NL]) []) (\<lambda>_.
       bindr (if cur = - 1
              then msg_note M_WARN (''W   '' @ branch @ '' Changing '' @ resource_name r @ '' limit from INFINITY to'') []
              else msg_note M_WARN (''W   '' @ branch @ '' Changing '' @ resource_name r @ '' limit from %lu:%lu to'') [uint cur, uint mx])
         (\<lambda>_.
       bindr (setrlimit r (if syslim < cur then syslim else cur, if syslim < mx then syslim else mx)) (\<lambda>_.
       bindr (getrlimit r) (\<lambda>(cur, mx).
       msg_note M_WARN ('' %lu:%lu'' @ [NL]) [uint cur, uint mx]))))
     else retr ())))"

section \<open>Results\<close>

definition ftime :: "'z sys_os_scheme \<Rightarrow> ('z sys_os_scheme, int \<times> nat) run" where
  "ftime s = Fin (clock (ker s), sc_millitm s) s"

definition addMessage :: "string \<Rightarrow> int \<times> nat \<Rightarrow> u64 \<Rightarrow> u64 \<Rightarrow> string \<Rightarrow> 'z sys_os_scheme \<Rightarrow> ('z sys_os_scheme, unit) run" where
  "addMessage name stime limit reach reason =
     bindr malloc (\<lambda>ok.
     if \<not> ok then stop Undefined
     else
       bindr ftime (\<lambda>etime.
       modify (\<lambda>s. s\<lparr>sc_msgs := sc_msgs s @ [\<lparr>msg_name = take 15 name, msg_limit = limit, msg_reach = reach,
         msg_reason = reason, msg_stime = (fst stime, 0), msg_etime = etime\<rparr>]\<rparr>)))"

section \<open>The table of results\<close>

text \<open>\<open>100.f * reach / limit\<close>, each step rounded; the limit may be 0.\<close>

definition score :: "(rat \<Rightarrow> rat) \<Rightarrow> u64 \<Rightarrow> u64 \<Rightarrow> fl" where
  "score f reach limit =
     (if limit = 0 then (if reach = 0 then Fl_nan else Fl_inf)
      else Fl (f (f (100 * f (rat_of_nat (unat reach))) / f (rat_of_nat (unat limit)))))"

definition above :: "fl \<Rightarrow> rat \<Rightarrow> bool" where
  "above x c = (case x of Fl q \<Rightarrow> q > c | Fl_inf \<Rightarrow> True | Fl_nan \<Rightarrow> False)"

definition seconds :: "(rat \<Rightarrow> rat) \<Rightarrow> int \<times> nat \<Rightarrow> rat" where
  "seconds d t = d (d (rat_of_int (fst t)) + d (d (rat_of_nat (snd t)) / 1000))"

text \<open>The two numbers of a row in the order in which they are printed.\<close>

definition dump_row :: "msg \<Rightarrow> 'z sys_os_scheme \<Rightarrow> row" where
  "dump_row m s =
     (let sc = score (sc_float s) (msg_reach m) (msg_limit m);
          level = (if above sc 70 then M_PASS else if above sc 50 then M_WARN else M_ERRR)
      in \<lparr>row_level = level, row_name = msg_name m, row_limit = msg_reach m, row_reach = msg_limit m, row_score = sc,
        row_time = sc_double s (seconds (sc_double s) (msg_etime m) - seconds (sc_double s) (msg_stime m)),
        row_reason = msg_reason m\<rparr>)"

primrec dump_rows :: "msg list \<Rightarrow> 'z sys_os_scheme \<Rightarrow> ('z sys_os_scheme, unit) run" where
  "dump_rows [] = retr ()"
| "dump_rows (m # ms) = bindr (modify (\<lambda>s. s\<lparr>sc_table := sc_table s @ [dump_row m s]\<rparr>)) (\<lambda>_. dump_rows ms)"

definition Msg_dump :: "'z sys_os_scheme \<Rightarrow> ('z sys_os_scheme, unit) run" where
  "Msg_dump =
     bindr (msg_full M_TITL '' SECTION LIMIT REACH REACH%  TIME REASON'') (\<lambda>_.
     bindr (gets sc_msgs) (\<lambda>ms.
     bindr (dump_rows ms) (\<lambda>_.
     modify (\<lambda>s. s\<lparr>sc_msgs := []\<rparr>))))"

section \<open>Speed\<close>

definition time_call :: "'z sys_os_scheme \<Rightarrow> ('z sys_os_scheme, int) run" where
  "time_call s = (case sc_ticks s of
     [] \<Rightarrow> Fin (clock (ker s)) s
   | n # ns \<Rightarrow> Fin (clock (ker s) + int n) (s\<lparr>ker := (ker s)\<lparr>clock := clock (ker s) + int n\<rparr>, sc_ticks := ns\<rparr>))"

text \<open>
  Counts per second since the last measurement, when that is more than 5 seconds ago, or -1. The
  quotient is an \<open>unsigned long\<close>, cut to \<open>int\<close>. A counter of 0 starts a new test, but the last counter is kept.
\<close>

definition performance :: "u64 \<Rightarrow> u64 \<Rightarrow> 'z sys_os_scheme \<Rightarrow> ('z sys_os_scheme, int) run" where
  "performance counter divider =
     bindr (modify (\<lambda>s. if counter = 0 then s\<lparr>sc_t_last := 0\<rparr> else s)) (\<lambda>_.
     bindr time_call (\<lambda>t_now.
     bindr (gets sc_t_last) (\<lambda>t_last.
     if t_last > 0 then
       (if t_now - t_last > 5 then
          bindr (gets sc_counter_last) (\<lambda>counter_last.
          bindr (modify (\<lambda>s. s\<lparr>sc_t_last := t_now, sc_counter_last := counter\<rparr>)) (\<lambda>_.
          retr (to_int (uint ((counter - counter_last) div word_of_int (t_now - t_last) div divider)))))
        else retr (- 1))
     else
       bindr time_call (\<lambda>t. bindr (modify (\<lambda>s. s\<lparr>sc_t_last := t\<rparr>)) (\<lambda>_. retr (- 1))))))"

section \<open>Creating processes\<close>

text \<open>The key is the constant \<open>IPC_PRIVATE\<close>, which the class makes a key by \<open>ftok\<close> like any other.\<close>

definition CHILDREN_KEY :: u32 where "CHILDREN_KEY = 0"

text \<open>One pass over the table: whether every slot is set.\<close>

primrec verify :: "SharedMemory \<Rightarrow> nat \<Rightarrow> nat \<Rightarrow> 'z sys_os_scheme \<Rightarrow> ('z sys_os_scheme, bool) run" where
  "verify children 0 i = retr True"
| "verify children (Suc n) i =
     bindr (SharedMemory_read_uint children (word_of_nat i)) (\<lambda>pid.
     if 2 ^ 31 \<le> Suc i then stop Undefined
     else
       bindr (progress ''Verifying'' (word_of_nat (Suc i)) (word_of_nat (i + Suc n))) (\<lambda>_.
       if pid = 0 then bindr (printf (''...Break'' @ [NL]) []) (\<lambda>_. retr False)
       else verify children n (Suc i)))"

text \<open>
  Passes, a second apart, until every slot is set. Every pass lets another process act; when none does
  any more the table stays as it is, so that the loop never ends.
\<close>

primrec verify_all :: "nat \<Rightarrow> SharedMemory \<Rightarrow> u64 \<Rightarrow> 'z sys_os_scheme \<Rightarrow> ('z sys_os_scheme, unit) run" where
  "verify_all 0 children m = stop Hangs"
| "verify_all (Suc n) children m =
     bindr (verify children (unat m) 0) (\<lambda>ok.
     bindr (sleep 1) (\<lambda>_.
     if ok then retr () else verify_all n children m))"

text \<open>
  The handler: it waits 10 seconds for each child that has ended. The signal to the own group is delivered to the process
  itself before \<open>kill\<close> returns.
\<close>

primrec reap :: "nat \<Rightarrow> 'z sys_os_scheme \<Rightarrow> ('z sys_os_scheme, unit) run" where
  "reap 0 = retr ()"
| "reap (Suc n) =
     bindr (modify (\<lambda>s. s\<lparr>sc_zombies := n\<rparr>)) (\<lambda>_. bindr (sleep 10) (\<lambda>_. reap n))"

definition sig_handler :: "'z sys_os_scheme \<Rightarrow> ('z sys_os_scheme, unit) run" where
  "sig_handler = bindr (gets sc_zombies) reap"

definition chk_fork_cleanup :: "SharedMemory \<Rightarrow> u64 \<Rightarrow> 'z sys_os_scheme \<Rightarrow> ('z sys_os_scheme, unit) run" where
  "chk_fork_cleanup children forked_max =
     bindr (gets (\<lambda>s. Suc (length (script s)))) (\<lambda>n.
     bindr (verify_all n children forked_max) (\<lambda>_.
     bindr (printf (''...Done'' @ [NL]) []) (\<lambda>_.
     bindr (gets sc_forked) (\<lambda>forked.
     bindr (progress ''Killing'' forked forked_max) (\<lambda>_.
     bindr (gets (\<lambda>s. - int (sc_pgrp s))) (\<lambda>pgid.
     bindr (assertr (pgid \<noteq> - 1)) (\<lambda>_.
     bindr (kill pgid (Some SIGCHLD)) (\<lambda>e.
     bindr (if e = EXIT_SUCCESS then sig_handler else retr ()) (\<lambda>_.
     bindr (assertr (e = EXIT_SUCCESS)) (\<lambda>_.
     bindr (modify (\<lambda>s. s\<lparr>sc_forked := 0\<rparr>)) (\<lambda>_.
     printf (''...Done'' @ [NL]) [])))))))))))"

definition fork_finish :: "SharedMemory \<Rightarrow> string \<Rightarrow> 'z sys_os_scheme \<Rightarrow> ('z sys_os_scheme, u64 \<times> string) run" where
  "fork_finish children reason =
     bindr (gets sc_forked) (\<lambda>forked_max.
     bindr (chk_fork_cleanup children forked_max) (\<lambda>_. retr (forked_max, reason)))"

text \<open>A child waits for a signal and exits.\<close>

definition fork_child :: "'z sys_os_scheme \<Rightarrow> ('z sys_os_scheme, 'a) run" where
  "fork_child = bindr (gets pr_naps) (\<lambda>ns. if list_ex (\<lambda>n. n \<noteq> None) ns then stop (Exited 0) else stop Hangs)"

text \<open>
  The number bounds the turns of the loop; each of them takes an answer of \<open>fork\<close>, and without an answer left
  \<open>fork\<close> fails. The index of the slot is cut to 16 bits by the class.
\<close>

primrec do_fork :: "nat \<Rightarrow> SharedMemory \<Rightarrow> u64 \<Rightarrow> int \<Rightarrow> string \<Rightarrow> 'z sys_os_scheme \<Rightarrow> ('z sys_os_scheme, u64 \<times> string) run" where
  "do_fork 0 children lmt threshold reason = stop Hangs"
| "do_fork (Suc n) children lmt threshold reason =
     bindr fork (\<lambda>pid.
     if pid = - 1 then
       bindr (gets err) (\<lambda>e.
       bindr (printf [NL] []) (\<lambda>_.
       fork_finish children (if e = EAGAIN then STR_EAGAIN else if e = ENOMEM then STR_ENOMEM else reason)))
     else if pid = 0 then fork_child
     else
       bindr (gets sc_forked) (\<lambda>forked.
       if forked < lmt then
         bindr (SharedMemory_write_uint children (ucast forked) (word_of_int pid)) (\<lambda>_.
         bindr (performance forked 1) (\<lambda>performed.
         bindr (progress ''Spawning'' (forked + 1) lmt) (\<lambda>_.
         if performed = - 1 then
           bindr (modify (\<lambda>s. s\<lparr>sc_forked := forked + 1\<rparr>)) (\<lambda>_. do_fork n children lmt threshold reason)
         else if performed \<ge> threshold then
           bindr (printf ''...%i forks/s'' [performed]) (\<lambda>_. do_fork n children lmt threshold reason)
         else
           bindr (printf (''...%i forks/s (!> %i)'' @ [NL]) [performed, threshold]) (\<lambda>_.
           fork_finish children STR_THRSHD))))
       else bindr (printf [NL] []) (\<lambda>_. fork_finish children reason)))"

definition chk_fork :: "int \<Rightarrow> 'z sys_os_scheme \<Rightarrow> ('z sys_os_scheme, int) run" where
  "chk_fork threshold =
     bindr ftime (\<lambda>t.
     bindr (sigaction_handle SIGCHLD) (\<lambda>e.
     if e = EXIT_SUCCESS then
       bindr (getrlimit R_NPROC) (\<lambda>(cur, mx).
       bindr (SharedMemory_new CHILDREN_KEY (unat (cur * 4)) True) (\<lambda>p.
       bindr (if p = None then SharedMemory_new CHILDREN_KEY (unat (cur * 4)) False else retr p) (\<lambda>p.
       bindr (assertr (p \<noteq> None)) (\<lambda>_.
       let children = the p in
       bindr (gets (\<lambda>s. Suc (length (pr_forks s)))) (\<lambda>n.
       bindr (do_fork n children cur threshold STR_UNKNWN) (\<lambda>(forked_max, reason).
       bindr (gets sc_forked) (\<lambda>forked.
       if forked \<noteq> 0 then stop Hangs
       else
         bindr (addMessage ''PROC'' t cur forked_max reason) (\<lambda>_.
         bindr (SharedMemory_delete children True) (\<lambda>_. retr e)))))))))
     else retr EXIT_FAILURE))"

section \<open>Allocating\<close>

text \<open>One answer for each allocation; when they are used up there is no memory left.\<close>

fun calloc_turns :: "u64 \<Rightarrow> u64 \<Rightarrow> int \<Rightarrow> bool list \<Rightarrow> u64 \<Rightarrow> 'z sys_os_scheme \<Rightarrow> ('z sys_os_scheme, u64 \<times> string) run" where
  "calloc_turns limit sz threshold bs i =
     bindr (progress ''Callocing'' (sz * i div MEGA) limit) (\<lambda>_.
     if CALLOC_MAX_COUNT \<le> i then stop Undefined
     else case bs of
       True # bs' \<Rightarrow>
         bindr (modify (\<lambda>s. s\<lparr>sc_live := Suc (sc_live s)\<rparr>)) (\<lambda>_.
         bindr (performance (sz * i) MEGA) (\<lambda>performed.
         if performed = - 1 then calloc_turns limit sz threshold bs' (i + 1)
         else if performed \<ge> threshold then
           bindr (printf ''...%i MiB/s'' [performed]) (\<lambda>_. calloc_turns limit sz threshold bs' (i + 1))
         else
           bindr (printf (''...%i MiB/s (!> %i MiB/s)'' @ [NL]) [performed, threshold]) (\<lambda>_. retr (i, STR_THRSHD))))
     | _ \<Rightarrow> bindr (printf [NL] []) (\<lambda>_. retr (i, STR_ENOMEM)))"

primrec free_heaps :: "u64 \<Rightarrow> u64 \<Rightarrow> nat \<Rightarrow> 'z sys_os_scheme \<Rightarrow> ('z sys_os_scheme, unit) run" where
  "free_heaps limit sz 0 = retr ()"
| "free_heaps limit sz (Suc i) =
     bindr (modify (\<lambda>s. s\<lparr>sc_live := sc_live s - 1\<rparr>)) (\<lambda>_.
     bindr (progress ''Freeing'' (sz * word_of_nat i div MEGA) limit) (\<lambda>_. free_heaps limit sz i))"

definition chk_calloc :: "int \<Rightarrow> int \<Rightarrow> 'z sys_os_scheme \<Rightarrow> ('z sys_os_scheme, int) run" where
  "chk_calloc calloc_size threshold =
     bindr ftime (\<lambda>t.
     bindr (getrlimit R_AS) (\<lambda>(cur, mx).
     let limit = cur div MEGA; sz = word_of_int calloc_size in
     bindr malloc (\<lambda>ok.
     if \<not> ok then stop Undefined
     else
       bindr (gets sc_allocs) (\<lambda>bs.
       bindr (calloc_turns limit sz threshold bs 0) (\<lambda>(opened_max, reason).
       bindr (free_heaps limit sz (unat opened_max)) (\<lambda>_.
       bindr (printf (''...Done'' @ [NL]) []) (\<lambda>_.
       bindr (addMessage ''CALLOC'' t limit (sz * opened_max div MEGA) reason) (\<lambda>_.
       retr EXIT_SUCCESS))))))))"

section \<open>Opening files\<close>

primrec close_opened :: "u64 \<Rightarrow> (nat \<Rightarrow> int) \<Rightarrow> nat \<Rightarrow> 'z sys_os_scheme \<Rightarrow> ('z sys_os_scheme, unit) run" where
  "close_opened lmt opened 0 = retr ()"
| "close_opened lmt opened (Suc i) =
     bindr (progress ''Closing'' (word_of_nat i) lmt) (\<lambda>_.
     bindr (modify (\<lambda>s. s\<lparr>sc_open := remove1 (opened i) (sc_open s)\<rparr>)) (\<lambda>_. close_opened lmt opened i))"

definition chk_open_cleanup :: "u64 \<Rightarrow> u64 \<Rightarrow> (nat \<Rightarrow> int) \<Rightarrow> 'z sys_os_scheme \<Rightarrow> ('z sys_os_scheme, u64) run" where
  "chk_open_cleanup lmt i opened =
     bindr (close_opened lmt opened (unat i)) (\<lambda>_. bindr (printf [NL] []) (\<lambda>_. retr (i + 1)))"

definition open_reason :: "errno \<Rightarrow> string" where
  "open_reason e = (if e = ENFILE then STR_ENFILE else if e = EMFILE then STR_EMFILE
     else if e = ENOMEM then STR_ENOMEM else STR_UNKNWN)"

text \<open>
  One answer for each \<open>open\<close>; when they are used up the process has no descriptor left. The array
  has one element for each descriptor the limit allows.
\<close>

fun open_turns :: "u64 \<Rightarrow> int \<Rightarrow> (errno + int) list \<Rightarrow> u64 \<Rightarrow> (nat \<Rightarrow> int) \<Rightarrow>
    'z sys_os_scheme \<Rightarrow> ('z sys_os_scheme, u64 \<times> string) run" where
  "open_turns lmt threshold (Inr fh # rs) i opened =
     bindr (modify (\<lambda>s. s\<lparr>sc_open := sc_open s @ [fh]\<rparr>)) (\<lambda>_.
     bindr (progress ''Opening'' i lmt) (\<lambda>_.
     bindr (performance i 1) (\<lambda>performed.
     if performed = - 1 then
       (if lmt \<le> i then stop Undefined
        else open_turns lmt threshold rs (i + 1) (opened(unat i := fh)))
     else if performed \<ge> threshold then
       bindr (printf ''...%i opens/s'' [performed]) (\<lambda>_. open_turns lmt threshold rs i opened)
     else
       bindr (printf (''...%i opens/s (!> %i)'' @ [NL]) [performed, threshold]) (\<lambda>_.
       bindr (chk_open_cleanup lmt i opened) (\<lambda>m. retr (m, STR_THRSHD))))))"
| "open_turns lmt threshold (Inl e # rs) i opened =
     bindr (printf [NL] []) (\<lambda>_. bindr (chk_open_cleanup lmt i opened) (\<lambda>m. retr (m, open_reason e)))"
| "open_turns lmt threshold [] i opened =
     bindr (printf [NL] []) (\<lambda>_. bindr (chk_open_cleanup lmt i opened) (\<lambda>m. retr (m, open_reason EMFILE)))"

definition chk_open :: "int \<Rightarrow> 'z sys_os_scheme \<Rightarrow> ('z sys_os_scheme, int) run" where
  "chk_open threshold =
     bindr ftime (\<lambda>t.
     bindr (getrlimit R_NOFILE) (\<lambda>(cur, mx).
     if cur = 0 then stop Undefined
     else
       bindr (gets sc_opens) (\<lambda>rs.
       bindr (open_turns cur threshold rs 0 (\<lambda>_. 0)) (\<lambda>(opened_max, reason).
       bindr (addMessage ''OPEN'' t cur opened_max reason) (\<lambda>_.
       retr EXIT_FAILURE)))))"

section \<open>Reading a file by lines\<close>

definition BUFSIZ :: nat where "BUFSIZ = 8192"

text \<open>\<open>read\<close> overwrites the start of the buffer; one that fails, or is at the end of the file, reads nothing.\<close>

definition read_into :: "string \<Rightarrow> string \<Rightarrow> string" where
  "read_into c buf = (let c' = take (length buf) c in c' @ drop (length c') buf)"

text \<open>
  Every further read starts at the beginning of the buffer again, which \<open>realloc\<close> does not enlarge. When it moves the
  buffer the old address is used; when it fails \<open>read\<close> gets \<open>NULL\<close> and fails.
\<close>

fun read_chunks :: "string list \<Rightarrow> resize list \<Rightarrow> string \<Rightarrow> string option" where
  "read_chunks [] rs buf = Some buf"
| "read_chunks (c # cs) rs buf =
     (if length c < BUFSIZ then Some (read_into c buf)
      else case rs of
        [] \<Rightarrow> read_chunks cs [] (read_into c buf)
      | Stays # rs' \<Rightarrow> read_chunks cs rs' (read_into c buf)
      | Moves # rs' \<Rightarrow> None
      | Fails # rs' \<Rightarrow> Some (read_into c buf))"

text \<open>The first call; without a buffer \<open>strtok_r\<close> gets \<open>NULL\<close>.\<close>

definition load_file :: "string \<Rightarrow> 'z sys_os_scheme \<Rightarrow> ('z sys_os_scheme, string option) run" where
  "load_file path =
     bindr (gets (\<lambda>s. sc_files s path)) (\<lambda>f.
     case f of
       None \<Rightarrow> retr None
     | Some (st_size, chunks) \<Rightarrow>
         bindr malloc (\<lambda>ok.
         if \<not> ok then retr None
         else if st_size > 0 then
           gets (\<lambda>s. Some (read_into (concat (take 1 chunks)) (map (sc_fresh s) [0..<st_size])))
         else
           gets (\<lambda>s. read_chunks chunks (sc_resizes s) (map (sc_fresh s) [0..<BUFSIZ]))))"

text \<open>
  \<open>strtok_r\<close> for lines, on the rest of the buffer: the token and the rest after it; \<open>None\<close> when it runs past the
  end of the buffer, because no null character stops it.
\<close>

definition strtok :: "string \<Rightarrow> (string option \<times> string) option" where
  "strtok r = (case dropWhile (\<lambda>c. c = NL) r of
     [] \<Rightarrow> None
   | c # cs \<Rightarrow>
       if c = NUL then Some (None, c # cs)
       else
         let tok = takeWhile (\<lambda>c. c \<noteq> NL \<and> c \<noteq> NUL) (c # cs) in
         case drop (length tok) (c # cs) of
           [] \<Rightarrow> None
         | d # ds \<Rightarrow> Some (Some tok, if d = NUL then d # ds else ds))"

definition read_file_lines :: "string \<Rightarrow> 'z sys_os_scheme \<Rightarrow> ('z sys_os_scheme, string option) run" where
  "read_file_lines path =
     bindr (gets sc_buffer) (\<lambda>held.
     bindr (if held then gets (\<lambda>s. Some (sc_saveptr s)) else load_file path) (\<lambda>rest.
     case Option.bind rest strtok of
       None \<Rightarrow> stop Undefined
     | Some (token, rest') \<Rightarrow>
         bindr (modify (\<lambda>s. s\<lparr>sc_buffer := (token \<noteq> None), sc_saveptr := rest'\<rparr>)) (\<lambda>_.
         retr token)))"

section \<open>Preparing\<close>

text \<open>
  \<open>sscanf\<close> of an unsigned number: white space, a sign, then digits; without digits nothing is stored. A
  number that is too large becomes the largest one.
\<close>

definition scan_number :: "string \<Rightarrow> u64 \<Rightarrow> u64" where
  "scan_number cs old =
     (let r = dropWhile is_space cs;
          ds = (if take 1 r = ''-'' \<or> take 1 r = ''+'' then drop 1 r else r);
          v = digits_value 0 ds in
      if ds = [] \<or> \<not> is_digit (hd ds) then old
      else if 2 ^ 64 \<le> v then - 1
      else if take 1 r = ''-'' then - word_of_int v else word_of_int v)"

definition contains :: "string \<Rightarrow> string \<Rightarrow> bool" where
  "contains w cs \<longleftrightarrow> list_ex (\<lambda>i. take (length w) (drop i cs) = w) [0..<Suc (length cs)]"

text \<open>The sizes are read at a fixed place of the line, wherever in it the word was found.\<close>

fun meminfo_line :: "string \<Rightarrow> u64 \<times> u64 \<Rightarrow> u64 \<times> u64" where
  "meminfo_line l (mem, swap) =
     (if contains ''MemTotal:'' l then (scan_number (drop 9 l) mem * KILO, swap)
      else if contains ''SwapTotal:'' l then (mem, scan_number (drop 10 l) swap * KILO)
      else (mem, swap))"

text \<open>Each turn but the last takes a line of the buffer; the number is one more than what the buffer can hold.\<close>

primrec meminfo_lines :: "nat \<Rightarrow> u64 \<times> u64 \<Rightarrow> 'z sys_os_scheme \<Rightarrow> ('z sys_os_scheme, u64 \<times> u64) run" where
  "meminfo_lines 0 sizes = stop Hangs"
| "meminfo_lines (Suc n) sizes =
     bindr (read_file_lines ''/proc/meminfo'') (\<lambda>meminfo.
     case meminfo of None \<Rightarrow> retr sizes | Some l \<Rightarrow> meminfo_lines n (meminfo_line l sizes))"

definition buffer_room :: "'z sys_os_scheme \<Rightarrow> nat" where
  "buffer_room s = BUFSIZ + (case sc_files s ''/proc/meminfo'' of None \<Rightarrow> 0 | Some (st_size, _) \<Rightarrow> st_size) + length (sc_saveptr s)"

definition chk_calloc_prepare :: "'z sys_os_scheme \<Rightarrow> ('z sys_os_scheme, int) run" where
  "chk_calloc_prepare =
     bindr (gets (\<lambda>s. int (junk s))) (\<lambda>j.
     bindr (get_proc_reading ''/proc/sys/vm/overcommit_memory'' j) (\<lambda>overcommit_memory.
     if overcommit_memory = 2 then
       bindr (msg_note M_INFO (''I Memory overcommit protection is ON; Good.'' @ [NL]) []) (\<lambda>_.
       bindr (gets buffer_room) (\<lambda>n.
       bindr (meminfo_lines (Suc (Suc n)) (- 1, - 1)) (\<lambda>(mem_total, swap_total).
       bindr (msg_note M_INFO (''I MemTotal         : %llu'' @ [NL]) [uint mem_total]) (\<lambda>_.
       bindr (msg_note M_INFO (''I SwapTotal        : %llu'' @ [NL]) [uint swap_total]) (\<lambda>_.
       bindr (get_proc_reading ''/proc/sys/vm/swappiness'' j) (\<lambda>swappiness.
       bindr (msg_note M_INFO (''I Swappiness:      : %i%%'' @ [NL]) [swappiness]) (\<lambda>_.
       bindr (get_proc_reading ''/proc/sys/vm/overcommit_ratio'' 0) (\<lambda>overcommit_ratio.
       bindr (msg_note M_INFO (''I Overcommit ratio : %i%%'' @ [NL]) [overcommit_ratio]) (\<lambda>_.
       let memsyslim = swap_total + mem_total * word_of_int overcommit_ratio div 100 in
       bindr (setrlim R_AS memsyslim) (\<lambda>_.
       bindr (msg_note M_INFO (''I Overcommit limit : %lu'' @ [NL]) [uint memsyslim]) (\<lambda>_.
       retr EXIT_SUCCESS)))))))))))
     else
       bindr (msg_note M_ERRR (''E Memory overcommit protection is OFF!'' @ [NL]) []) (\<lambda>_.
       bindr (msg_note M_ERRR (''E '' @ branch @ '' Cowardly refusing to run CALLOC test.'' @ [NL]) []) (\<lambda>_.
       bindr (msg_note M_INFO (''I '' @ branch @ '' To run this test, run: sysctl vm.overcommit_memory=2'' @ [NL]) []) (\<lambda>_.
       retr EXIT_FAILURE)))))"

definition chk_fork_prepare :: "'z sys_os_scheme \<Rightarrow> ('z sys_os_scheme, int) run" where
  "chk_fork_prepare =
     bindr (get_proc_reading ''/proc/sys/kernel/pid_max'' (- 1)) (\<lambda>pid_max.
     bindr (setrlim R_NPROC (word_of_int pid_max)) (\<lambda>_.
     bindr (setrlim R_SIGPENDING (word_of_int pid_max)) (\<lambda>_.
     retr EXIT_SUCCESS)))"

definition setpriority :: "int \<Rightarrow> 'z sys_os_scheme \<Rightarrow> ('z sys_os_scheme, int) run" where
  "setpriority p s = (if sc_prio_ok s then Fin 0 (s\<lparr>sc_prio := p\<rparr>) else Fin (- 1) s)"

definition chk_open_prepare :: "'z sys_os_scheme \<Rightarrow> ('z sys_os_scheme, int) run" where
  "chk_open_prepare =
     bindr (gets sc_prio) (\<lambda>prio.
     bindr (msg_note M_INFO ''I Setting process priority from %i to %i...'' [prio, PRIO]) (\<lambda>_.
     bindr (setpriority PRIO) (\<lambda>e.
     bindr (assertr (e = EXIT_SUCCESS)) (\<lambda>_.
     bindr (gets sc_prio) (\<lambda>prio.
     bindr (printf ((if prio = PRIO then ''Done'' else ''Failed'') @ [NL]) []) (\<lambda>_.
     bindr (get_proc_reading ''/proc/sys/fs/file-max'' (- 1)) (\<lambda>fh_max.
     bindr (setrlim R_NOFILE (word_of_int fh_max)) (\<lambda>_.
     retr e))))))))"

section \<open>Main\<close>

text \<open>The static variables start as zero. What \<open>main\<close> does before it exits with the code of the last test.\<close>

definition sys_tests :: "'z sys_os_scheme \<Rightarrow> ('z sys_os_scheme, int) run" where
  "sys_tests =
     bindr (modify (\<lambda>s. s\<lparr>sc_forked := 0, sc_msgs := [], sc_t_last := 0, sc_counter_last := 0, sc_buffer := False,
       sc_saveptr := []\<rparr>)) (\<lambda>_.
     bindr (msg_full M_DBUG ''D Running in debug mode.'') (\<lambda>_.
     bindr (msg_full M_TITL ''OPEN'') (\<lambda>_.
     bindr chk_open_prepare (\<lambda>e.
     bindr (if e = EXIT_SUCCESS then chk_open CHK_OPEN_THRESHOLD else retr e) (\<lambda>_.
     bindr (msg_full M_TITL ''FORK'') (\<lambda>_.
     bindr chk_fork_prepare (\<lambda>e.
     bindr (if e = EXIT_SUCCESS then chk_fork CHK_FORK_THRESHOLD else retr e) (\<lambda>_.
     bindr (msg_full M_TITL ''ALOC'') (\<lambda>_.
     bindr chk_calloc_prepare (\<lambda>e.
     bindr (if e = EXIT_SUCCESS then chk_calloc CALLOC_SIZE CHK_CALLOC_THRESHOLD else retr e) (\<lambda>e.
     bindr Msg_dump (\<lambda>_. retr e))))))))))))"

definition sys_main :: "'z sys_os_scheme \<Rightarrow> ('z sys_os_scheme, int) run" where
  "sys_main = bindr sys_tests (\<lambda>e. stop (Exited e))"

end
