(* ===== verification/Syschk_Props.thy ===== *)
theory Syschk_Props
  imports Syschk Forked
begin

text \<open>
  What \<open>syschk\<close> does: the kernel stays well-formed whatever happens; its measurement of speed; its three tests
  when the clock stands still; and what they leave behind.
\<close>

section \<open>The command keeps the kernel state well-formed\<close>

lemma wf_os_sys_upd [simp]:
  "wf_os (s\<lparr>sc_forked := a\<rparr>) = wf_os s" "wf_os (s\<lparr>sc_t_last := b\<rparr>) = wf_os s"
  "wf_os (s\<lparr>sc_counter_last := a\<rparr>) = wf_os s" "wf_os (s\<lparr>sc_msgs := ms\<rparr>) = wf_os s"
  "wf_os (s\<lparr>sc_ticks := ts\<rparr>) = wf_os s" "wf_os (s\<lparr>sc_open := fs\<rparr>) = wf_os s" "wf_os (s\<lparr>sc_live := l\<rparr>) = wf_os s"
  "wf_os (s\<lparr>sc_limits := ls\<rparr>) = wf_os s" "wf_os (s\<lparr>sc_set_ok := bs\<rparr>) = wf_os s"
  "wf_os (s\<lparr>sc_zombies := z\<rparr>) = wf_os s"
  by (simp_all add: wf_os_def)

lemma keeps_print [keeps]: "keeps (msg_note ty fmt xs) wf_os" "keeps (progress name c l) wf_os"
  unfolding msg_note_def progress_def by (intro keeps)+

lemma keeps_system [keeps]:
  "keeps (get_proc_reading p n) I" "keeps (getrlimit r) I" "keeps ftime I" "keeps (setrlimit r l) wf_os"
  "keeps time_call wf_os"
  unfolding get_proc_reading_def
  by (intro keeps) (auto intro!: keeps keepsI simp: get_proc_reading_def getrlimit_def ftime_def setrlimit_def time_call_def wf_os_def wf_ipc_clock
      split: list.split)

lemma keeps_small [keeps]:
  "keeps (setrlim r l) wf_os" "keeps (addMessage n t lmt c rs) wf_os" "keeps (performance c d) wf_os"
  unfolding setrlim_def addMessage_def performance_def by (intro keeps keeps_modify; simp)+

lemma keeps_verify [keeps]: "keeps (verify p n i) wf_os"
  by (induction n arbitrary: i) (auto intro!: keeps)

lemma keeps_verify_all [keeps]: "keeps (verify_all n p m) wf_os"
  by (induction n) (auto intro!: keeps)

lemma keeps_sig_handler [keeps]: "keeps sig_handler wf_os"
proof -
  have "keeps (reap n) wf_os" for n by (induction n) (auto intro!: keeps keeps_modify)
  then show ?thesis unfolding sig_handler_def by (intro keeps)
qed

lemma keeps_fork_cleanup [keeps]: "keeps (chk_fork_cleanup p m) wf_os" "keeps (fork_finish p r) wf_os" "keeps fork_child wf_os"
  unfolding fork_finish_def chk_fork_cleanup_def fork_child_def by (intro keeps keeps_modify; simp)+

lemma keeps_do_fork [keeps]: "keeps (do_fork n p l t r) wf_os"
  by (induction n) (auto intro!: keeps keeps_modify)

lemma keeps_free_heaps [keeps]: "keeps (free_heaps l sz n) wf_os"
  by (induction n) (auto intro!: keeps keeps_modify)

lemma keeps_calloc_turns [keeps]: "keeps (calloc_turns l sz t bs i) wf_os"
proof (induction bs arbitrary: i)
  case Nil
  show ?case by (subst calloc_turns.simps) (auto intro!: keeps)
next
  case (Cons b bs)
  then show ?case
    by (subst calloc_turns.simps) (cases b; auto intro!: keeps keeps_modify)
qed

lemma keeps_close [keeps]: "keeps (close_opened l f n) wf_os" "keeps (chk_open_cleanup l i f) wf_os"
proof -
  show *: "keeps (close_opened l f n) wf_os" for n
    by (induction n) (auto intro!: keeps keeps_modify)
  show "keeps (chk_open_cleanup l i f) wf_os" unfolding chk_open_cleanup_def by (intro keeps *)
qed

lemma keeps_open_turns [keeps]: "keeps (open_turns l t rs i f) wf_os"
proof (induction rs arbitrary: i f)
  case (Cons r rs)
  then show ?case by (cases r) (auto intro!: keeps keeps_modify)
qed (auto intro!: keeps)

lemma keeps_tests [keeps]: "keeps (chk_open t) wf_os" "keeps (chk_fork t) wf_os" "keeps (chk_calloc n t) wf_os"
  unfolding chk_open_def chk_fork_def chk_calloc_def Let_def by (intro keeps keeps_modify; simp)+

lemma keeps_lines [keeps]: "keeps (read_file_lines q) wf_os" "keeps (meminfo_lines n z) wf_os"
proof -
  show *: "keeps (read_file_lines q) wf_os" for q
    unfolding read_file_lines_def load_file_def by (intro keeps keeps_modify; simp add: wf_os_def)
  show "keeps (meminfo_lines n z) wf_os"
    by (induction n arbitrary: z) (auto intro!: keeps *)
qed

lemma keeps_setpriority [keeps]: "keeps (setpriority p) wf_os"
  by (rule keepsI) (simp add: setpriority_def wf_os_def)

lemma keeps_prepare [keeps]: "keeps chk_open_prepare wf_os" "keeps chk_fork_prepare wf_os" "keeps chk_calloc_prepare wf_os"
  unfolding chk_open_prepare_def chk_fork_prepare_def chk_calloc_prepare_def Let_def by (intro keeps)+

lemma keeps_messages [keeps]: "keeps (msg_full ty tx) wf_os" "keeps Msg_dump wf_os"
proof -
  have rows: "keeps (dump_rows ms) wf_os" for ms
    by (induction ms) (auto intro!: keeps keeps_modify simp: wf_os_def)
  show full: "keeps (msg_full ty tx) wf_os" for ty tx
    unfolding msg_full_def get_la_def by (intro keeps)
  show "keeps Msg_dump wf_os"
    unfolding Msg_dump_def by (intro keeps rows full keeps_modify) simp
qed

text \<open>
  \<open>syschk\<close> and the kernel. Whatever the limits, the answers of the calls, the passing of time and other
  processes are, in the process itself and in each of its children, the kernel's tables stay well-formed however the process ends.
\<close>

theorem sys_main_wf:
  assumes "wf_os s"
  shows "wf_os (final (sys_main s))"
proof -
  have "keeps sys_main wf_os" unfolding sys_main_def sys_tests_def by (intro keeps keeps_modify) (simp add: wf_os_def)
  with assms show ?thesis by (auto dest: keepsD simp: every_def)
qed

section \<open>Limits\<close>

text \<open>
  lowering a limit. When the calls succeed, the macro \<open>setrlim\<close> leaves no soft limit above a positive limit of the
  system, raises neither the soft nor the hard limit, keeps the other resources' limits, and a second use changes nothing more.
\<close>

theorem setrlim_lowers:
  assumes "sc_set_ok s = []" and "0 < lmt"
  shows "\<exists>t. setrlim r lmt s = Fin () t \<and> fst (sc_limits t r) \<le> lmt \<and>
    fst (sc_limits t r) = min (fst (sc_limits s r)) lmt \<and>
    snd (sc_limits t r) = (if lmt < fst (sc_limits s r) then min (snd (sc_limits s r)) lmt else snd (sc_limits s r)) \<and>
    (\<forall>q. q \<noteq> r \<longrightarrow> sc_limits t q = sc_limits s q) \<and> sc_limits (final (setrlim r lmt t)) = sc_limits t"
  using assms
  by (cases "sc_limits s r")
    (auto simp: setrlim_def getrlimit_def setrlimit_def run_simps min_def msg_note_def printf_def split: if_splits)

section \<open>Speed\<close>

text \<open>
  C24: the speed of a later test. A test starts with the counter 0, which forgets the time of the last measurement but not its
  counter \<open>c0\<close>. When the first measurement of the next test, more than 5 seconds on, comes at a smaller counter, the difference
  wraps around: the speed is the rest of \<open>2 ^ 64\<close>, divided and cut to \<open>int\<close>, and has nothing to do with the test.
\<close>

theorem performance_wraps:
  assumes "sc_ticks s = [a, b, n]" and "0 < clock (ker s)" and "c \<noteq> 0" and "c < sc_counter_last s" and "5 < n" and "n < 2 ^ 31"
  shows "\<exists>t. bindr (performance 0 d) (\<lambda>_. performance c d) s =
    Fin (to_int ((2 ^ 64 - (uint (sc_counter_last s) - uint c)) div int n div uint d)) t"
proof -
  let ?k = "uint (sc_counter_last s) - uint c"
  have k: "0 < ?k" using assms(4) by (simp add: word_less_def)
  have "?k \<le> uint (sc_counter_last s)" by simp
  also have "\<dots> < 2 ^ 64" using uint_bounded [of "sc_counter_last s"] by simp
  finally have k': "?k < 2 ^ 64" .
  have "c - sc_counter_last s = word_of_int (2 ^ 64 - ?k)" by simp
  then have "uint (c - sc_counter_last s) = (2 ^ 64 - ?k) mod 2 ^ 64"
    by (simp only: uint_word_of_int) simp
  also have "\<dots> = 2 ^ 64 - ?k" using k k' by (intro mod_pos_pos_trivial) simp_all
  finally have diff: "uint (c - sc_counter_last s) = 2 ^ 64 - ?k" .
  have "uint (word_of_int (int n) :: u64) = int n mod 2 ^ 64" by (simp only: uint_word_of_int) simp
  also have "\<dots> = int n" using assms(6) by simp
  finally have "uint (word_of_int (int n) :: u64) = int n" .
  with diff have "uint ((c - sc_counter_last s) div word_of_int (int n) div d) = (2 ^ 64 - ?k) div int n div uint d"
    by (simp add: uint_div_distrib)
  then show ?thesis
    using assms by (simp add: performance_def time_call_def run_simps)
qed

text \<open>While the clock stands still nothing is measured.\<close>

lemma performance_start:
  assumes "sc_ticks s = []"
  shows "performance 0 d s = Fin (- 1) (s\<lparr>sc_t_last := clock (ker s)\<rparr>)"
  using assms by (simp add: performance_def time_call_def run_simps)

lemma performance_still:
  assumes "sc_ticks s = []" and "0 < clock (ker s)" and "sc_t_last s = clock (ker s)" and "c \<noteq> 0"
  shows "performance c d s = Fin (- 1) s"
  using assms by (simp add: performance_def time_call_def run_simps)

text \<open>The state that a test with a clock that stands still runs through.\<close>

definition still :: "u64 \<Rightarrow> 'z sys_os_scheme \<Rightarrow> bool" where
  "still c s \<longleftrightarrow> sc_ticks s = [] \<and> 0 < clock (ker s) \<and> (c = 0 \<or> sc_t_last s = clock (ker s))"

lemma performance_quiet:
  assumes "still c s"
  shows "performance c d s = Fin (- 1) (s\<lparr>sc_t_last := clock (ker s)\<rparr>)"
proof (cases "c = 0")
  case False
  with assms have "s\<lparr>sc_t_last := clock (ker s)\<rparr> = s" by (simp add: still_def)
  with False assms show ?thesis by (simp add: still_def performance_still)
qed (use assms in \<open>simp add: still_def performance_start\<close>)

section \<open>Opening files\<close>

lemma progress_run: "progress name c l s = Fin () (s\<lparr>out := out s @ [(CHR 0x0D # ''X '' @ branch @ '' '' @ pad_left 10 name @
    '' [%12lu/%-22lu]'', [uint c, uint l])]\<rparr>)"
  by (simp add: progress_def printf_def run_simps)

lemma printf_run: "printf f xs s = Fin () (s\<lparr>out := out s @ [(f, xs)]\<rparr>)"
  by (simp add: printf_def run_simps)

lemma close_opened_all:
  "distinct (fs @ fds) \<Longrightarrow> \<forall>j < length fds. opened j = fds ! j \<Longrightarrow> sc_open s = fs @ fds \<Longrightarrow>
    \<exists>q. close_opened l opened (length fds) s = Fin () (s\<lparr>sc_open := fs, out := q\<rparr>)"
proof (induction fds arbitrary: s rule: rev_induct)
  case Nil
  then show ?case by (intro exI [of _ "out s"]) (simp add: run_simps)
next
  case (snoc x xs)
  let ?q = "out s @ [(CHR 0x0D # ''X '' @ branch @ '' '' @ pad_left 10 ''Closing'' @ '' [%12lu/%-22lu]'',
    [uint (word_of_nat (length xs) :: u64), uint l])]"
  have x: "opened (length xs) = x" "\<forall>j < length xs. opened j = xs ! j" using snoc.prems by (auto simp: nth_append)
  moreover have "remove1 x (fs @ xs @ [x]) = fs @ xs" using snoc.prems(1) by (simp add: remove1_append)
  moreover obtain q where "close_opened l opened (length xs) (s\<lparr>out := ?q, sc_open := fs @ xs\<rparr>) =
      Fin () (s\<lparr>sc_open := fs, out := q\<rparr>)"
    using snoc.IH [of "s\<lparr>out := ?q, sc_open := fs @ xs\<rparr>"] snoc.prems x by auto
  ultimately show ?case
    using snoc.prems by (intro exI [of _ q]) (simp add: run_simps progress_run)
qed

lemma of_nat_u64: "n < 2 ^ 64 \<Longrightarrow> unat (word_of_nat n :: u64) = n"
  by (simp add: unsigned_of_nat take_bit_nat_eq_self)

lemma lim_bound: "unat (l :: u64) < 2 ^ 64"
  using unsigned_less [of l] by simp

lemma open_turns_still:
  fixes s :: "'z sys_os_scheme"
  assumes "sc_open s = fs @ ps" and "distinct (fs @ ps @ fds)" and "\<forall>j < length ps. opened j = ps ! j"
    and "still (word_of_nat (length ps)) s" and "length ps + length fds \<le> unat lmt"
  shows "\<exists>tl q. open_turns lmt th (map Inr fds @ Inl e # rs) (word_of_nat (length ps)) opened s =
    Fin (word_of_nat (length ps + length fds) + 1, open_reason e) (s\<lparr>sc_open := fs, sc_t_last := tl, out := q\<rparr>)"
  using assms
proof (induction fds arbitrary: ps opened s)
  case Nil
  have small: "length ps < 2 ^ 64" using Nil.prems(5) lim_bound [of lmt] by simp
  obtain q where "close_opened lmt opened (length ps) (s\<lparr>out := out s @ [([NL], [])]\<rparr>) = Fin () (s\<lparr>sc_open := fs, out := q\<rparr>)"
    using close_opened_all [of fs ps opened "s\<lparr>out := out s @ [([NL], [])]\<rparr>" lmt] Nil.prems by auto
  then show ?case using small
    by (intro exI [of _ "sc_t_last s"] exI [of _ "q @ [([NL], [])]"]) (simp add: chk_open_cleanup_def run_simps of_nat_u64 printf_run)
next
  case (Cons fh fds)
  have "length ps < unat lmt" using Cons.prems(5) by simp
  then have small: "length ps < 2 ^ 64" using lim_bound [of lmt] by simp
  then have low: "\<not> lmt \<le> word_of_nat (length ps)"
    using \<open>length ps < unat lmt\<close> by (simp add: word_le_nat_alt of_nat_u64)
  let ?q = "out s @ [(CHR 0x0D # ''X '' @ branch @ '' '' @ pad_left 10 ''Opening'' @ '' [%12lu/%-22lu]'',
    [uint (word_of_nat (length ps) :: u64), uint lmt])]"
  let ?t = "s\<lparr>sc_open := fs @ ps @ [fh], out := ?q, sc_t_last := clock (ker s)\<rparr>"
  have still: "still (word_of_nat (length ps)) (s\<lparr>sc_open := fs @ ps @ [fh], out := ?q\<rparr>)" "still (word_of_nat (length (ps @ [fh]))) ?t"
    using Cons.prems(4) by (simp_all add: still_def)
  have "\<forall>j < length (ps @ [fh]). (opened(length ps := fh)) j = (ps @ [fh]) ! j"
    using Cons.prems(3) by (auto simp: nth_append less_Suc_eq)
  then have "\<exists>tl q. open_turns lmt th (map Inr fds @ Inl e # rs) (word_of_nat (length (ps @ [fh])))
      (opened(length ps := fh)) ?t = Fin (word_of_nat (length (ps @ [fh]) + length fds) + 1, open_reason e)
        (?t\<lparr>sc_open := fs, sc_t_last := tl, out := q\<rparr>)"
    by (intro Cons.IH) (use Cons.prems still(2) in simp_all)
  then obtain tl q where "open_turns lmt th (map Inr fds @ Inl e # rs) (word_of_nat (length (ps @ [fh])))
      (opened(length ps := fh)) ?t = Fin (word_of_nat (length (ps @ [fh]) + length fds) + 1, open_reason e)
        (?t\<lparr>sc_open := fs, sc_t_last := tl, out := q\<rparr>)" by blast
  then show ?case
    using Cons.prems(1) performance_quiet [OF still(1), of 1] low small
    by (intro exI [of _ tl] exI [of _ q]) (simp add: run_simps progress_run of_nat_u64 add.commute add.left_commute)
qed

text \<open>
  C40: the test of open files while the clock stands still. It opens files until a call fails, closes all it opened, and records
  one more than that as reached, with the reason for the error. It returns the failure code although nothing went wrong.
\<close>

theorem chk_open_exact:
  assumes "sc_opens s = map Inr fds @ Inl e # rs" and "distinct (sc_open s @ fds)"
    and "sc_ticks s = []" and "0 < clock (ker s)" and "length fds \<le> unat (fst (sc_limits s R_NOFILE))"
    and "fst (sc_limits s R_NOFILE) \<noteq> 0" and "mallocs s = []"
  shows "\<exists>t. chk_open th s = Fin 1 t \<and> sc_open t = sc_open s \<and> ker t = ker s \<and>
    sc_msgs t = sc_msgs s @ [\<lparr>msg_name = ''OPEN'', msg_limit = fst (sc_limits s R_NOFILE), msg_reach = word_of_nat (Suc (length fds)),
      msg_reason = open_reason e, msg_stime = (clock (ker s), 0), msg_etime = (clock (ker s), sc_millitm s)\<rparr>]"
proof -
  obtain tl q where "open_turns (fst (sc_limits s R_NOFILE)) th (map Inr fds @ Inl e # rs) 0 (\<lambda>_. 0) s =
      Fin (word_of_nat (length fds) + 1, open_reason e) (s\<lparr>sc_t_last := tl, out := q\<rparr>)"
    using open_turns_still [of s "sc_open s" "[]" fds "\<lambda>_. 0" "fst (sc_limits s R_NOFILE)" th e rs] assms
    by (auto simp: still_def)
  with assms show ?thesis
    by (cases "sc_limits s R_NOFILE")
      (simp add: chk_open_def ftime_def getrlimit_def run_simps addMessage_def malloc_def)
qed

text \<open>A descriptor that no slot holds stays open.\<close>

abbreviation open_fd :: "int \<Rightarrow> 'z sys_os_scheme \<Rightarrow> bool" where
  "open_fd fh s \<equiv> fh \<in> set (sc_open s)"

lemma performance_open: "keeps (performance c d) (open_fd fh)"
  unfolding performance_def
  by (intro keeps keeps_modify; auto intro!: keepsI simp: time_call_def split: list.split)

lemma print_open: "keeps (printf f xs) (open_fd fh)" "keeps (progress name c l) (open_fd fh)"
  by (rule keepsI, simp add: printf_run progress_run)+

lemma close_keeps_open: "\<forall>j < n. opened j \<noteq> fh \<Longrightarrow> keeps (close_opened l opened n) (open_fd fh)"
  by (induction n) (auto intro!: keeps keeps_modify print_open simp: in_set_remove1)

lemma cleanup_keeps_open: "\<forall>j < unat i. opened j \<noteq> fh \<Longrightarrow> keeps (chk_open_cleanup l i opened) (open_fd fh)"
  unfolding chk_open_cleanup_def by (intro keeps close_keeps_open print_open)

lemma open_turns_keeps_open:
  "\<forall>j < unat i. opened j \<noteq> fh \<Longrightarrow> Inr fh \<notin> set rs \<Longrightarrow> keeps (open_turns lmt th rs i opened) (open_fd fh)"
proof (induction rs arbitrary: i opened)
  case Nil
  then show ?case by (auto intro!: keeps print_open cleanup_keeps_open)
next
  case (Cons r rs)
  show ?case
  proof (cases r)
    case (Inl e)
    with Cons.prems show ?thesis by (auto intro!: keeps print_open cleanup_keeps_open)
  next
    case (Inr x)
    have "unat (i + 1) \<le> Suc (unat i)"
      using mod_less_eq_dividend [of "Suc (unat i)" "2 ^ 64"] by (simp add: unat_word_ariths)
    then have "\<forall>j < unat (i + 1). (opened(unat i := x)) j \<noteq> fh" using Cons.prems Inr by (auto simp: less_Suc_eq)
    with Cons Inr show ?thesis by (auto intro!: keeps keeps_modify performance_open print_open cleanup_keeps_open)
  qed
qed

text \<open>
  a measurement loses a descriptor. In the turn in which the speed is measured the new descriptor is not stored, whether
  the test goes on or ends, and its slot is used again: nothing closes it any more, so that it is still open when the test ends.
\<close>

theorem chk_open_leaks:
  assumes "bindr (progress ''Opening'' i lmt) (\<lambda>_. performance i 1) (s\<lparr>sc_open := sc_open s @ [fh]\<rparr>) = Fin p u" and "p \<noteq> - 1"
    and "\<forall>j < unat i. opened j \<noteq> fh" and "Inr fh \<notin> set rs"
  shows "fh \<in> set (sc_open (final (open_turns lmt th (Inr fh # rs) i opened s)))"
proof -
  let ?s = "s\<lparr>sc_open := sc_open s @ [fh]\<rparr>"
  have "keeps (bindr (progress ''Opening'' i lmt) (\<lambda>_. performance i 1)) (open_fd fh)"
    by (intro keeps print_open performance_open)
  from keepsD [OF this, of ?s] assms(1) have u: "open_fd fh u" by simp
  have "keeps (if th \<le> p then bindr (printf ''...%i opens/s'' [p]) (\<lambda>_. open_turns lmt th rs i opened)
      else bindr (printf (''...%i opens/s (!> %i)'' @ [NL]) [p, th]) (\<lambda>_.
        bindr (chk_open_cleanup lmt i opened) (\<lambda>m. retr (m, STR_THRSHD)))) (open_fd fh)"
    using assms(3,4) by (intro keeps print_open open_turns_keeps_open cleanup_keeps_open)
  from keepsD [OF this u] assms(1,2) show ?thesis by (simp add: run_simps progress_run every_def if_run split: run.splits)
qed

section \<open>Allocating\<close>

lemma calloc_max: "CALLOC_MAX_COUNT \<le> i \<longleftrightarrow> 2 ^ 20 \<le> unat i"
  by (simp add: CALLOC_MAX_COUNT_def word_le_nat_alt)

declare calloc_turns.simps [simp del]

lemma calloc_turns_still:
  "still (sz * i) s \<Longrightarrow> unat i + n \<le> 2 ^ 20 \<Longrightarrow> \<exists>tl q.
    calloc_turns l sz th (replicate n True @ bs) i s =
      calloc_turns l sz th bs (i + word_of_nat n) (s\<lparr>sc_live := sc_live s + n, sc_t_last := tl, out := q\<rparr>)"
proof (induction n arbitrary: i s)
  case 0
  then show ?case by (intro exI [of _ "sc_t_last s"] exI [of _ "out s"]) simp
next
  case (Suc n)
  let ?q = "out s @ [(CHR 0x0D # ''X '' @ branch @ '' '' @ pad_left 10 ''Callocing'' @ '' [%12lu/%-22lu]'', [uint (sz * i div MEGA), uint l])]"
  let ?t = "s\<lparr>out := ?q, sc_live := Suc (sc_live s), sc_t_last := clock (ker s)\<rparr>"
  have st: "still (sz * i) (s\<lparr>out := ?q, sc_live := Suc (sc_live s)\<rparr>)" "still (sz * (i + 1)) ?t"
    using Suc.prems(1) by (simp_all add: still_def)
  have "unat (i + 1) = Suc (unat i)" using Suc.prems(2) by (simp add: unat_word_ariths)
  then obtain tl q where "calloc_turns l sz th (replicate n True @ bs) (i + 1) ?t =
      calloc_turns l sz th bs (i + 1 + word_of_nat n) (?t\<lparr>sc_live := sc_live ?t + n, sc_t_last := tl, out := q\<rparr>)"
    using Suc.IH [OF st(2)] Suc.prems(2) by auto
  moreover have "\<not> CALLOC_MAX_COUNT \<le> i" using Suc.prems(2) by (simp add: calloc_max)
  ultimately show ?case
    using performance_quiet [OF st(1), of MEGA]
    by (intro exI [of _ tl] exI [of _ q]) (subst calloc_turns.simps, simp add: run_simps progress_run add.assoc)
qed

lemma free_heaps_all: "\<exists>q. free_heaps l sz n s = Fin () (s\<lparr>sc_live := sc_live s - n, out := q\<rparr>)"
proof (induction n arbitrary: s)
  case 0
  then show ?case by (intro exI [of _ "out s"]) (simp add: run_simps)
next
  case (Suc n)
  let ?q = "out s @ [(CHR 0x0D # ''X '' @ branch @ '' '' @ pad_left 10 ''Freeing'' @ '' [%12lu/%-22lu]'',
    [uint (sz * word_of_nat n div MEGA), uint l])]"
  obtain q where "free_heaps l sz n (s\<lparr>sc_live := sc_live s - 1, out := ?q\<rparr>) = Fin () (s\<lparr>sc_live := sc_live s - 1 - n, out := q\<rparr>)"
    using Suc.IH [of "s\<lparr>sc_live := sc_live s - 1, out := ?q\<rparr>"] by auto
  then show ?case by (intro exI [of _ q]) (simp add: run_simps progress_run)
qed

text \<open>
  the test of allocations while the clock stands still. With room for \<open>n\<close> blocks of 32 KiB and no more, fewer than the array has
  elements, it allocates them all, frees them all, records \<open>n div 32\<close> MiB as reached, and succeeds.
\<close>

theorem chk_calloc_exact:
  assumes "sc_allocs s = replicate n True @ False # bs" and "n < 2 ^ 20"
    and "sc_ticks s = []" and "0 < clock (ker s)" and "mallocs s = []"
  shows "\<exists>t. chk_calloc CALLOC_SIZE th s = Fin 0 t \<and> sc_live t = sc_live s \<and> ker t = ker s \<and>
    sc_msgs t = sc_msgs s @ [\<lparr>msg_name = ''CALLOC'', msg_limit = fst (sc_limits s R_AS) div MEGA, msg_reach = word_of_nat (n div 32),
      msg_reason = STR_ENOMEM, msg_stime = (clock (ker s), 0), msg_etime = (clock (ker s), sc_millitm s)\<rparr>]"
proof -
  let ?l = "fst (sc_limits s R_AS) div MEGA"
  have "still (32768 * 0) s" using assms(3,4) by (simp add: still_def)
  from calloc_turns_still [OF this, of n ?l th "False # bs"] assms(2) obtain tl q where
    "calloc_turns ?l 32768 th (replicate n True @ False # bs) 0 s =
      calloc_turns ?l 32768 th (False # bs) (word_of_nat n) (s\<lparr>sc_live := sc_live s + n, sc_t_last := tl, out := q\<rparr>)" by auto
  moreover have n: "unat (word_of_nat n :: u64) = n" using assms(2) by (intro of_nat_u64) simp
  moreover have "\<exists>r. calloc_turns ?l 32768 th (False # bs) (word_of_nat n) u = Fin (word_of_nat n, STR_ENOMEM) (u\<lparr>out := r\<rparr>)"
    for u :: "'a sys_os_scheme"
    using assms(2) n by (subst calloc_turns.simps) (simp add: calloc_max run_simps progress_run printf_run, blast)
  then obtain r where "calloc_turns ?l 32768 th (False # bs) (word_of_nat n) (s\<lparr>sc_live := sc_live s + n, sc_t_last := tl, out := q\<rparr>) =
      Fin (word_of_nat n, STR_ENOMEM) (s\<lparr>sc_live := sc_live s + n, sc_t_last := tl, out := q\<rparr>\<lparr>out := r\<rparr>)" by blast
  ultimately have turns: "calloc_turns ?l 32768 th (replicate n True @ False # bs) 0 s =
      Fin (word_of_nat n, STR_ENOMEM) (s\<lparr>sc_live := sc_live s + n, sc_t_last := tl, out := r\<rparr>)"
    by simp
  obtain q' where free: "free_heaps ?l 32768 n (s\<lparr>sc_live := sc_live s + n, sc_t_last := tl, out := r\<rparr>) =
      Fin () (s\<lparr>sc_live := sc_live s, sc_t_last := tl, out := q'\<rparr>)"
    using free_heaps_all [of ?l 32768 n "s\<lparr>sc_live := sc_live s + n, sc_t_last := tl, out := r\<rparr>"] by auto
  moreover have "(32768 * word_of_nat n) div MEGA = (word_of_nat (n div 32) :: u64)"
  proof -
    have "unat (32768 * word_of_nat n :: u64) = 32768 * n" using n assms(2) by (simp add: unat_word_ariths)
    then have "unat (32768 * word_of_nat n div MEGA :: u64) = n div 32"
      by (simp add: unat_div_distrib MEGA_def)
    moreover have "unat (word_of_nat (n div 32) :: u64) = n div 32" using assms(2) by (intro of_nat_u64) simp
    ultimately show ?thesis by (simp only: word_unat_eq_iff)
  qed
  ultimately show ?thesis
    using assms(1,5) n turns free
    by (cases "sc_limits s R_AS")
      (simp add: printf_run chk_calloc_def ftime_def getrlimit_def run_simps addMessage_def malloc_def Let_def CALLOC_SIZE_def)
qed

text \<open>
  the array of blocks. With room for 32 GiB or more the test writes past the end of its array of \<open>CALLOC_MAX_COUNT\<close>
  elements: the index is never compared with the size.
\<close>

theorem chk_calloc_overruns:
  assumes "sc_allocs s = replicate (2 ^ 20) True @ bs" and "sc_ticks s = []" and "0 < clock (ker s)" and "mallocs s = []"
  shows "\<exists>t. chk_calloc CALLOC_SIZE th s = Stop Undefined t"
proof -
  have "still (32768 * 0) s" using assms(2,3) by (simp add: still_def)
  from calloc_turns_still [OF this, of "2 ^ 20" "fst (sc_limits s R_AS) div MEGA" th bs] obtain tl q where
    "calloc_turns (fst (sc_limits s R_AS) div MEGA) 32768 th (replicate (2 ^ 20) True @ bs) 0 s =
      calloc_turns (fst (sc_limits s R_AS) div MEGA) 32768 th bs (word_of_nat (2 ^ 20))
        (s\<lparr>sc_live := sc_live s + 2 ^ 20, sc_t_last := tl, out := q\<rparr>)" by auto
  moreover have "\<exists>t. calloc_turns l 32768 th bs (word_of_nat (2 ^ 20)) u = Stop Undefined t" for l and u :: "'a sys_os_scheme"
    by (subst calloc_turns.simps) (simp add: calloc_max run_simps progress_run)
  ultimately obtain t where "calloc_turns (fst (sc_limits s R_AS) div MEGA) 32768 th (replicate (2 ^ 20) True @ bs) 0 s =
      Stop Undefined t" by metis
  then show ?thesis
    using assms(1,4)
    by (cases "sc_limits s R_AS")
      (simp add: chk_calloc_def ftime_def getrlimit_def run_simps malloc_def Let_def CALLOC_SIZE_def)
qed

section \<open>Creating processes\<close>

text \<open>The part of the state that the loop over \<open>fork\<close> does not change.\<close>

definition same_rest :: "'z sys_os_scheme \<Rightarrow> 'z sys_os_scheme \<Rightarrow> bool" where
  "same_rest s t \<longleftrightarrow> script t = script s \<and> mallocs t = mallocs s \<and> clock (ker t) = clock (ker s) \<and> pr_sent t = pr_sent s \<and>
     pr_target t = pr_target s \<and> sc_ticks t = sc_ticks s \<and> sc_msgs t = sc_msgs s \<and> sc_millitm t = sc_millitm s \<and>
     sc_pgrp t = sc_pgrp s \<and> sc_zombies t = sc_zombies s"

lemma same_rest_trans: "same_rest s t \<Longrightarrow> same_rest t u \<Longrightarrow> same_rest s u"
  by (simp add: same_rest_def)

text \<open>One child: its slot is written and the counter goes up.\<close>

lemma fork_turn:
  assumes "pr_forks s = Parent_of q # fs" and "0 < q" and "sc_forked s < lmt" and "still (sc_forked s) s"
    and "shm_ready p s" and "removable p s" and "unat (sc_forked s) < length (shm_cells p s)" and "unat (sc_forked s) < 2 ^ 16"
  obtains t where "do_fork (Suc n) p lmt th r s = do_fork n p lmt th r t" and "pr_forks t = fs" and "sc_forked t = sc_forked s + 1"
    and "still (sc_forked s + 1) t" and "shm_ready p t" and "removable p t"
    and "shm_cells p t = (shm_cells p s)[unat (sc_forked s) := word_of_nat q]" and "same_rest s t"
proof -
  let ?i = "ucast (sc_forked s) :: u16"
  have i: "unat ?i = unat (sc_forked s)" using assms(8) by (simp add: unsigned_ucast_eq take_bit_nat_eq_self)
  let ?s1 = "(shared s)\<lparr>pr_forks := fs\<rparr>"
  have fork: "fork s = Fin (int q) ?s1" using assms(1) by (simp add: fork_def)
  have s1: "shm_ready p ?s1" "removable p ?s1" "shm_cells p ?s1 = shm_cells p s"
    using shm_ready_shared [OF assms(5)] removable_shared [OF assms(6)] shm_cells_shared [OF assms(5)]
      shm_frame_cong [of ?s1 "shared s" p] removable_cong [of ?s1 "shared s" p] by simp_all
  have "unat ?i < length (shm_cells p ?s1)" using assms(7) unfolding i s1(3) .
  from s1(1) this obtain t where t: "SharedMemory_write_uint p ?i (word_of_nat q) ?s1 = Fin () t" "shm_ready p t"
      "shm_cells p t = (shm_cells p ?s1)[unat ?i := word_of_nat q]" "same_but_data p ?s1 t"
    by (rule shm.wrE)
  from t(4) obtain f where f: "t = ?s1\<lparr>ker := (ker ?s1)\<lparr>segs := f\<rparr>\<rparr>" by (rule same_but_data_segs)
  let ?q = "out t @ [(CHR 0x0D # ''X '' @ branch @ '' '' @ pad_left 10 ''Spawning'' @ '' [%12lu/%-22lu]'',
    [uint (sc_forked s + 1), uint lmt])]"
  let ?u = "t\<lparr>sc_t_last := clock (ker t), out := ?q, sc_forked := sc_forked s + 1\<rparr>"
  have t_eq: "pr_forks t = fs" "sc_forked t = sc_forked s" "sc_ticks t = sc_ticks s" "clock (ker t) = clock (ker s)"
    "sc_t_last t = sc_t_last s" "same_rest s t"
    by (simp_all add: f shared_def same_rest_def)
  then have "still (sc_forked s) t" using assms(4) by (simp add: still_def)
  from performance_quiet [OF this, of 1] have "performance (sc_forked s) 1 t = Fin (- 1) (t\<lparr>sc_t_last := clock (ker t)\<rparr>)" .
  moreover have "sc_forked (shared s) = sc_forked s" by (simp add: shared_def)
  ultimately have "do_fork (Suc n) p lmt th r s = do_fork n p lmt th r ?u"
    using fork t(1) t_eq(2) assms(2,3) by (simp add: run_simps progress_run)
  moreover have "still (sc_forked s + 1) ?u" using assms(4) t_eq by (simp add: still_def)
  moreover have "shm_ready p ?u" "shm_cells p ?u = shm_cells p t" "removable p ?u"
    using t(2) same_but_data_removable [OF t(4) s1(2)] shm_frame_cong [of ?u t p] removable_cong [of ?u t p] by simp_all
  moreover have "same_rest s ?u" using t_eq(6) by (simp add: same_rest_def)
  ultimately show thesis
    using that [of ?u] t_eq(1) t(3) s1(3) i by simp
qed

text \<open>All children, until \<open>fork\<close> fails.\<close>

lemma fork_turns:
  assumes "pr_forks s = map Parent_of qs @ fs" and "\<forall>q \<in> set qs. 0 < q" and "unat (sc_forked s) + length qs \<le> unat lmt"
    and "still (sc_forked s) s" and "shm_ready p s" and "removable p s"
    and "unat (sc_forked s) + length qs \<le> length (shm_cells p s)" and "unat (sc_forked s) + length qs \<le> 2 ^ 16"
  shows "\<exists>t. do_fork (length qs + n) p lmt th r s = do_fork n p lmt th r t \<and> pr_forks t = fs \<and>
    sc_forked t = sc_forked s + word_of_nat (length qs) \<and> shm_ready p t \<and> removable p t \<and> same_rest s t \<and>
    shm_cells p t = take (unat (sc_forked s)) (shm_cells p s) @ map word_of_nat qs @ drop (unat (sc_forked s) + length qs) (shm_cells p s)"
  using assms
proof (induction qs arbitrary: s)
  case Nil
  then show ?case by (intro exI [of _ s]) (simp add: same_rest_def)
next
  case (Cons q qs)
  let ?k = "unat (sc_forked s)"
  have lmt: "sc_forked s < lmt" using Cons.prems(3) by (simp add: word_less_nat_alt)
  obtain t where t: "do_fork (Suc (length qs + n)) p lmt th r s = do_fork (length qs + n) p lmt th r t"
    "pr_forks t = map Parent_of qs @ fs" "sc_forked t = sc_forked s + 1" "still (sc_forked s + 1) t" "shm_ready p t" "removable p t"
    "shm_cells p t = (shm_cells p s)[?k := word_of_nat q]" "same_rest s t"
    by (rule fork_turn [of s q "map Parent_of qs @ fs" lmt p]) (use Cons.prems lmt in simp_all)
  have k: "unat (sc_forked s + 1) = Suc ?k"
    using Cons.prems(8) by (simp add: unat_word_ariths)
  obtain u where u: "do_fork (length qs + n) p lmt th r t = do_fork n p lmt th r u" "pr_forks u = fs"
    "sc_forked u = sc_forked t + word_of_nat (length qs)" "shm_ready p u" "removable p u" "same_rest t u"
    "shm_cells p u = take (Suc ?k) (shm_cells p t) @ map word_of_nat qs @ drop (Suc ?k + length qs) (shm_cells p t)"
    using Cons.IH [of t] t(2-7) Cons.prems k by auto
  have "take (Suc ?k) (shm_cells p t) = take ?k (shm_cells p s) @ [word_of_nat q]"
    using Cons.prems(7) t(7) by (simp add: take_Suc_conv_app_nth)
  moreover have "drop (Suc ?k + length qs) (shm_cells p t) = drop (?k + length (q # qs)) (shm_cells p s)"
    using t(7) by simp
  ultimately show ?case
    using t(1,3) u same_rest_trans [OF t(8) u(6)] by (intro exI [of _ u]) (simp add: add.assoc)
qed

text \<open>The check of the table, and the signal to the group.\<close>

lemma shm_out [simp]: "shm_ready p (s\<lparr>out := q\<rparr>) = shm_ready p s" "shm_cells p (s\<lparr>out := q\<rparr>) = shm_cells p s"
  by (rule shm_frame_cong; simp)+

lemma verify_set:
  "shm_ready p s \<Longrightarrow> i + n \<le> length (shm_cells p s) \<Longrightarrow> i + n \<le> 2 ^ 16 \<Longrightarrow>
    \<forall>j. i \<le> j \<and> j < i + n \<longrightarrow> shm_cells p s ! j \<noteq> 0 \<Longrightarrow> \<exists>q. verify p n i s = Fin True (s\<lparr>out := q\<rparr>)"
proof (induction n arbitrary: i s)
  case 0
  then show ?case by (intro exI [of _ "out s"]) (simp add: run_simps)
next
  case (Suc n)
  let ?q = "out s @ [(CHR 0x0D # ''X '' @ branch @ '' '' @ pad_left 10 ''Verifying'' @ '' [%12lu/%-22lu]'',
    [uint (word_of_nat (Suc i) :: u64), uint (word_of_nat (i + Suc n) :: u64)])]"
  have i: "unat (word_of_nat i :: u16) = i"
    using Suc.prems(3) by (simp add: unsigned_of_nat take_bit_nat_eq_self)
  have "SharedMemory_read_uint p (word_of_nat i) s = Fin (shm_cells p s ! i) s"
    using shm.rd_ready [of p s "word_of_nat i", unfolded i] Suc.prems(1,2) by simp
  moreover have "shm_cells p s ! i \<noteq> 0" using Suc.prems(4) by simp
  moreover obtain q where "verify p n (Suc i) (s\<lparr>out := ?q\<rparr>) = Fin True (s\<lparr>out := q\<rparr>)"
    using Suc.IH [of "s\<lparr>out := ?q\<rparr>" "Suc i"] Suc.prems by auto
  ultimately show ?case
    using Suc.prems(3) by (intro exI [of _ q]) (simp add: run_simps progress_run)
qed

lemma sig_handler_quiet:
  assumes "script s = []"
  shows "sig_handler s = Fin () (s\<lparr>ker := (ker s)\<lparr>clock := clock (ker s) + 10 * int (sc_zombies s)\<rparr>, sc_zombies := 0\<rparr>)"
proof -
  have "script s = [] \<Longrightarrow> reap n (s\<lparr>sc_zombies := n\<rparr>) =
      Fin () (s\<lparr>ker := (ker s)\<lparr>clock := clock (ker s) + 10 * int n\<rparr>, sc_zombies := 0\<rparr>)" for n and s :: "'a sys_os_scheme"
  proof (induction n arbitrary: s)
    case (Suc n)
    let ?t = "s\<lparr>ker := (ker s)\<lparr>clock := clock (ker s) + 10\<rparr>\<rparr>"
    have "reap n (s\<lparr>sc_zombies := n, ker := ker ?t\<rparr>) = reap n (?t\<lparr>sc_zombies := n\<rparr>)"
      by (rule arg_cong [where f = "reap n"]) simp
    also have "\<dots> = Fin () (?t\<lparr>ker := (ker ?t)\<lparr>clock := clock (ker ?t) + 10 * int n\<rparr>, sc_zombies := 0\<rparr>)"
      using Suc.prems by (intro Suc.IH) simp
    finally have "reap n (s\<lparr>sc_zombies := n, ker := ker ?t\<rparr>) =
      Fin () (?t\<lparr>ker := (ker ?t)\<lparr>clock := clock (ker ?t) + 10 * int n\<rparr>, sc_zombies := 0\<rparr>)" .
    with Suc.prems show ?case by (simp add: run_simps sleep_def interact_def algebra_simps)
  qed (simp add: run_simps)
  from this [of s "sc_zombies s"] assms show ?thesis by (simp add: sig_handler_def run_simps)
qed

lemma fork_finish_quiet:
  assumes "script s = []" and "shm_ready p s" and "unat (sc_forked s) \<le> length (shm_cells p s)" and "unat (sc_forked s) \<le> 2 ^ 16"
    and "\<forall>j < unat (sc_forked s). shm_cells p s ! j \<noteq> 0" and "pr_target s (- int (sc_pgrp s))" and "sc_pgrp s \<noteq> 1"
  shows "\<exists>q. fork_finish p r s = Fin (sc_forked s, r)
    (s\<lparr>ker := (ker s)\<lparr>clock := clock (ker s) + (1 + 10 * int (sc_zombies s))\<rparr>, pr_sent := pr_sent s @ [(- int (sc_pgrp s), SIGCHLD)],
      sc_zombies := 0, sc_forked := 0, out := q\<rparr>)"
proof -
  obtain q where "verify p (unat (sc_forked s)) 0 s = Fin True (s\<lparr>out := q\<rparr>)" using verify_set [of p s 0] assms(2-5) by auto
  then show ?thesis
    using assms(1,6,7)
    by (intro exI [of _ "q @ [(''...Done'' @ [NL], []), (CHR 0x0D # ''X '' @ branch @ '' '' @ pad_left 10 ''Killing'' @ '' [%12lu/%-22lu]'',
        [uint (sc_forked s), uint (sc_forked s)]), (''...Done'' @ [NL], [])]"]) (simp add: fork_finish_def chk_fork_cleanup_def run_simps sleep_def interact_def kill_def syscall_def progress_run printf_run
        sig_handler_quiet algebra_simps)
qed

lemma do_fork_all:
  assumes f: "pr_forks s = map Parent_of qs @ No_process EAGAIN # fs" "\<forall>q \<in> set qs. 0 < q \<and> q < 2 ^ 31"
    and n: "length qs \<le> unat lmt" "length qs \<le> length (shm_cells p s)" "length qs \<le> 2 ^ 16" "sc_forked s = 0"
    and p: "still 0 s" "shm_ready p s" "removable p s" "script s = []" "pr_target s (- int (sc_pgrp s))" "sc_pgrp s \<noteq> 1"
  shows "\<exists>t. do_fork (Suc (length (pr_forks s))) p lmt th r s = Fin (word_of_nat (length qs), STR_EAGAIN) t \<and> sc_forked t = 0 \<and>
    shm_ready p t \<and> removable p t \<and> pr_sent t = pr_sent s @ [(- int (sc_pgrp s), SIGCHLD)] \<and> sc_msgs t = sc_msgs s \<and>
    clock (ker t) = clock (ker s) + (1 + 10 * int (sc_zombies s)) \<and> mallocs t = mallocs s \<and> sc_millitm t = sc_millitm s"
proof -
  have len: "Suc (length (pr_forks s)) = length qs + Suc (Suc (length fs))" using f by simp
  obtain t where t: "do_fork (length qs + Suc (Suc (length fs))) p lmt th r s = do_fork (Suc (Suc (length fs))) p lmt th r t"
    "pr_forks t = No_process EAGAIN # fs" "sc_forked t = word_of_nat (length qs)" "shm_ready p t" "removable p t" "same_rest s t"
    "shm_cells p t = map word_of_nat qs @ drop (length qs) (shm_cells p s)"
    using fork_turns [of s qs "No_process EAGAIN # fs" lmt p "Suc (Suc (length fs))" th r] f n p by auto
  let ?u = "t\<lparr>pr_forks := fs, err := EAGAIN, out := out t @ [([NL], [])]\<rparr>"
  have u: "shm_ready p ?u" "shm_cells p ?u = shm_cells p t" "removable p ?u"
    using t(4,5) shm_frame_cong [of ?u t p] removable_cong [of ?u t p] by simp_all
  have k: "unat (sc_forked ?u) = length qs" using n(3) t(3) by (simp add: of_nat_u64)
  have rest: "script ?u = []" "pr_target ?u (- int (sc_pgrp ?u))" "sc_pgrp ?u \<noteq> 1" using t(6) p by (simp_all add: same_rest_def)
  have "word_of_nat q \<noteq> (0 :: u32)" if "q \<in> set qs" for q
  proof -
    have "0 < q" "q < 2 ^ 32" using that f(2) by force+
    then show ?thesis by (simp add: word_unat_eq_iff unsigned_of_nat take_bit_nat_eq_self)
  qed
  then have "\<forall>j < unat (sc_forked ?u). shm_cells p ?u ! j \<noteq> 0"
    unfolding k u(2) t(7) by (auto simp: nth_append)
  with u rest have "\<exists>q. fork_finish p STR_EAGAIN ?u = Fin (sc_forked ?u, STR_EAGAIN)
    (?u\<lparr>ker := (ker ?u)\<lparr>clock := clock (ker ?u) + (1 + 10 * int (sc_zombies ?u))\<rparr>,
      pr_sent := pr_sent ?u @ [(- int (sc_pgrp ?u), SIGCHLD)], sc_zombies := 0, sc_forked := 0, out := q\<rparr>)"
    using k n t(7) by (intro fork_finish_quiet) simp_all
  then obtain q where fin: "fork_finish p STR_EAGAIN ?u = Fin (sc_forked ?u, STR_EAGAIN)
    (?u\<lparr>ker := (ker ?u)\<lparr>clock := clock (ker ?u) + (1 + 10 * int (sc_zombies ?u))\<rparr>,
      pr_sent := pr_sent ?u @ [(- int (sc_pgrp ?u), SIGCHLD)], sc_zombies := 0, sc_forked := 0, out := q\<rparr>)"
    (is "_ = Fin _ ?v") ..
  have "do_fork (Suc (Suc (length fs))) p lmt th r t = fork_finish p STR_EAGAIN ?u"
    using t(2) by (simp add: fork_def fails_def run_simps printf_run)
  moreover have "shm_ready p ?v" "removable p ?v"
    using u shm_clock(1) [where this = p and s = ?u] shm_frame_cong(1) [of ?v "?u\<lparr>ker := (ker ?u)\<lparr>clock := clock (ker ?u) + (1 + 10 * int (sc_zombies ?u))\<rparr>\<rparr>" p]
      removable_cong [of ?v ?u p] by simp_all
  ultimately show ?thesis
    using len t(1,3,6) fin by (intro exI [of _ ?v]) (simp add: same_rest_def)
qed


section \<open>Witnesses\<close>

text \<open>A process on the empty kernel, with limits of 64 and 128 for everything.\<close>

definition sys_boot :: "fork_answer list \<Rightarrow> (errno + int) list \<Rightarrow> bool list \<Rightarrow> nat list \<Rightarrow> u64 \<Rightarrow> sys_os" where
  "sys_boot forks opens allocs ticks c0 = os.extend boot_os
     \<lparr>pr_forks = forks, pr_waits = [], pr_naps = [], pr_target = (\<lambda>i. i = - 100), pr_sent = [], pr_blocked = False,
      pr_jump_unblocks = False, pr_ignored = [], pr_fds = (\<lambda>_. False), pr_fd_limit = Some 1024, pr_exec = None,
      sc_forked = 0, sc_t_last = 0, sc_counter_last = c0, sc_msgs = [], sc_ticks = ticks, sc_millitm = 7, sc_opens = opens,
      sc_open = [0, 1, 2], sc_allocs = allocs, sc_live = 0, sc_limits = (\<lambda>_. (64, 128)), sc_set_ok = [], sc_proc = (\<lambda>_. Some (Some 2)),
      sc_files = (\<lambda>_. Some (0, [''''])), sc_resizes = [], sc_fresh = (\<lambda>_. NUL), sc_buffer = False, sc_saveptr = [], sc_prio = 0, sc_prio_ok = True, sc_pgrp = 100, sc_zombies = 0,
      sc_table = [], sc_la = Some ''0.42'', sc_float = (\<lambda>q. q), sc_double = (\<lambda>q. q)\<rparr>"

lemma sys_boot_os:
  "script (sys_boot f r a ts c0) = []" "mallocs (sys_boot f r a ts c0) = []" "clock (ker (sys_boot f r a ts c0)) = 1000"
  "sc_ticks (sys_boot f r a ts c0) = ts" "sc_limits (sys_boot f r a ts c0) q = (64, 128)" "sc_counter_last (sys_boot f r a ts c0) = c0"
  "sc_open (sys_boot f r a ts c0) = [0, 1, 2]" "sc_opens (sys_boot f r a ts c0) = r" "sc_allocs (sys_boot f r a ts c0) = a"
  "pr_forks (sys_boot f r a ts c0) = f" "sc_pgrp (sys_boot f r a ts c0) = 100" "sc_forked (sys_boot f r a ts c0) = 0"
  "sc_set_ok (sys_boot f r a ts c0) = []" "sc_msgs (sys_boot f r a ts c0) = []" "sc_millitm (sys_boot f r a ts c0) = 7"
  "pr_target (sys_boot f r a ts c0) i = (i = - 100)" "pr_sent (sys_boot f r a ts c0) = []" "sc_live (sys_boot f r a ts c0) = 0"
  by (simp_all add: sys_boot_def os.defs boot_os_def boot_ipc_def)

lemma sys_main_wf_witness: "wf_os (final (sys_main (sys_boot [Parent_of 7, Child 8] [Inr 3, Inl EMFILE] [True] [1, 9] 0)))"
  by (rule sys_main_wf) (use wf_boot in \<open>simp add: sys_boot_def os.defs wf_os_def boot_os_def\<close>)

lemma setrlim_lowers_witness:
  "\<exists>t. setrlim R_NOFILE 50 (sys_boot [] [] [] [] 0) = Fin () t \<and> sc_limits t R_NOFILE = (50, 50)"
proof -
  obtain t where "setrlim R_NOFILE 50 (sys_boot [] [] [] [] 0) = Fin () t" "fst (sc_limits t R_NOFILE) = 50"
    "snd (sc_limits t R_NOFILE) = 50"
    using setrlim_lowers [of "sys_boot [] [] [] [] 0" 50 R_NOFILE] by (auto simp: sys_boot_os min_def)
  then show ?thesis by (metis prod.collapse)
qed

lemma performance_wraps_witness:
  "\<exists>t. bindr (performance 0 1) (\<lambda>_. performance 3000 1) (sys_boot [] [] [] [0, 0, 6] 42000) = Fin (to_int ((2 ^ 64 - 39000) div 6)) t"
  using performance_wraps [of "sys_boot [] [] [] [0, 0, 6] 42000" 0 0 6 3000 1] by (simp add: sys_boot_os)

lemma chk_open_exact_witness:
  "\<exists>t. chk_open 7000 (sys_boot [] [Inr 3, Inr 4, Inl EMFILE] [] [] 0) = Fin 1 t \<and> sc_open t = [0, 1, 2] \<and>
     map msg_reach (sc_msgs t) = [3] \<and> map msg_reason (sc_msgs t) = [STR_EMFILE]"
  using chk_open_exact [of "sys_boot [] [Inr 3, Inr 4, Inl EMFILE] [] [] 0" "[3, 4]" EMFILE "[]" 7000]
  by (auto simp: sys_boot_os open_reason_def)

lemma chk_open_leaks_witness:
  "5 \<in> set (sc_open (final (open_turns 64 7000 (Inr 5 # [Inl EMFILE]) 2 (\<lambda>_. 3) ((sys_boot [] [] [] [6] 0)\<lparr>sc_t_last := 1000\<rparr>))))"
  by (rule chk_open_leaks [where p = 0 and u = "(sys_boot [] [] [] [] 2)\<lparr>sc_t_last := 1006, sc_open := [0, 1, 2, 5],
      ker := boot_ipc\<lparr>clock := 1006\<rparr>, out := [(CHR 0x0D # ''X '' @ branch @ '' '' @ pad_left 10 ''Opening'' @
        '' [%12lu/%-22lu]'', [2, 64])]\<rparr>"])
    (simp_all add: progress_run performance_def time_call_def run_simps sys_boot_def os.defs boot_os_def boot_ipc_def to_int_def)

lemma chk_calloc_exact_witness:
  "\<exists>t. chk_calloc CALLOC_SIZE 100 (sys_boot [] [] (replicate 70 True @ [False]) [] 0) = Fin 0 t \<and> sc_live t = 0 \<and>
     map msg_reach (sc_msgs t) = [2]"
  using chk_calloc_exact [of "sys_boot [] [] (replicate 70 True @ [False]) [] 0" 70 "[]" 100] by (auto simp: sys_boot_os)

lemma chk_calloc_overruns_witness:
  "\<exists>t. chk_calloc CALLOC_SIZE 100 (sys_boot [] [] (replicate (2 ^ 20) True @ []) [] 0) = Stop Undefined t"
  by (rule chk_calloc_overruns) (simp_all add: sys_boot_os)


end
