(* ===== verification/Syschk_Lines.thy ===== *)
theory Syschk_Lines
  imports Syschk_Props
begin

text \<open>
  How \<open>syschk\<close> reads \<open>/proc/meminfo\<close> by lines: what \<open>strtok_r\<close> finds in a buffer, the limit of memory that follows
  from the sizes in the file, and what happens when no null character ends the buffer.
\<close>

section \<open>Lines of a text\<close>

primrec split_lines :: "string \<Rightarrow> string list" where
  "split_lines [] = [[]]"
| "split_lines (c # cs) =
     (if c = NL then [] # split_lines cs
      else case split_lines cs of [] \<Rightarrow> [[c]] | l # ls \<Rightarrow> (c # l) # ls)"

definition text_lines :: "string \<Rightarrow> string list" where
  "text_lines cs = filter (\<lambda>l. l \<noteq> []) (split_lines cs)"

lemma split_lines_line: "NL \<notin> set l \<Longrightarrow> split_lines (l @ NL # cs) = l # split_lines cs"
  by (induction l) auto

lemma split_lines_last: "NL \<notin> set l \<Longrightarrow> split_lines l = [l]"
  by (induction l) auto

lemma text_lines_simps [simp]:
  "text_lines [] = []" "text_lines (NL # cs) = text_lines cs"
  "NL \<notin> set l \<Longrightarrow> l \<noteq> [] \<Longrightarrow> text_lines l = [l]"
  "NL \<notin> set l \<Longrightarrow> l \<noteq> [] \<Longrightarrow> text_lines (l @ NL # cs) = l # text_lines cs"
  by (simp_all add: text_lines_def split_lines_line split_lines_last)

lemma text_lines_concat:
  "(\<And>l. l \<in> set ls \<Longrightarrow> NL \<notin> set l \<and> l \<noteq> []) \<Longrightarrow> text_lines (concat (map (\<lambda>l. l @ [NL]) ls)) = ls"
  by (induction ls) auto

section \<open>Tokens\<close>

lemma strtok_NL [simp]: "strtok (NL # cs) = strtok cs"
  by (simp add: strtok_def)

text \<open>A line, or what is left of one, at the start of a buffer.\<close>

lemma take_line: "takeWhile P (l @ xs) = l @ takeWhile P xs" if "\<And>c. c \<in> set l \<Longrightarrow> P c"
  using that by (induction l) auto

lemma strtok_line:
  assumes "NL \<notin> set l" and "NUL \<notin> set l" and "l \<noteq> []"
  shows "strtok (l @ NL # cs) = Some (Some l, cs)" "strtok (l @ NUL # cs) = Some (Some l, NUL # cs)" "strtok l = None"
proof -
  obtain c l' where l: "l = c # l'" using assms(3) by (cases l) auto
  have P: "d \<noteq> NL \<and> d \<noteq> NUL" if "d \<in> set l" for d using that assms(1,2) by auto
  have ne: "NL \<noteq> NUL" by (simp add: NL_def NUL_def)
  have tw: "takeWhile (\<lambda>c. c \<noteq> NL \<and> c \<noteq> NUL) (l @ cs) = l @ takeWhile (\<lambda>c. c \<noteq> NL \<and> c \<noteq> NUL) cs" for cs
    by (rule take_line) (rule P)
  have c: "c \<noteq> NL" "c \<noteq> NUL" using P [of c] l by auto
  show "strtok (l @ NL # cs) = Some (Some l, cs)" using c tw [of "NL # cs"] ne by (simp add: strtok_def l)
  show "strtok (l @ NUL # cs) = Some (Some l, NUL # cs)" using c tw [of "NUL # cs"] by (simp add: strtok_def l)
  show "strtok l = None"
    using c P l by (simp add: strtok_def takeWhile_eq_all_conv [THEN iffD2])
qed

text \<open>The text starts with line breaks, ends, or starts with a line.\<close>

lemma text_cases:
  obtains "cs = []" | t where "cs = NL # t" | l where "cs = l" "NL \<notin> set l" "l \<noteq> []"
  | l t where "cs = l @ NL # t" "NL \<notin> set l" "l \<noteq> []"
proof (cases "NL \<in> set cs")
  case True
  then obtain l t where "cs = l @ NL # t" "NL \<notin> set l" by (meson split_list_first)
  then show ?thesis using that(2) [of t] that(4) [of l t] by (cases "l = []") auto
next
  case False
  then show ?thesis using that(1,3) by (cases cs) auto
qed

lemma strtok_text:
  "NUL \<notin> set cs \<Longrightarrow> text_lines cs = [] \<and> strtok (cs @ NUL # z) = Some (None, NUL # z) \<or>
    (\<exists>l t. text_lines cs = l # text_lines t \<and> strtok (cs @ NUL # z) = Some (Some l, t @ NUL # z) \<and>
       NUL \<notin> set t \<and> length t < length cs)"
proof (induction "length cs" arbitrary: cs rule: less_induct)
  case less
  show ?case
  proof (cases rule: text_cases [of cs])
    case 1
    then show ?thesis by (simp add: strtok_def NL_def NUL_def)
  next
    case (2 t)
    with less.hyps [of t] less.prems show ?thesis by (auto intro: less_SucI)
  next
    case (3 l)
    with less.prems strtok_line(2) [of l z] show ?thesis
      by (intro disjI2 exI [of _ l] exI [of _ "[]"]) auto
  next
    case (4 l t)
    with less.prems strtok_line(1) [of l "t @ NUL # z"] show ?thesis
      by (intro disjI2 exI [of _ l] exI [of _ t]) auto
  qed
qed

lemma strtok_unterminated:
  "NUL \<notin> set cs \<Longrightarrow> strtok cs = None \<or> (\<exists>l t. strtok cs = Some (Some l, t) \<and> NUL \<notin> set t \<and> length t < length cs)"
proof (induction "length cs" arbitrary: cs rule: less_induct)
  case less
  show ?case
  proof (cases rule: text_cases [of cs])
    case 1
    then show ?thesis by (simp add: strtok_def)
  next
    case (2 t)
    with less.hyps [of t] less.prems show ?thesis by (auto intro: less_SucI)
  next
    case (3 l)
    with less.prems strtok_line(3) [of l] show ?thesis by auto
  next
    case (4 l t)
    with less.prems strtok_line(1) [of l t] show ?thesis by auto
  qed
qed

section \<open>The loop over the lines\<close>

lemma read_held:
  "sc_buffer s \<Longrightarrow> read_file_lines q s = (case strtok (sc_saveptr s) of None \<Rightarrow> Stop Undefined s
    | Some (tok, r) \<Rightarrow> Fin tok (s\<lparr>sc_buffer := (tok \<noteq> None), sc_saveptr := r\<rparr>))"
  by (auto simp: read_file_lines_def run_simps split: option.split)

lemma read_first:
  assumes "\<not> sc_buffer s" and "load_file q s = Fin (Some r) s" and "strtok r \<noteq> None"
  shows "read_file_lines q s = read_file_lines q (s\<lparr>sc_buffer := True, sc_saveptr := r\<rparr>)"
  using assms by (auto simp: read_file_lines_def run_simps split: option.split)

lemma load_small:
  assumes "mallocs s = []" and "sc_files s q = Some (0, content # chunks)" and "length content < BUFSIZ"
  shows "load_file q s = Fin (Some (content @ map (sc_fresh s) [length content..<BUFSIZ])) s"
  using assms by (simp add: load_file_def run_simps malloc_def read_into_def Let_def drop_map)

lemma held_lines:
  "sc_buffer s \<Longrightarrow> sc_saveptr s = cs @ NUL # z \<Longrightarrow> NUL \<notin> set cs \<Longrightarrow> length (text_lines cs) < n \<Longrightarrow>
    meminfo_lines n sizes s = Fin (fold meminfo_line (text_lines cs) sizes) (s\<lparr>sc_buffer := False, sc_saveptr := NUL # z\<rparr>)"
proof (induction n arbitrary: cs sizes s)
  case (Suc n)
  from strtok_text [OF Suc.prems(3), of z] show ?case
  proof (elim disjE conjE exE)
    assume "text_lines cs = []" "strtok (cs @ NUL # z) = Some (None, NUL # z)"
    with Suc.prems show ?thesis by (simp add: run_simps read_held)
  next
    fix l t assume *: "text_lines cs = l # text_lines t" "strtok (cs @ NUL # z) = Some (Some l, t @ NUL # z)" "NUL \<notin> set t"
    let ?s = "s\<lparr>sc_buffer := True, sc_saveptr := t @ NUL # z\<rparr>"
    have "meminfo_lines n (meminfo_line l sizes) ?s = Fin (fold meminfo_line (text_lines t) (meminfo_line l sizes))
        (?s\<lparr>sc_buffer := False, sc_saveptr := NUL # z\<rparr>)"
      using * Suc.prems(4) by (intro Suc.IH) auto
    with * Suc.prems(1,2) show ?thesis by (simp add: run_simps read_held)
  qed
qed simp

lemma few_lines: "length (text_lines cs) \<le> length cs"
proof (induction "length cs" arbitrary: cs rule: less_induct)
  case less
  show ?case
  proof (cases rule: text_cases [of cs])
    case (2 t)
    with less.hyps [of t] show ?thesis by simp
  next
    case (4 l t)
    with less.hyps [of t] show ?thesis by simp
  qed (auto simp: Suc_leI)
qed

text \<open>The loop sees the lines of the file, one after the other, when a null character follows them in the buffer.\<close>

lemma meminfo_lines_exact:
  assumes "\<not> sc_buffer s" and "mallocs s = []" and "sc_files s ''/proc/meminfo'' = Some (0, content # chunks)"
    and "length content < BUFSIZ" and "NUL \<notin> set content" and "sc_fresh s (length content) = NUL"
  shows "\<exists>r. meminfo_lines (Suc (Suc (buffer_room s))) sizes s =
    Fin (fold meminfo_line (text_lines content) sizes) (s\<lparr>sc_buffer := False, sc_saveptr := r\<rparr>)"
proof -
  let ?z = "map (sc_fresh s) [Suc (length content)..<BUFSIZ]"
  let ?s = "s\<lparr>sc_buffer := True, sc_saveptr := content @ NUL # ?z\<rparr>"
  have "load_file ''/proc/meminfo'' s = Fin (Some (content @ NUL # ?z)) s"
    using load_small [OF assms(2-4)] assms(4,6) by (simp add: upt_conv_Cons)
  moreover have "strtok (content @ NUL # ?z) \<noteq> None" using strtok_text [OF assms(5), of ?z] by auto
  ultimately have "read_file_lines ''/proc/meminfo'' s = read_file_lines ''/proc/meminfo'' ?s"
    by (rule read_first [OF assms(1)])
  then have "meminfo_lines (Suc (Suc (buffer_room s))) sizes s = meminfo_lines (Suc (Suc (buffer_room s))) sizes ?s"
    by (simp add: run_simps)
  also have "\<dots> = Fin (fold meminfo_line (text_lines content) sizes) (?s\<lparr>sc_buffer := False, sc_saveptr := NUL # ?z\<rparr>)"
    using assms(4,5) few_lines [of content] by (intro held_lines) (auto simp: buffer_room_def)
  finally show ?thesis by auto
qed

text \<open>Without a null character the last token runs past the end of the buffer.\<close>

lemma held_unterminated:
  "sc_buffer s \<Longrightarrow> sc_saveptr s = cs \<Longrightarrow> NUL \<notin> set cs \<Longrightarrow> length cs < n \<Longrightarrow>
    \<exists>t. meminfo_lines n sizes s = Stop Undefined t"
proof (induction n arbitrary: cs sizes s)
  case (Suc n)
  from strtok_unterminated [OF Suc.prems(3)] show ?case
  proof (elim disjE conjE exE)
    assume "strtok cs = None"
    with Suc.prems show ?thesis by (simp add: run_simps read_held)
  next
    fix l t assume *: "strtok cs = Some (Some l, t)" "NUL \<notin> set t" "length t < length cs"
    let ?s = "s\<lparr>sc_buffer := True, sc_saveptr := t\<rparr>"
    have "\<exists>u. meminfo_lines n (meminfo_line l sizes) ?s = Stop Undefined u"
      using * Suc.prems(4) by (intro Suc.IH) auto
    with * Suc.prems(1,2) show ?thesis by (simp add: run_simps read_held)
  qed
qed simp

section \<open>The limit of memory\<close>

text \<open>The two lines of \<open>/proc/meminfo\<close> that count.\<close>

definition mem_line :: "nat \<Rightarrow> nat \<Rightarrow> string" where
  "mem_line a n = ''MemTotal:'' @ replicate a (CHR '' '') @ decimal n @ '' kB''"

definition swap_line :: "nat \<Rightarrow> nat \<Rightarrow> string" where
  "swap_line a n = ''SwapTotal:'' @ replicate a (CHR '' '') @ decimal n @ '' kB''"

lemma contains_set: "contains w cs \<Longrightarrow> set w \<subseteq> set cs"
  unfolding contains_def list_ex_iff by (metis dual_order.trans set_drop_subset set_take_subset)

lemma contains_start: "contains w (w @ cs)"
  unfolding contains_def list_ex_iff by (rule bexI [of _ 0]) simp_all

lemma decimal_start: "\<exists>d ds. decimal n = d # ds \<and> is_digit d"
  using decimal_nonempty [of n] decimal_digits [of "hd (decimal n)" n] by (cases "decimal n") auto

lemma scan_sized:
  assumes "n < 2 ^ 64"
  shows "scan_number (replicate a (CHR '' '') @ decimal n @ '' kB'') old = word_of_nat n"
proof -
  obtain d ds where d: "decimal n = d # ds" "is_digit d" using decimal_start by blast
  have sp: "is_space (CHR '' '')" by (simp add: is_space_def code_of_def)
  have drop: "dropWhile is_space (replicate a (CHR '' '') @ xs) = dropWhile is_space xs" for xs
    using sp by (induction a) simp_all
  have r: "dropWhile is_space (replicate a (CHR '' '') @ d # ds @ '' kB'') = d # ds @ '' kB''"
    using digit_not_special [OF d(2)] unfolding drop by simp
  have "digits_value 0 (decimal n @ '' kB'') = int n"
    by (subst digits_value_append) (simp_all add: decimal_digits digits_value_decimal, simp add: is_digit_def code_of_def)
  then have v: "digits_value 0 (d # ds @ '' kB'') = int n" by (simp only: d(1) append_Cons)
  have "int n < 2 ^ 64" using assms by simp
  with v d(2) digit_not_special [OF d(2)] show ?thesis
    unfolding scan_number_def d(1) append_Cons r Let_def by (simp del: digits_value.simps)
qed

lemma size_chars: "c \<in> set (decimal n) \<Longrightarrow> c \<noteq> CHR ''M'' \<and> c \<noteq> NL \<and> c \<noteq> NUL"
  using decimal_digits [of c n] by (auto simp: is_digit_def code_of_def NL_def NUL_def)

lemma size_lines:
  "n < 2 ^ 64 \<Longrightarrow> meminfo_line (mem_line a n) (x, y) = (word_of_nat n * KILO, y)"
  "n < 2 ^ 64 \<Longrightarrow> meminfo_line (swap_line a n) (x, y) = (x, word_of_nat n * KILO)"
proof -
  have "\<not> contains ''MemTotal:'' (swap_line a n)"
  proof
    assume "contains ''MemTotal:'' (swap_line a n)"
    from contains_set [OF this] size_chars [of "CHR ''M''" n] show False by (auto simp: swap_line_def)
  qed
  moreover have "contains ''MemTotal:'' (mem_line a n)" "contains ''SwapTotal:'' (swap_line a n)"
    unfolding mem_line_def swap_line_def by (rule contains_start)+
  moreover have "drop 9 (mem_line a n) = replicate a (CHR '' '') @ decimal n @ '' kB''"
    "drop 10 (swap_line a n) = replicate a (CHR '' '') @ decimal n @ '' kB''"
    by (simp_all add: mem_line_def swap_line_def)
  ultimately show "n < 2 ^ 64 \<Longrightarrow> meminfo_line (mem_line a n) (x, y) = (word_of_nat n * KILO, y)"
    "n < 2 ^ 64 \<Longrightarrow> meminfo_line (swap_line a n) (x, y) = (x, word_of_nat n * KILO)"
    by (simp_all add: scan_sized)
qed

lemma other_lines:
  "(\<And>l. l \<in> set ls \<Longrightarrow> \<not> contains ''MemTotal:'' l \<and> \<not> contains ''SwapTotal:'' l) \<Longrightarrow> fold meminfo_line ls z = z"
  by (induction ls; cases z) simp_all

text \<open>A line of the file: not empty, and without the characters that end a line or a string.\<close>

definition plain_line :: "string \<Rightarrow> bool" where
  "plain_line l \<longleftrightarrow> l \<noteq> [] \<and> NL \<notin> set l \<and> NUL \<notin> set l"

lemma plain_size_lines: "plain_line (mem_line a n)" "plain_line (swap_line a n)"
  using size_chars by (auto simp: plain_line_def mem_line_def swap_line_def NL_def NUL_def)

definition file_of :: "string list \<Rightarrow> string" where
  "file_of ls = concat (map (\<lambda>l. l @ [NL]) ls)"

lemma file_of_lines: "(\<And>l. l \<in> set ls \<Longrightarrow> plain_line l) \<Longrightarrow> text_lines (file_of ls) = ls \<and> NUL \<notin> set (file_of ls)"
  using text_lines_concat [of ls] by (auto simp: file_of_def plain_line_def NL_def NUL_def)

lemma word_limit:
  assumes "m * 1024 * r + w * 1024 < 2 ^ 64"
  shows "word_of_nat w * KILO + word_of_nat m * KILO * word_of_int (int r) div 100 =
    (word_of_nat (w * 1024 + m * 1024 * r div 100) :: u64)"
proof -
  have K: "KILO = word_of_nat 1024" by (simp add: KILO_def push_bit_eq_mult)
  have div: "(word_of_nat x div 100 :: u64) = word_of_nat (x div 100)" if "x < 2 ^ 64" for x
  proof -
    have "unat (word_of_nat x :: u64) = x" using that by (simp add: unat_of_nat take_bit_nat_eq_self)
    then have "unat (word_of_nat x div 100 :: u64) = x div 100" by (simp add: unat_div_distrib)
    then show ?thesis by (metis of_nat_unat ucast_id)
  qed
  have "word_of_nat w * KILO + word_of_nat m * KILO * word_of_int (int r) div 100 =
      (word_of_nat (w * 1024) + word_of_nat (m * 1024 * r) div 100 :: u64)"
    by (simp add: K ac_simps)
  also have "\<dots> = word_of_nat (w * 1024 + m * 1024 * r div 100)"
    using assms by (subst div) simp_all
  finally show ?thesis .
qed

lemma setrlim_limit:
  assumes "sc_set_ok s = []"
  shows "\<exists>t. setrlim r l s = Fin () t \<and>
    fst (sc_limits t r) = (if l = 0 then fst (sc_limits s r) else min (fst (sc_limits s r)) l)"
  using assms
  by (cases "sc_limits s r")
    (auto simp: setrlim_def getrlimit_def setrlimit_def run_simps min_def msg_note_def printf_run word_gt_0 split: if_splits)

section \<open>Properties\<close>



end
