(* ===== verification/Syschk_Output.thy ===== *)
theory Syschk_Output
  imports Syschk_Props
begin

text \<open>
  What \<open>syschk\<close> prints: a title fills a line of 80 characters with the load average at its end, and the table rates
  every result by how much of its limit was reached.
\<close>

section \<open>Titles\<close>

definition title_line :: "string \<Rightarrow> string \<Rightarrow> string" where
  "title_line tx la = take 69 tx @ replicate (70 - min 69 (length tx)) CHR '' '' @ take 10 (''LA:'' @ pad_left 7 la)"

lemma length_title: "length (title_line tx la) = 80"
  by (simp add: title_line_def pad_left_def)

lemma strlen_NUL: "NUL \<notin> set xs \<Longrightarrow> strlen (xs @ NUL # ys) = length xs"
proof -
  assume "NUL \<notin> set xs"
  then have "takeWhile (\<lambda>c. c \<noteq> NUL) (xs @ NUL # ys) = xs @ takeWhile (\<lambda>c. c \<noteq> NUL) (NUL # ys)"
    by (intro takeWhile_append2) auto
  then show ?thesis by (simp add: strlen_def)
qed

lemma title_chars: "NUL \<notin> set tx \<Longrightarrow> NUL \<notin> set la \<Longrightarrow> NUL \<notin> set (title_line tx la)"
  by (auto simp: title_line_def pad_left_def NUL_def dest!: in_set_takeD)

lemma overwrite_part: "length xs = off \<Longrightarrow> length bs = length ys \<Longrightarrow> overwrite off bs (xs @ ys @ zs) = xs @ bs @ zs"
  by (simp add: overwrite_def)

lemma full_buffer_title:
  assumes "length fresh = 82" and "NUL \<notin> set tx"
  shows "full_buffer fresh tx la = title_line tx la @ [NUL, NUL]"
proof -
  let ?k = "min 69 (length tx)" and ?tx = "take 69 tx"
  let ?la = "take 10 (''LA:'' @ pad_left 7 la)"
  obtain r0 r1 where r: "drop 80 fresh = [r0, r1]"
    using assms(1) by (cases "drop 80 fresh" rule: list.exhaust; cases "tl (drop 80 fresh)") (auto dest!: arg_cong [where f = length])
  have "overwrite 0 (replicate 80 CHR '' '') fresh = replicate 80 CHR '' '' @ [r0, r1]"
    by (simp add: overwrite_def r)
  then have "snprintf_at 0 70 tx (overwrite 0 (replicate 80 CHR '' '') fresh) = ?tx @ NUL # replicate (79 - ?k) CHR '' '' @ [r0, r1]"
    by (simp add: snprintf_at_def overwrite_def min_def)
  moreover have "strlen (?tx @ NUL # replicate (79 - ?k) CHR '' '' @ [r0, r1]) = length ?tx"
    using assms(2) by (intro strlen_NUL) (auto dest: in_set_takeD)
  ultimately have "full_buffer fresh tx la =
      (snprintf_at 70 11 (''LA:'' @ pad_left 7 la) (?tx @ CHR '' '' # replicate (79 - ?k) CHR '' '' @ [r0, r1]))[81 := NUL]"
    by (simp add: full_buffer_def Let_def list_update_append)
  moreover have "?tx @ CHR '' '' # replicate (79 - ?k) CHR '' '' @ [r0, r1] = (?tx @ replicate (70 - ?k) CHR '' '') @ replicate 10 CHR '' '' @ [r0, r1]"
  proof -
    have "Suc (79 - ?k) = (70 - ?k) + 10" by simp
    then show ?thesis by (metis append_Cons append_assoc replicate_Suc replicate_add)
  qed
  moreover have la: "(snprintf_at 70 11 (''LA:'' @ pad_left 7 la) (xs @ replicate 10 CHR '' '' @ [r0, r1]))[81 := NUL] =
      xs @ ?la @ [NUL, NUL]" if "length xs = 70" for xs
  proof -
    have la: "length ?la = 10" by (simp add: pad_left_def)
    have "overwrite 70 (?la @ [NUL]) (xs @ (replicate 10 CHR '' '' @ [r0]) @ [r1]) = xs @ (?la @ [NUL]) @ [r1]"
      by (rule overwrite_part) (use that la in simp_all)
    moreover have "(xs @ (?la @ [NUL]) @ [r1])[81 := NUL] = xs @ ?la @ [NUL, NUL]"
      using that la by (simp add: list_update_append del: take_append)
    ultimately show ?thesis by (simp add: snprintf_at_def)
  qed
  ultimately show ?thesis using la [of "?tx @ replicate (70 - ?k) CHR '' ''"] by (simp add: title_line_def)
qed

text \<open>
  C25: titles. Whatever the text, the load average and the old content of the buffer are, a title is a line of exactly 80
  characters: the text cut to 69 characters, spaces, and the load average in the last ten columns; so the
  assertion about its length never fails. Without a load average to read, the program uses a null pointer.
\<close>

theorem title_exact:
  assumes "NUL \<notin> set tx"
  shows "case sc_la s of
     None \<Rightarrow> msg_full ty tx s = Stop Undefined s
   | Some la \<Rightarrow> NUL \<notin> set la \<longrightarrow> length (title_line tx la) = 80 \<and>
       msg_full ty tx s = Fin () (s\<lparr>out := out s @ [(msg_coloured ty (title_line tx la), [])]\<rparr>)"
proof (cases "sc_la s")
  case None
  then show ?thesis by (simp add: msg_full_def get_la_def run_simps)
next
  case (Some la)
  have "strlen (title_line tx la @ [NUL, NUL]) = 80" if "NUL \<notin> set la"
    using strlen_NUL [OF title_chars [OF assms that], of "[NUL]"] by (simp add: length_title)
  with Some show ?thesis
    by (simp add: msg_full_def get_la_def run_simps full_buffer_title [OF _ assms] printf_def length_title)
qed

lemma title_exact_witness:
  "\<exists>t. msg_full M_TITL ''OPEN'' (sys_boot [] [] [] [] 0) = Fin () t \<and>
     out t = [(msg_coloured M_TITL (''OPEN'' @ replicate 66 CHR '' '' @ ''LA:   0.42''), [])]"
proof -
  have "sc_la (sys_boot [] [] [] [] 0) = Some ''0.42''" "out (sys_boot [] [] [] [] 0) = []"
    by (simp_all add: sys_boot_def os.defs boot_os_def)
  with title_exact [where tx = "''OPEN''" and s = "sys_boot [] [] [] [] 0" and ty = M_TITL] show ?thesis
    by (simp add: NUL_def title_line_def pad_left_def numeral_3_eq_3)
qed

section \<open>The table\<close>

text \<open>The types are ordered by their numbers, so that a rating is the worse the larger it is.\<close>

instantiation msg_type :: linorder
begin

definition less_eq_msg_type :: "msg_type \<Rightarrow> msg_type \<Rightarrow> bool" where
  "less_eq_msg_type a b \<longleftrightarrow> msg_code a \<le> msg_code b"

definition less_msg_type :: "msg_type \<Rightarrow> msg_type \<Rightarrow> bool" where
  "less_msg_type a b \<longleftrightarrow> msg_code a < msg_code b"

instance
proof
  fix a b :: msg_type
  show "a \<le> b \<Longrightarrow> b \<le> a \<Longrightarrow> a = b"
    by (cases a; cases b) (simp_all add: less_eq_msg_type_def)
qed (auto simp: less_eq_msg_type_def less_msg_type_def)

end

text \<open>
  What the table relies on: \<open>float\<close> is monotone, and it holds the integers up to \<open>2 ^ 24\<close> without rounding.
\<close>

definition float_ok :: "(rat \<Rightarrow> rat) \<Rightarrow> bool" where
  "float_ok f \<longleftrightarrow> mono f \<and> (\<forall>n \<le> 2 ^ 24. f (rat_of_nat n) = rat_of_nat n)"

lemma float_ok_nat: "float_ok f \<Longrightarrow> n \<le> 2 ^ 24 \<Longrightarrow> f (rat_of_nat n) = rat_of_nat n"
  by (simp add: float_ok_def)

text \<open>Rounding does not carry a number across an integer.\<close>

lemma float_ok_cut:
  assumes "float_ok f" and "c \<le> 2 ^ 24"
  shows "f q > rat_of_nat c \<Longrightarrow> q > rat_of_nat c" and "q \<ge> rat_of_nat c \<Longrightarrow> f q \<ge> rat_of_nat c"
  using assms(1) float_ok_nat [OF assms] unfolding float_ok_def by (metis monoD leI not_less)+

definition rated :: "msg_type \<Rightarrow> nat \<Rightarrow> nat \<Rightarrow> bool" where
  "rated level r l = (case level of
     M_PASS \<Rightarrow> 7 * l < 10 * r
   | M_WARN \<Rightarrow> l < 2 * r \<and> 100 * r < 71 * l
   | M_ERRR \<Rightarrow> r = 0 \<or> 100 * r < 51 * l
   | _ \<Rightarrow> False)"

lemma quotient_above:
  assumes "0 < b"
  shows "rat_of_nat c < rat_of_nat a / rat_of_nat b \<longleftrightarrow> c * b < a" "rat_of_nat c \<le> rat_of_nat a / rat_of_nat b \<longleftrightarrow> c * b \<le> a"
proof -
  have "0 < rat_of_nat b" using assms by simp
  then show "rat_of_nat c < rat_of_nat a / rat_of_nat b \<longleftrightarrow> c * b < a" "rat_of_nat c \<le> rat_of_nat a / rat_of_nat b \<longleftrightarrow> c * b \<le> a"
    by (simp_all only: pos_less_divide_eq pos_le_divide_eq of_nat_mult [symmetric] of_nat_less_iff of_nat_le_iff)
qed

lemma score_exact:
  assumes "float_ok f" and "100 * unat r \<le> 2 ^ 24" and "unat l \<le> 2 ^ 24" and "l \<noteq> 0"
  shows "score f r l = Fl (f (rat_of_nat (100 * unat r) / rat_of_nat (unat l)))"
proof -
  have "f (rat_of_nat (unat r)) = rat_of_nat (unat r)" using assms(1,2) by (intro float_ok_nat) simp_all
  moreover have "f (rat_of_nat (100 * unat r)) = rat_of_nat (100 * unat r)" by (rule float_ok_nat [OF assms(1,2)])
  ultimately show ?thesis using assms(4) float_ok_nat [OF assms(1,3)] by (simp add: score_def)
qed

lemma row_rated:
  assumes "float_ok (sc_float s)" and "100 * unat (msg_reach m) \<le> 2 ^ 24" and "unat (msg_limit m) \<le> 2 ^ 24"
  shows "rated (row_level (dump_row m s)) (unat (msg_reach m)) (unat (msg_limit m))"
proof (cases "msg_limit m = 0")
  case True
  then show ?thesis
    by (cases "msg_reach m = 0") (auto simp: dump_row_def score_def above_def rated_def unat_gt_0)
next
  case False
  let ?f = "sc_float s" and ?r = "unat (msg_reach m)" and ?l = "unat (msg_limit m)"
  let ?q = "rat_of_nat (100 * ?r) / rat_of_nat ?l"
  have l: "0 < ?l" using False by (simp add: unat_gt_0)
  have cmp: "?q > rat_of_nat c \<longleftrightarrow> c * ?l < 100 * ?r" "?q \<ge> rat_of_nat c \<longleftrightarrow> c * ?l \<le> 100 * ?r" for c
    by (rule quotient_above [OF l])+
  have sc: "score ?f (msg_reach m) (msg_limit m) = Fl (?f ?q)" by (rule score_exact [OF assms False])
  have cut: "?f ?q > 70 \<Longrightarrow> 70 * ?l < 100 * ?r" "?f ?q > 50 \<Longrightarrow> 50 * ?l < 100 * ?r"
    "71 * ?l \<le> 100 * ?r \<Longrightarrow> ?f ?q > 70" "51 * ?l \<le> 100 * ?r \<Longrightarrow> ?f ?q > 50"
    using float_ok_cut [OF assms(1), of 70 ?q] float_ok_cut [OF assms(1), of 50 ?q]
      float_ok_cut [OF assms(1), of 71 ?q] float_ok_cut [OF assms(1), of 51 ?q] cmp [of 70] cmp [of 50] cmp [of 71] cmp [of 51]
    by simp_all
  show ?thesis
  proof (cases "?f ?q > 70")
    case True
    with cut(1) show ?thesis by (simp add: dump_row_def Let_def sc above_def rated_def)
  next
    case F70: False
    show ?thesis
    proof (cases "?f ?q > 50")
      case True
      moreover have "100 * ?r < 71 * ?l" using cut(3) F70 by linarith
      ultimately show ?thesis using F70 cut(2) by (simp add: dump_row_def Let_def sc above_def rated_def)
    next
      case False
      moreover from this have "100 * ?r < 51 * ?l" using cut(4) by linarith
      ultimately show ?thesis using F70 by (simp add: dump_row_def Let_def sc above_def rated_def)
    qed
  qed
qed

lemma better_row:
  assumes "float_ok (sc_float s)" and "msg_limit m = msg_limit m'" and "msg_reach m \<le> msg_reach m'"
  shows "row_level (dump_row m' s) \<le> row_level (dump_row m s)"
proof -
  let ?f = "sc_float s" and ?l = "msg_limit m'"
  let ?q = "\<lambda>r. ?f (?f (100 * ?f (rat_of_nat (unat r))) / ?f (rat_of_nat (unat ?l)))"
  have mono: "mono ?f" using assms(1) by (simp add: float_ok_def)
  have "above (score ?f (msg_reach m) ?l) c \<Longrightarrow> above (score ?f (msg_reach m') ?l) c" for c
  proof (cases "?l = 0")
    case True
    have "msg_reach m \<noteq> 0 \<Longrightarrow> msg_reach m' \<noteq> 0" using assms(3) by auto
    with True show "above (score ?f (msg_reach m) ?l) c \<Longrightarrow> above (score ?f (msg_reach m') ?l) c"
      by (auto simp: score_def above_def split: if_splits)
  next
    case False
    then have "1 \<le> unat ?l" by (simp add: Suc_leI unat_gt_0)
    then have "rat_of_nat 1 \<le> rat_of_nat (unat ?l)" by (simp only: of_nat_le_iff)
    then have "?f (rat_of_nat 1) \<le> ?f (rat_of_nat (unat ?l))" by (rule monoD [OF mono])
    then have pos: "0 < ?f (rat_of_nat (unat ?l))" using float_ok_nat [OF assms(1), of 1] by simp
    have "rat_of_nat (unat (msg_reach m)) \<le> rat_of_nat (unat (msg_reach m'))"
      using assms(3) by (simp only: of_nat_le_iff word_le_nat_alt)
    then have "100 * ?f (rat_of_nat (unat (msg_reach m))) \<le> 100 * ?f (rat_of_nat (unat (msg_reach m')))"
      using monoD [OF mono] by simp
    then have "?q (msg_reach m) \<le> ?q (msg_reach m')"
      using pos by (intro monoD [OF mono] divide_right_mono) simp_all
    then show "above (score ?f (msg_reach m) ?l) c \<Longrightarrow> above (score ?f (msg_reach m') ?l) c"
      using False by (simp add: score_def above_def)
  qed
  from this [of 70] this [of 50] show ?thesis
    by (simp add: dump_row_def Let_def assms(2) less_eq_msg_type_def)
qed

lemma dump_rows_Fin: "dump_rows ms s = Fin () (s\<lparr>sc_table := sc_table s @ map (\<lambda>m. dump_row m s) ms\<rparr>)"
proof (induction ms arbitrary: s)
  case (Cons m ms)
  have "dump_row x (s\<lparr>sc_table := r\<rparr>) = dump_row x s" for x r
    by (simp add: dump_row_def Let_def)
  with Cons show ?case by (simp add: run_simps)
qed (simp add: run_simps)

lemma row_fields:
  "row_name (dump_row m s) = msg_name m" "row_limit (dump_row m s) = msg_reach m" "row_reach (dump_row m s) = msg_limit m"
  "row_reason (dump_row m s) = msg_reason m"
  by (simp_all add: dump_row_def Let_def)


text \<open>A rounding to multiples of \<open>2 ^ - 17\<close>, as precise as \<open>float\<close> is near 100.\<close>

definition round17 :: "rat \<Rightarrow> rat" where
  "round17 q = rat_of_int \<lfloor>q * 131072\<rfloor> / 131072"

lemma round17_ok: "float_ok round17"
proof -
  have "mono round17" by (rule monoI) (simp add: round17_def floor_mono divide_right_mono)
  moreover have "round17 (rat_of_nat n) = rat_of_nat n" for n
  proof -
    have "rat_of_nat n * 131072 = rat_of_int (int n * 131072)" by simp
    then have "\<lfloor>rat_of_nat n * 131072\<rfloor> = int n * 131072" by (metis floor_of_int)
    then show ?thesis by (simp add: round17_def)
  qed
  ultimately show ?thesis by (simp add: float_ok_def)
qed


end
