(* ===== verification/Syschk_Results.thy ===== *)
theory Syschk_Results
  imports Syschk_Output Own_State
begin

text \<open>
  The results of \<open>syschk\<close>: under every script and for all answers of
  the calls, which rows the table has and what the exit code says of them.
\<close>

section \<open>What the calls leave alone\<close>

text \<open>
  A property of the state that may depend on the results and on the table, but on nothing else that the tests change.
\<close>

locale sys_frame = own_state I for I :: "'z sys_os_scheme \<Rightarrow> bool" +
  assumes of_forks [simp]: "I (s\<lparr>pr_forks := fs\<rparr>) = I s"
    and of_pid [simp]: "I (s\<lparr>pid_self := p\<rparr>) = I s"
    and of_ignored [simp]: "I (s\<lparr>pr_ignored := gs\<rparr>) = I s"
    and of_sent [simp]: "I (s\<lparr>pr_sent := sn\<rparr>) = I s"
    and of_forked [simp]: "I (s\<lparr>sc_forked := a\<rparr>) = I s"
    and of_t_last [simp]: "I (s\<lparr>sc_t_last := b\<rparr>) = I s"
    and of_counter [simp]: "I (s\<lparr>sc_counter_last := c\<rparr>) = I s"
    and of_ticks [simp]: "I (s\<lparr>sc_ticks := ts\<rparr>) = I s"
    and of_open [simp]: "I (s\<lparr>sc_open := ds\<rparr>) = I s"
    and of_live [simp]: "I (s\<lparr>sc_live := l\<rparr>) = I s"
    and of_limits [simp]: "I (s\<lparr>sc_limits := ls\<rparr>) = I s"
    and of_set_ok [simp]: "I (s\<lparr>sc_set_ok := bs\<rparr>) = I s"
    and of_buffer [simp]: "I (s\<lparr>sc_buffer := h\<rparr>) = I s"
    and of_saveptr [simp]: "I (s\<lparr>sc_saveptr := r\<rparr>) = I s"
    and of_prio [simp]: "I (s\<lparr>sc_prio := pr\<rparr>) = I s"
    and of_zombies [simp]: "I (s\<lparr>sc_zombies := z\<rparr>) = I s"
begin

lemma own_print [own]: "keeps (msg_note ty fmt xs) I" "keeps (progress nm c l) I"
  unfolding msg_note_def progress_def by (rule own)+

lemma own_limits [own]: "keeps (setrlim r l) I"
proof -
  have "keeps (setrlimit r l) I" for l
    by (rule keepsI) (simp add: setrlimit_def split: list.split)
  then show ?thesis unfolding setrlim_def by (intro keeps own)
qed

lemma own_performance [own]: "keeps (performance c d) I"
proof -
  have "keeps time_call I"
    by (rule keepsI) (simp add: time_call_def split: list.split)
  then show ?thesis unfolding performance_def by (intro keeps keeps_modify; simp)
qed

lemma own_open_turns [own]: "keeps (open_turns l t rs i f) I"
proof -
  have close: "keeps (close_opened lm g n) I" for lm g n
    by (induction n) (auto intro!: keeps own keeps_modify)
  show ?thesis
  proof (induction rs arbitrary: i f)
    case (Cons r rs)
    then show ?case by (cases r) (auto simp: chk_open_cleanup_def intro!: keeps keeps_modify own close)
  qed (auto simp: chk_open_cleanup_def intro!: keeps own close)
qed

lemma own_calloc_turns [own]: "keeps (calloc_turns l sz t bs i) I"
proof (induction bs arbitrary: i)
  case Nil
  show ?case by (subst calloc_turns.simps) (auto intro!: keeps own)
next
  case (Cons b bs)
  then show ?case
    by (subst calloc_turns.simps) (cases b; auto intro!: keeps keeps_modify own)
qed

lemma own_free_heaps [own]: "keeps (free_heaps l sz n) I"
  by (induction n) (auto intro!: keeps own keeps_modify)

lemma own_fork_finish [own]: "keeps (fork_finish p r) I"
proof -
  have v: "keeps (verify p n i) I" for n i
    by (induction n arbitrary: i) (auto intro!: keeps own)
  have va: "keeps (verify_all n p m) I" for n m
    by (induction n) (auto intro!: keeps own v)
  have k: "keeps (kill i g) I" for i g
    unfolding kill_def by (rule own_syscall) (simp split: option.split)
  have r: "keeps (reap n) I" for n
    by (induction n) (auto intro!: keeps own keeps_modify)
  show ?thesis
    unfolding fork_finish_def chk_fork_cleanup_def sig_handler_def by (intro keeps own va k r keeps_modify) simp
qed

lemma own_do_fork [own]: "keeps (do_fork n p l t r) I"
proof -
  have f: "keeps fork I"
    by (rule keepsI) (auto simp: fork_def shared_def split: list.split fork_answer.split)
  have c: "keeps fork_child I" unfolding fork_child_def by (intro keeps)
  show ?thesis by (induction n) (auto intro!: keeps own keeps_modify f c)
qed

lemma own_setpriority [own]: "keeps (setpriority pr) I"
  by (rule keepsI) (simp add: setpriority_def)

lemma own_prepare [own]: "keeps chk_open_prepare I" "keeps chk_fork_prepare I" "keeps chk_calloc_prepare I"
proof -
  have l: "keeps (read_file_lines q) I" for q
    unfolding read_file_lines_def load_file_def by (intro keeps own keeps_modify) simp_all
  have m: "keeps (meminfo_lines n z) I" for n z
    by (induction n arbitrary: z) (auto intro!: keeps l)
  show "keeps chk_open_prepare I" "keeps chk_fork_prepare I" "keeps chk_calloc_prepare I"
    unfolding chk_open_prepare_def chk_fork_prepare_def chk_calloc_prepare_def Let_def by (intro keeps own m)+
qed

lemma own_msg_full [own]: "keeps (msg_full ty tx) I"
  unfolding msg_full_def get_la_def by (intro keeps own)

lemma own_start [own]: "keeps (sigaction_handle g) I"
  unfolding sigaction_handle_def by (rule own_syscall) simp

end

section \<open>The rows of the table\<close>

definition found :: "string list \<Rightarrow> string list \<Rightarrow> 'z sys_os_scheme \<Rightarrow> bool" where
  "found ns ts s \<longleftrightarrow> map msg_name (sc_msgs s) = ns \<and> map row_name (sc_table s) = ts"

interpretation found: sys_frame "found ns ts" for ns ts
  by unfold_locales (simp_all add: found_def)

text \<open>The state in which a process stops before the table is printed.\<close>

definition no_table :: "'z sys_os_scheme \<Rightarrow> bool" where
  "no_table s \<longleftrightarrow> sc_table s = []"

lemma found_no_table: "found ns [] s \<Longrightarrow> no_table s"
  by (simp add: found_def no_table_def)

lemma found_add:
  "triple (found ns []) (addMessage nm st lmt rc rs) (\<lambda>_. found (ns @ [take 15 nm]) []) no_table"
proof -
  have "triple (found ns []) (modify (\<lambda>s. s\<lparr>sc_msgs := sc_msgs s @ [\<lparr>msg_name = take 15 nm, msg_limit = lmt, msg_reach = rc,
      msg_reason = rs, msg_stime = (fst st, 0), msg_etime = et\<rparr>]\<rparr>)) (\<lambda>_. found (ns @ [take 15 nm]) []) no_table" for et
    by (rule tripleI) (simp add: modify_def found_def)
  then have "triple (found ns []) (if \<not> ok then stop Undefined else bindr ftime (\<lambda>et. modify (\<lambda>s. s\<lparr>sc_msgs := sc_msgs s @
      [\<lparr>msg_name = take 15 nm, msg_limit = lmt, msg_reach = rc, msg_reason = rs, msg_stime = (fst st, 0), msg_etime = et\<rparr>]\<rparr>)))
      (\<lambda>_. found (ns @ [take 15 nm]) []) no_table" for ok
    by (intro triple_if triple_stop triple_step keeps) (auto intro: found_no_table)
  then show ?thesis
    unfolding addMessage_def by (intro triple_step own found_no_table) assumption+
qed

lemmas found_steps = triple_step triple_stop triple_if own keeps found_no_table

lemma triple_pair: "(\<And>a b. triple I (f a b) Q S) \<Longrightarrow> triple I (case p of (a, b) \<Rightarrow> f a b) Q S"
  by (cases p) simp

lemma triple_let: "(\<And>x. triple I (f x) Q S) \<Longrightarrow> triple I (let x = e in f x) Q S"
  by simp

lemma found_open:
  "triple (found [] []) (chk_open t) (\<lambda>_. found [''OPEN''] []) no_table"
proof -
  have add: "triple (found [] []) (bindr (addMessage ''OPEN'' st lmt rc rs) (\<lambda>_. retr EXIT_FAILURE)) (\<lambda>_. found [''OPEN''] []) no_table"
    for st lmt rc rs
    by (rule triple_bind [OF found_add triple_retr]) simp
  show ?thesis
    unfolding chk_open_def
    by (intro found_steps triple_pair add) assumption+
qed

lemma found_fork:
  "triple (found ns []) (chk_fork t) (\<lambda>_ s. found ns [] s \<or> found (ns @ [''PROC'']) [] s) no_table"
proof -
  have add: "triple (found ns []) (bindr (addMessage ''PROC'' st lmt rc rs) (\<lambda>_. bindr (SharedMemory_delete p True) (\<lambda>_. retr e)))
      (\<lambda>_ s. found ns [] s \<or> found (ns @ [''PROC'']) [] s) no_table" for st lmt rc rs p e
    by (rule triple_bind [OF found_add]) (intro found_steps triple_retr; simp)
  show ?thesis
    unfolding chk_fork_def
    by (intro found_steps triple_pair triple_let add triple_retr; (assumption | simp))
qed

lemma found_calloc:
  "triple (found ns []) (chk_calloc sz t) (\<lambda>e s. e = 0 \<and> found (ns @ [''CALLOC'']) [] s) no_table"
proof -
  have add: "triple (found ns []) (bindr (addMessage ''CALLOC'' st lmt rc rs) (\<lambda>_. retr EXIT_SUCCESS))
      (\<lambda>e s. e = 0 \<and> found (ns @ [''CALLOC'']) [] s) no_table" for st lmt rc rs
    by (rule triple_bind [OF found_add]) (intro triple_retr; simp)
  show ?thesis
    unfolding chk_calloc_def
    by (intro found_steps triple_pair triple_let add keeps_modify; (assumption | simp))
qed

lemma found_dump: "triple (found ns []) Msg_dump (\<lambda>_. found [] ns) no_table"
proof -
  have "triple (found ns []) (bindr (gets sc_msgs) (\<lambda>ms. bindr (dump_rows ms) (\<lambda>_. modify (\<lambda>s. s\<lparr>sc_msgs := []\<rparr>))))
      (\<lambda>_. found [] ns) no_table"
    by (rule tripleI) (simp add: run_simps dump_rows_Fin found_def row_fields o_def)
  then show ?thesis
    unfolding Msg_dump_def by (intro triple_step [OF found.own_msg_full found_no_table])
qed

lemma triple_disj: "triple I m Q S \<Longrightarrow> triple J m Q S \<Longrightarrow> triple (\<lambda>s. I s \<or> J s) m Q S"
  by (auto simp: triple_def)

definition rows_of :: "string list \<Rightarrow> int \<Rightarrow> string list" where
  "rows_of ns e = ns @ (if e = 0 then [''CALLOC''] else [])"

lemma found_last:
  "triple (found ns []) (bindr (msg_full M_TITL tx) (\<lambda>_. bindr chk_calloc_prepare (\<lambda>e.
     bindr (if e = EXIT_SUCCESS then chk_calloc CALLOC_SIZE CHK_CALLOC_THRESHOLD else retr e) (\<lambda>e.
     bindr Msg_dump (\<lambda>_. retr e))))) (\<lambda>e. found [] (rows_of ns e)) no_table"
proof -
  have test: "triple (found ns []) (if e = EXIT_SUCCESS then chk_calloc CALLOC_SIZE CHK_CALLOC_THRESHOLD else retr e)
      (\<lambda>e. found (rows_of ns e) []) no_table" for e
  proof (cases "e = 0")
    case True
    have "triple (found ns []) (chk_calloc CALLOC_SIZE CHK_CALLOC_THRESHOLD) (\<lambda>e. found (rows_of ns e) []) no_table"
      by (rule triple_mono [OF found_calloc]) (auto simp: rows_of_def)
    with True show ?thesis by simp
  qed (auto simp: rows_of_def intro: triple_retr)
  have dump: "triple (found (rows_of ns e) []) (bindr Msg_dump (\<lambda>_. retr e)) (\<lambda>e. found [] (rows_of ns e)) no_table" for e
    by (rule triple_bind [OF found_dump triple_retr])
  have "triple (found ns []) (bindr (if e = EXIT_SUCCESS then chk_calloc CALLOC_SIZE CHK_CALLOC_THRESHOLD else retr e)
      (\<lambda>e. bindr Msg_dump (\<lambda>_. retr e))) (\<lambda>e. found [] (rows_of ns e)) no_table" for e
    by (rule triple_bind [OF test dump])
  then show ?thesis
    by (intro triple_step [OF found.own_msg_full found_no_table] triple_step [OF found.own_prepare(3) found_no_table])
qed

lemma found_tests:
  "triple no_table sys_tests (\<lambda>e s. found [] (rows_of [''OPEN''] e) s \<or> found [] (rows_of [''OPEN'', ''PROC''] e) s) no_table"
proof -
  let ?Q = "\<lambda>e s. found [] (rows_of [''OPEN''] e) s \<or> found [] (rows_of [''OPEN'', ''PROC''] e) s"
  let ?last = "bindr (msg_full M_TITL ''ALOC'') (\<lambda>_. bindr chk_calloc_prepare (\<lambda>e.
     bindr (if e = EXIT_SUCCESS then chk_calloc CALLOC_SIZE CHK_CALLOC_THRESHOLD else retr e) (\<lambda>e.
     bindr Msg_dump (\<lambda>_. retr e))))"
  have last: "triple (found ns []) ?last ?Q no_table" if "ns = [''OPEN''] \<or> ns = [''OPEN'', ''PROC'']" for ns
    by (rule triple_mono [OF found_last [of ns]]) (use that in auto)
  have fork: "triple (found [''OPEN''] []) (if e = EXIT_SUCCESS then chk_fork CHK_FORK_THRESHOLD else retr e)
      (\<lambda>_ s. found [''OPEN''] [] s \<or> found [''OPEN'', ''PROC''] [] s) no_table" for e
  proof (cases "e = 0")
    case True
    then show ?thesis using found_fork [of "[''OPEN'']"] by simp
  qed (auto intro: triple_retr)
  have forked: "triple (found [''OPEN''] []) (bindr (msg_full M_TITL ''FORK'') (\<lambda>_. bindr chk_fork_prepare (\<lambda>e.
      bindr (if e = EXIT_SUCCESS then chk_fork CHK_FORK_THRESHOLD else retr e) (\<lambda>_. ?last)))) ?Q no_table"
    by (intro triple_step [OF found.own_msg_full found_no_table] triple_step [OF found.own_prepare(2) found_no_table]
        triple_bind [OF fork triple_disj [OF last last]]; simp)
  have open_test: "triple (found [] []) (if e = EXIT_SUCCESS then chk_open CHK_OPEN_THRESHOLD else retr e)
      (\<lambda>_. found [''OPEN''] []) no_table" if "e = 0" for e
    using found_open that by simp
  have prep: "triple (found [] []) (bindr chk_open_prepare (\<lambda>e. f e)) Q no_table" if "triple (found [] []) (f 0) Q no_table" for f Q
  proof -
    have step: "triple (found [] []) (bindr (assertr (e = EXIT_SUCCESS)) (\<lambda>_.
        bindr (gets sc_prio) (\<lambda>prio.
        bindr (printf ((if prio = PRIO then ''Done'' else ''Failed'') @ [NL]) []) (\<lambda>_.
        bindr (get_proc_reading ''/proc/sys/fs/file-max'' (- 1)) (\<lambda>fh_max.
        bindr (setrlim R_NOFILE (word_of_int fh_max)) (\<lambda>_. f e)))))) Q no_table" for e
    proof (cases "e = 0")
      case True
      with that show ?thesis by (simp only:) (intro found_steps)
    next
      case False
      then show ?thesis by (simp add: triple_def bindr_def assertr_def found_no_table)
    qed
    show ?thesis
      unfolding chk_open_prepare_def bindr_assoc bindr_retr
      by (intro triple_step keeps own found_no_table step)
  qed
  have opened: "triple (found [] []) (bindr (if e = EXIT_SUCCESS then chk_open CHK_OPEN_THRESHOLD else retr e) (\<lambda>_.
      bindr (msg_full M_TITL ''FORK'') (\<lambda>_. bindr chk_fork_prepare (\<lambda>e.
      bindr (if e = EXIT_SUCCESS then chk_fork CHK_FORK_THRESHOLD else retr e) (\<lambda>_. ?last))))) ?Q no_table" if "e = 0" for e
    by (rule triple_bind [OF open_test [OF that] forked])
  have start: "triple no_table (modify (\<lambda>s. s\<lparr>sc_forked := 0, sc_msgs := [], sc_t_last := 0, sc_counter_last := 0,
      sc_buffer := False, sc_saveptr := []\<rparr>)) (\<lambda>_. found [] []) no_table"
    by (simp add: triple_def modify_def found_def no_table_def)
  show ?thesis
    unfolding sys_tests_def
    by (rule triple_bind [OF start], intro triple_step [OF found.own_msg_full found_no_table] prep opened) simp_all
qed



end
