(* ===== verification/Syschk_Sock.thy ===== *)
theory Syschk_Sock
  imports Syschk
begin

text \<open>
  The function \<open>chk_sock\<close> of \<open>src/src/syschk.c\<close>, which no other function calls: it waits for one connection on a port, prints
  what arrives and answers.
\<close>

section \<open>State\<close>

text \<open>
  The descriptors that \<open>socket\<close> and \<open>accept\<close> give (none when they fail), whether the port is free, what the next \<open>read\<close> of the
  connection gets, the ports with the length of their queues, the open descriptors, and what was sent.
\<close>

record sock_os = os +
  so_fds :: "int option list"
  so_port_free :: bool
  so_request :: "string option"
  so_listening :: "(int \<times> int) list"
  so_open :: "int list"
  so_sent :: "(int \<times> string) list"

definition new_fd :: "'z sock_os_scheme \<Rightarrow> ('z sock_os_scheme, int) run" where
  "new_fd s = (case so_fds s of
     [] \<Rightarrow> Fin (- 1) s
   | None # fs \<Rightarrow> Fin (- 1) (s\<lparr>so_fds := fs\<rparr>)
   | Some fd # fs \<Rightarrow> Fin fd (s\<lparr>so_fds := fs, so_open := so_open s @ [fd]\<rparr>))"

text \<open>The characters up to the first null character.\<close>

definition c_text :: "string \<Rightarrow> string" where
  "c_text buf = takeWhile (\<lambda>c. c \<noteq> NUL) buf"

definition chk_sock :: "int \<Rightarrow> 'z sock_os_scheme \<Rightarrow> ('z sock_os_scheme, int) run" where
  "chk_sock threshold =
     bindr new_fd (\<lambda>sockfd.
     if sockfd < 0 then retr EXIT_SUCCESS
     else
       bindr (gets (\<lambda>s. if so_port_free s then 0 else - 1)) (\<lambda>e.
       if e < 0 then retr e
       else
         bindr (modify (\<lambda>s. s\<lparr>so_listening := so_listening s @ [(1234, threshold)]\<rparr>)) (\<lambda>_.
         bindr new_fd (\<lambda>newsockfd.
         if newsockfd < 0 then retr e
         else
           bindr (gets so_request) (\<lambda>r.
           case r of
             None \<Rightarrow> retr e
           | Some cs \<Rightarrow>
               let buffer = overwrite 0 (take 255 cs) (replicate 256 NUL) in
               bindr (printf (''Here is the message: '' @ c_text buffer @ [NL]) []) (\<lambda>_.
               bindr (modify (\<lambda>s. s\<lparr>so_sent := so_sent s @ [(newsockfd, ''I got your message'')]\<rparr>)) (\<lambda>_.
               retr e)))))))"

section \<open>What it returns and leaves\<close>

text \<open>The buffer keeps a null character at its end, so that no message is read beyond it.\<close>

lemma message_text: "c_text (overwrite 0 (take 255 cs) (replicate 256 NUL)) = takeWhile (\<lambda>c. c \<noteq> NUL) (take 255 cs)"
proof -
  have "drop (length (take 255 cs)) (replicate 256 NUL) = NUL # replicate (255 - length (take 255 cs)) NUL"
    by (simp add: Suc_diff_le flip: replicate_Suc)
  then have "overwrite 0 (take 255 cs) (replicate 256 NUL) = take 255 cs @ NUL # replicate (255 - length (take 255 cs)) NUL"
    by (simp add: overwrite_def)
  then show ?thesis by (simp add: c_text_def takeWhile_tail)
qed

lemma new_fd_open: "new_fd s = Fin fd t \<Longrightarrow> \<exists>fds. so_open t = so_open s @ fds \<and> so_port_free t = so_port_free s \<and> so_sent t = so_sent s"
  by (auto simp: new_fd_def split: list.splits option.splits)

lemma new_fd_returns: "\<exists>fd t. new_fd s = Fin fd t"
  by (simp add: new_fd_def split: list.split option.split)

text \<open>
  The function ends, and every descriptor it got stays open. It answers 0 also when it got no socket at all, and -1 only
  when the port was taken.
\<close>

lemma chk_sock_leaks:
  "\<exists>e t fds. chk_sock n s = Fin e t \<and> so_open t = so_open s @ fds \<and> (e = 0 \<or> e = - 1 \<and> \<not> so_port_free s)"
proof -
  obtain fd t where t: "new_fd s = Fin fd t" using new_fd_returns by blast
  obtain fd' u where u: "new_fd (t\<lparr>so_listening := so_listening t @ [(1234, n)]\<rparr>) = Fin fd' u" using new_fd_returns by blast
  from new_fd_open [OF t] new_fd_open [OF u] show ?thesis
    by (cases "so_request u") (auto simp: chk_sock_def run_simps t u Let_def printf_def)
qed

end
