(* ===== verification/Spec2Isabelle.thy ===== *)
theory Spec2Isabelle
  imports Contention Lock_Session Registers_Props Register_Views Ia32emu_Props Daemonize_Launch Syschk_Lines Syschk_Results Syschk_Sock
begin

text \<open>
  \<^bold>\<open>Atomicles\<close>: a C library of two classes over System V IPC (\<open>Semaphore\<close>, \<open>SharedMemory\<close>) and four commands
  built with them: \<open>lock\<close> (a named counting semaphore for shell scripts), \<open>daemonize\<close> (keeps a program
  running in the background), \<open>ia32emu\<close> (runs one IA-32 instruction on registers that live in shared
  memory) and \<open>syschk\<close> (measures the limits of a host). The theories follow the order in which the code
  builds on itself; all paths are relative to \<open>src/src\<close>.

  \<^bold>\<open>How C is read.\<close> A C function is a function from a state to a \<open>run\<close>: it ends with a value and a state
  (\<open>Fin\<close>), or the process stops in it (\<open>Stop\<close>: it exits, a failed assertion aborts it, it does something
  undefined, or it waits for ever). Words have their width (\<open>u32\<close>, \<open>u16\<close>, \<open>u64\<close>); an \<open>int\<close> is an
  \<open>int\<close> cut to 32 bits where the code may overflow it. Objects are records passed and returned. Where C's
  behaviour depends on memory nobody wrote, the model reads the arbitrary field \<open>junk\<close> of the state.

  \<^bold>\<open>The system\<close> (\<open>Xsi_Kernel\<close>). The documented behaviour of \<open>semget\<close>, \<open>semctl\<close>, \<open>semop\<close>, \<open>shmget\<close>,
  \<open>shmat\<close>, \<open>shmctl\<close>, \<open>ftok\<close>, \<open>malloc\<close>, \<open>time\<close> and \<open>sleep\<close>, with the tables of the kernel in the state. Other
  processes and failing calls are an arbitrary \<open>script\<close> of which each call takes one entry: a theorem
  for every script is one for every interleaving, call by call, and for every error. A system is
  \<open>calm\<close> or quiet when the script is used up and no limit is in the way; the functional theorems are
  about it, the safety theorems are about every script. \<open>Processes\<close> adds \<open>fork\<close>, \<open>execvp\<close>, \<open>kill\<close>,
  \<open>sigaction\<close>, \<open>waitpid\<close>: the answers of \<open>fork\<close> are data, so that parent and child are two runs of one
  function, and signals arrive in waits and sleeps. \<open>C_Library\<close> holds \<open>atoi\<close>, string comparison and
  \<open>getopt_long\<close>.

  \<^bold>\<open>Theories and code.\<close>
  \<^item> \<open>Prelude\<close>: runs, their sequencing, and the proof rules for \<open>every\<close> (however a run ends), \<open>keeps\<close>
    (every call keeps a property) and \<open>post\<close> (a run ends, and so).
  \<^item> \<open>Semaphore\<close> (\<open>Semaphore.c\<close>, \<open>Semaphore.h\<close>): creation, attachment, deletion, the three kinds of
    \<open>Semaphore$lock\<close>, \<open>Semaphore$unlock\<close>. Exact results in a quiet system, soundness and races in any, and
    refinement of an abstract counting semaphore. \<open>Contention\<close>: any number of processes that lock and unlock, as
    a step relation with an invariant, down to the interleaving of the two calls that \<open>Semaphore$unlock\<close> makes.
  \<^item> \<open>SharedMemory\<close> (\<open>SharedMemory.c\<close>, \<open>SharedMemory.h\<close>): segments, their mutex, cells and strings. The
    locale \<open>critical_section\<close> is its view of the semaphore; the locale \<open>cell_store\<close> is the clients' view of it.
  \<^item> \<open>Lock_Cmd\<close> (\<open>lock.c\<close>, \<open>lock.h\<close>), \<open>Lock_Spec\<close>, \<open>Lock_Session\<close>: the command, an abstract lock (free units,
    size, expiry), and the refinement of command lines and of whole sessions of processes.
  \<^item> \<open>Bits\<close> (\<open>bits.h\<close>, \<open>bits.c\<close>), \<open>Registers\<close> (\<open>registers.h\<close>, \<open>registers.c\<close>), \<open>Ia32emu\<close> (\<open>ia32emu.c\<close>), each with its
    properties: what every instruction leaves in registers and flags, the loop of \<open>shift\<close> against
    arithmetic, the registers between two runs. \<open>Register_Views\<close>: the unions of \<open>registers.h\<close> and \<open>bits.h\<close>, as layouts of bit fields.
  \<^item> \<open>Daemonize\<close> (\<open>daemonize.c\<close>, \<open>daemonize.h\<close>): launcher, session leader, daemon and child.
    \<open>Forked\<close> says what a fork leaves of shared memory; \<open>Daemonize_Props\<close> has the commands \<open>-s\<close> and \<open>-K\<close>;
    \<open>Own_State\<close> and \<open>Daemonize_Loop\<close> have the locales of frame rules for a program's own data and the
    life of the daemon under every script; \<open>Daemonize_Paths\<close> its single paths; \<open>Daemonize_Life\<close> what it is for
    (starting the command again after growing pauses), its child, and the collision of \<open>-K\<close> with the daemon;
    \<open>Daemonize_Session\<close> an abstract channel and the refinement of sessions of commands;
    \<open>Daemonize_Launch\<close> a launch as four runs of the command on one kernel, each of which goes on from the kernel that
    another left (the script of a run hands it over), and the session that follows; \<open>Padding\<close> has what it needs of
    scripts: a quiet run is one in which the others do nothing at any point.
  \<^item> \<open>Syschk\<close>, \<open>Syschk_Props\<close> (\<open>syschk.c\<close>): limits, the three tests, their measurement of speed, the handler of SIGCHLD, and all they print.
    \<open>Syschk_Lines\<close>: \<open>/proc/meminfo\<close> read by lines and the limit of memory that follows. \<open>Syschk_Output\<close>: titles and the table of
    results. \<open>Syschk_Results\<close>: a locale of frame rules over \<open>Own_State\<close>, and which results and which exit code a run
    has under every script. \<open>Syschk_Sock\<close>: \<open>chk_sock\<close>, which nothing calls.

  \<^bold>\<open>Loops.\<close> Loops over data (options, slots, bytes, descriptors) are structural, \<open>getopt_long\<close> ends because
  each turn takes an argument or a letter. A wait in the kernel ends with the script, since a process that
  nobody wakes waits for ever. \<open>lock_attempts\<close> makes as many attempts as the timeout has
  seconds. The loop of the daemon has a fuel: a theorem of \<open>Daemonize_Loop\<close> proves that the fuel \<open>daemonize\<close> starts it with is never
  used up, as every turn takes an event of a wait, or a signal of a sleep, and runs into a wait
  without end when none is left. \<open>do_fork\<close> takes an answer of \<open>fork\<close> in each turn, and fails without one; its fuel is
  one more than the answers. \<open>verify_all\<close> reads the table again until it is full: once the script is used
  up nothing can change the table any more, so one turn for each entry and one more decide whether
  the loop ends. \<open>meminfo_lines\<close> takes at least one character of the buffer in each turn; its fuel is two more than the
  buffer has room for.

  \<^bold>\<open>Numbers with a fraction.\<close> \<open>syschk\<close> rates its results with \<open>float\<close> and \<open>double\<close>. What they make of a rational number
  is a function of the state; the theorem about the table only relies on \<open>float_ok\<close>: it is monotone and holds small integers exactly.

  \<^bold>\<open>Not modelled.\<close> What goes to \<open>stderr\<close> and \<open>syslog\<close> (but for the accesses its arguments make), what the preprocessor
  leaves out, signals that arrive elsewhere than in a wait or a sleep (\<open>syschk\<close>: than in its \<open>kill\<close> of the own
  group), the size of the stack, \<open>Mutex.c\<close>, \<open>c.c\<close> and \<open>gpr.h\<close> (not built; \<open>c.c\<close> asks the compiler for undefined
  behaviour, and \<open>gpr.h\<close> is not C), the script \<open>atomicles\<close> and the packaging (not C).
\<close>

end
